theory Spec2Isabelle
  imports Main "HOL-Library.Word" "HOL-Library.Sublist"
begin

section \<open>The slimcache entry point (src/server/slimcache/main.c)\<close>

text \<open>
  The file is orchestration: it parses the command line, loads the options, sets the
  modules up, registers two timed events with the admin thread, runs the core and exits.
  Every function it calls outside the file is an \<^emph>\<open>event\<close> of the process: the model
  records the call (with the arguments that matter and, where the code branches on it,
  the result) in a trace, and takes the results from an environment. What a callee does
  inside is outside this file.
\<close>

subsection \<open>Constants of the C library\<close>

text \<open>The exit statuses of \<^verbatim>\<open>sysexits.h\<close> and the signal number of \<^verbatim>\<open>signal.h\<close>.\<close>

definition EX_OK :: int where "EX_OK = 0"
definition EX_USAGE :: int where "EX_USAGE = 64"
definition EX_DATAERR :: int where "EX_DATAERR = 65"
definition EX_OSERR :: int where "EX_OSERR = 71"
definition EX_CONFIG :: int where "EX_CONFIG = 78"

definition SIGTERM :: int where "SIGTERM = 15"

definition CRLF :: string where "CRLF = [CHR 0x0D, CHR 0x0A]"

subsection \<open>Data of the file\<close>

text \<open>
  \<^verbatim>\<open>enum slimcache_timeout_event_type\<close>: the indices of \<^verbatim>\<open>slimcache_tev\<close>.
\<close>

definition DLOG_TIMEOUT_EV :: nat where "DLOG_TIMEOUT_EV = 0"
definition KLOG_TIMEOUT_EV :: nat where "KLOG_TIMEOUT_EV = 1"
definition MAX_TIMEOUT_EV :: nat where "MAX_TIMEOUT_EV = 2"

text \<open>A \<^verbatim>\<open>struct timeout_event *\<close>: \<open>None\<close> is \<^verbatim>\<open>NULL\<close>, \<open>Some a\<close> a handle.\<close>

type_synonym tev = "nat option"

text \<open>The functions of the program that are passed around as pointers.\<close>

datatype fn =
    Fn_teardown | Fn_shutdown | Fn_debug_log_flush | Fn_klog_flush
  | Fn_slimcache_process_read | Fn_slimcache_process_write | Fn_slimcache_process_error

text \<open>\<^verbatim>\<open>struct data_processor worker_processor\<close>: three callbacks and the running flag.\<close>

record data_processor =
  dp_read :: fn
  dp_write :: fn
  dp_error :: fn
  running :: bool

text \<open>The two addresses the file takes of that object.\<close>

datatype addr = Addr_worker_processor | Addr_worker_processor_running

datatype memorder = ATOMIC_RELAXED | ATOMIC_ACQUIRE | ATOMIC_RELEASE | ATOMIC_SEQ_CST

text \<open>The modules that have a setup and a teardown function.\<close>

datatype module =
    Log | Debug | Buf | Dbuf | Event | Sockio | Tcp | Timing_wheel
  | Time | Procinfo | Request | Response | Parse | Compose | Klog | Cuckoo
  | Process | Admin_process | Core_admin | Core_server | Core_worker

datatype arg = Arg_int int | Arg_str string

datatype event =
    Log_stdout string
  | Log_stderr string "arg list"
  | Log_error string
  | Show_version
  | Option_describe_all
  | Metric_describe_all
  | Fopen string string bool
  | Fclose
  | Option_load_default bool
  | Option_load_file bool
  | Option_print_all
  | Atexit fn bool
  | Signal_override int string fn bool
  | Setup module bool
  | Teardown module
  | Daemonize
  | Create_pidfile string
  | Remove_pidfile string
  | Core_admin_register "64 word" fn tev
  | Core_admin_unregister tev
  | Atomic_store_n addr bool memorder
  | Core_destroy
  | Core_run addr addr
  | Exit int

text \<open>
  How a process stands: still running its code, ended by \<^verbatim>\<open>exit\<close> with a status, ended
  by a signal that had its default action, or inside a \<^verbatim>\<open>core_run\<close> that never returns.
\<close>

datatype status = Running | Exited int | Killed int | Serving

record proc =
  worker_processor :: data_processor
  slimcache_tev :: "tev list"
  atexit_teardown :: bool
  sigterm_shutdown :: bool
  trace :: "event list"
  status :: status

text \<open>
  The globals as the file initialises them: \<^verbatim>\<open>.running = true\<close>, a zeroed static array,
  no handler registered.
\<close>

definition init :: proc where
  "init = \<lparr> worker_processor = \<lparr> dp_read = Fn_slimcache_process_read,
                                   dp_write = Fn_slimcache_process_write,
                                   dp_error = Fn_slimcache_process_error,
                                   running = True \<rparr>,
             slimcache_tev = replicate MAX_TIMEOUT_EV None,
             atexit_teardown = False,
             sigterm_shutdown = False,
             trace = [],
             status = Running \<rparr>"

text \<open>What a reader of an address finds there: only the flag's address holds a flag.\<close>

fun atomic_load_n :: "proc \<Rightarrow> addr \<Rightarrow> bool option" where
  "atomic_load_n s Addr_worker_processor_running = Some (running (worker_processor s))"
| "atomic_load_n s Addr_worker_processor = None"

text \<open>
  Modelled from the spec: \<^verbatim>\<open>core_run\<close> is not among the sources, so how a call of it
  ends is taken from the specification. It returns, or it serves for ever, or (section 7:
  only startup-time or irrecoverable OS-resource failures terminate the process) it
  terminates the process itself with some status. Errors of single requests are handled
  inside and are no outcome of the call.
\<close>

datatype outcome = Returns | Serves | Fails int

text \<open>
  The environment: the result of every call the code branches on, the option values
  the code reads, how \<^verbatim>\<open>core_run\<close> ends, and when a SIGTERM arrives (a predicate on the
  calls made so far, so that every arrival point between two calls is covered).
\<close>

record env =
  fopen_ok :: "string \<Rightarrow> bool"
  load_default_ok :: bool
  load_file_ok :: bool
  atexit_ok :: bool
  signal_override_ok :: bool
  debug_setup_ok :: bool
  daemonize_opt :: bool
  pid_filename :: "string option"
  dlog_intvl :: "64 word"
  klog_intvl :: "64 word"
  register_dlog :: tev
  register_klog :: tev
  core_run_outcome :: outcome
  sigterm :: "event list \<Rightarrow> bool"

subsection \<open>Primitive steps\<close>

text \<open>A block of statements: each runs on the state the one before it left.\<close>

fun seq :: "('s \<Rightarrow> 's) list \<Rightarrow> 's \<Rightarrow> 's" where
  "seq [] s = s"
| "seq (f # fs) s = seq fs (f s)"

definition emit :: "event \<Rightarrow> proc \<Rightarrow> proc" where
  "emit e s = s\<lparr>trace := trace s @ [e]\<rparr>"

text \<open>
  \<^verbatim>\<open>exit\<close> and the \<^verbatim>\<open>teardown\<close> it runs are reached from the main flow of control as well
  as from the handler of SIGTERM. What differs is what happens at a point where a signal
  can be delivered, between two calls: the parameter \<open>p\<close> below. A call is made after
  such a point, if the process is still running then.
\<close>

definition made :: "(proc \<Rightarrow> proc) \<Rightarrow> event \<Rightarrow> proc \<Rightarrow> proc" where
  "made p e s =
     (if status s \<noteq> Running then s
      else let s' = p s in if status s' \<noteq> Running then s' else emit e s')"

text \<open>\<^verbatim>\<open>teardown\<close>, lines 63 to 89.\<close>

definition teardown :: "(proc \<Rightarrow> proc) \<Rightarrow> proc \<Rightarrow> proc" where
  "teardown p = seq [
     made p (Teardown Core_worker),
     made p (Teardown Core_server),
     made p (Teardown Core_admin),
     made p (Teardown Admin_process),
     made p (Teardown Process),
     made p (Teardown Cuckoo),
     made p (Teardown Klog),
     made p (Teardown Compose),
     made p (Teardown Parse),
     made p (Teardown Response),
     made p (Teardown Request),
     made p (Teardown Procinfo),
     made p (Teardown Time),
     made p (Teardown Timing_wheel),
     made p (Teardown Tcp),
     made p (Teardown Sockio),
     made p (Teardown Event),
     made p (Teardown Dbuf),
     made p (Teardown Buf),
     made p (Teardown Debug),
     made p (Teardown Log)]"

text \<open>
  The functions registered with \<^verbatim>\<open>atexit\<close>, run by \<^verbatim>\<open>exit\<close>: \<^verbatim>\<open>teardown\<close> if it is
  registered. The C library takes a function off its list before it calls it, so that an
  \<^verbatim>\<open>exit\<close> called again while \<^verbatim>\<open>teardown\<close> runs does not start it a second time.
\<close>

definition run_atexit :: "(proc \<Rightarrow> proc) \<Rightarrow> proc \<Rightarrow> proc" where
  "run_atexit p s =
     (if status s = Running \<and> atexit_teardown s
      then teardown p (s\<lparr>atexit_teardown := False\<rparr>) else s)"

text \<open>The end of \<^verbatim>\<open>exit\<close>: the process is over, with the status passed.\<close>

definition ended :: "int \<Rightarrow> proc \<Rightarrow> proc" where
  "ended st s = (if status s = Running then s\<lparr>status := Exited st\<rparr> else s)"

text \<open>
  \<^verbatim>\<open>exit\<close>: the call, then the functions registered with \<^verbatim>\<open>atexit\<close>, then the process
  is over. A process that is over takes no further step. When the main flow of control
  calls \<^verbatim>\<open>exit\<close>, a SIGTERM can still arrive before the call, before each call of
  \<^verbatim>\<open>teardown\<close> and before the process is over: its handler, which stays installed, then
  calls \<^verbatim>\<open>exit\<close> itself and ends the process, and the rest of \<^verbatim>\<open>teardown\<close> never runs.
\<close>

definition exit :: "(proc \<Rightarrow> proc) \<Rightarrow> int \<Rightarrow> proc \<Rightarrow> proc" where
  "exit p st s =
     (if status s \<noteq> Running then s
      else seq [made p (Exit st), run_atexit p, p, ended st] s)"

text \<open>
  The loop of \<^verbatim>\<open>_shutdown\<close>, lines 97 to 99:
  \<^verbatim>\<open>for (int i = DLOG_TIMEOUT_EV; i < MAX_TIMEOUT_EV; ++i)\<close>.
\<close>

function unregister_from :: "nat \<Rightarrow> proc \<Rightarrow> proc" where
  "unregister_from i s =
     (if i < MAX_TIMEOUT_EV
      then unregister_from (i + 1) (emit (Core_admin_unregister (slimcache_tev s ! i)) s)
      else s)"
  by pat_completeness auto
termination
  by (relation "measure (\<lambda>(i, s). MAX_TIMEOUT_EV - i)") auto

text \<open>
  \<^verbatim>\<open>_shutdown\<close>, lines 91 to 101. The signal is blocked while its handler runs, so
  nothing happens at the points between the calls of the handler, those of its \<^verbatim>\<open>exit\<close>
  included.
\<close>

definition shutdown :: "int \<Rightarrow> proc \<Rightarrow> proc" where
  "shutdown signo = seq [
     emit (Log_stderr ''_shutdown received signal %d'' [Arg_int signo]),
     (\<lambda>s. s\<lparr>worker_processor := (worker_processor s)\<lparr>running := False\<rparr>\<rparr>),
     emit (Atomic_store_n Addr_worker_processor_running False ATOMIC_RELEASE),
     emit Core_destroy,
     unregister_from DLOG_TIMEOUT_EV,
     exit id EX_OK]"

text \<open>
  The delivery of a SIGTERM: the handler if \<^verbatim>\<open>signal_override\<close> has installed it, the
  default action (the process is killed at once) otherwise.
\<close>

definition deliver_sigterm :: "proc \<Rightarrow> proc" where
  "deliver_sigterm s =
     (if sigterm_shutdown s then shutdown SIGTERM s else s\<lparr>status := Killed SIGTERM\<rparr>)"

text \<open>
  A point of the main flow of control where a signal can be delivered: the signal is
  delivered if one has arrived.
\<close>

definition sigpoint :: "env \<Rightarrow> proc \<Rightarrow> proc" where
  "sigpoint env s =
     (if status s = Running \<and> sigterm env (trace s) then deliver_sigterm s else s)"

text \<open>
  What a call leaves behind in the process, besides its event: \<^verbatim>\<open>atexit\<close> and
  \<^verbatim>\<open>signal_override\<close> register their argument when they succeed, and the statement
  \<^verbatim>\<open>slimcache_tev[i] = core_admin_register(...)\<close> stores the result of its call.
\<close>

datatype effect = No_effect | Register_atexit | Install_handler | Store_tev nat tev

fun apply_effect :: "effect \<Rightarrow> proc \<Rightarrow> proc" where
  "apply_effect No_effect s = s"
| "apply_effect Register_atexit s = s\<lparr>atexit_teardown := True\<rparr>"
| "apply_effect Install_handler s = s\<lparr>sigterm_shutdown := True\<rparr>"
| "apply_effect (Store_tev i t) s = s\<lparr>slimcache_tev := (slimcache_tev s)[i := t]\<rparr>"

text \<open>
  A call out of the file, made by the main flow of control: nothing if the process is
  over; the signal first if one has arrived; the call and its effect otherwise.
\<close>

definition call_eff :: "env \<Rightarrow> event \<Rightarrow> effect \<Rightarrow> proc \<Rightarrow> proc" where
  "call_eff env e eff s =
     (if status s \<noteq> Running then s
      else if sigterm env (trace s) then deliver_sigterm s
      else apply_effect eff (emit e s))"

definition call :: "env \<Rightarrow> event \<Rightarrow> proc \<Rightarrow> proc" where
  "call env e = call_eff env e No_effect"

definition log_stderr :: "env \<Rightarrow> string \<Rightarrow> arg list \<Rightarrow> proc \<Rightarrow> proc" where
  "log_stderr env fmt args = call env (Log_stderr fmt args)"

subsection \<open>\<^verbatim>\<open>show_usage\<close>, lines 31 to 61\<close>

definition usage_1 :: string where
  "usage_1 = ''Usage:'' @ CRLF @
             ''  pelikan_slimcache [option|config]'' @ CRLF"

definition usage_2 :: string where
  "usage_2 = ''Description:'' @ CRLF @
             ''  pelikan_slimcache is one of the unified cache backends. '' @ CRLF @
             ''  It uses cuckoo hashing to efficiently store small key/val '' @ CRLF @
             ''  pairs. It speaks the memcached ASCII protocol and supports '' @ CRLF @
             ''  most ASCII memcached commands, except prepend/append. '' @ CRLF @
             CRLF @
             ''  The storage in slimcache is preallocated as a hash table. '' @ CRLF @
             ''  Therefore, maximum key+val size has to be specified when '' @ CRLF @
             ''  starting the service, and cannot be updated dynamically.'' @ CRLF"

definition usage_3 :: string where
  "usage_3 = ''Command-line options:'' @ CRLF @
             ''  -h, --help        show this message'' @ CRLF @
             ''  -v, --version     show version number'' @ CRLF @
             ''  -c, --config      list & describe all options in config'' @ CRLF @
             ''  -s, --stats       list & describe all metrics in stats'' @ CRLF"

definition usage_4 :: string where
  "usage_4 = ''Example:'' @ CRLF @
             ''  pelikan_slimcache slimcache.conf'' @ CRLF @ CRLF @
             ''Sample config files can be found under the config dir.'' @ CRLF"

definition show_usage :: "env \<Rightarrow> proc \<Rightarrow> proc" where
  "show_usage env = seq [
     call env (Log_stdout usage_1),
     call env (Log_stdout usage_2),
     call env (Log_stdout usage_3),
     call env (Log_stdout usage_4)]"

subsection \<open>\<^verbatim>\<open>setup\<close>, lines 103 to 181\<close>

text \<open>
  The block at the label \<^verbatim>\<open>error\<close>, lines 174 to 180, with the value \<^verbatim>\<open>fname\<close> has
  when control jumps there.
\<close>

definition setup_error :: "env \<Rightarrow> string option \<Rightarrow> proc \<Rightarrow> proc" where
  "setup_error env fname = seq [
     (case fname of None \<Rightarrow> id | Some f \<Rightarrow> call env (Remove_pidfile f)),
     exit (sigpoint env) EX_CONFIG]"

text \<open>
  Lines 126 to 134, the top-level options: \<^verbatim>\<open>daemonize\<close> and the pid file.
\<close>

definition setup_options :: "env \<Rightarrow> proc \<Rightarrow> proc" where
  "setup_options env = seq [
     (if daemonize_opt env then call env Daemonize else id),
     (case pid_filename env of None \<Rightarrow> id | Some f \<Rightarrow> call env (Create_pidfile f))]"

text \<open>
  Lines 136 to 157, the library modules and the pelikan modules. The flag of a
  \<open>Setup\<close> event is the result the code reads: that of \<^verbatim>\<open>debug_setup\<close>; the other
  setup functions return nothing that is read.
\<close>

definition setup_modules :: "env \<Rightarrow> proc \<Rightarrow> proc" where
  "setup_modules env = seq [
     call env (Setup Buf True),
     call env (Setup Dbuf True),
     call env (Setup Event True),
     call env (Setup Sockio True),
     call env (Setup Tcp True),
     call env (Setup Timing_wheel True),
     call env (Setup Time True),
     call env (Setup Procinfo True),
     call env (Setup Request True),
     call env (Setup Response True),
     call env (Setup Parse True),
     call env (Setup Compose True),
     call env (Setup Klog True),
     call env (Setup Cuckoo True),
     call env (Setup Process True),
     call env (Setup Admin_process True),
     call env (Setup Core_admin True),
     call env (Setup Core_server True),
     call env (Setup Core_worker True)]"

text \<open>
  \<^verbatim>\<open>fname\<close> is \<^verbatim>\<open>NULL\<close> until line 130 assigns it, so the jump of line 123 reaches
  the label with \<^verbatim>\<open>NULL\<close> and the jumps of lines 163 and 169 with the option's value.
\<close>

definition setup_main :: "env \<Rightarrow> proc \<Rightarrow> proc" where
  "setup_main env = seq [
     call_eff env (Atexit Fn_teardown (atexit_ok env))
       (if atexit_ok env then Register_atexit else No_effect),
     (if \<not> atexit_ok env
      then seq [log_stderr env ''cannot register teardown procedure with atexit()'' [],
                exit (sigpoint env) EX_OSERR]
      else id),
     call_eff env (Signal_override SIGTERM ''perform shutdown'' Fn_shutdown
                     (signal_override_ok env))
       (if signal_override_ok env then Install_handler else No_effect),
     (if \<not> signal_override_ok env
      then seq [log_stderr env ''cannot override signal'' [], exit (sigpoint env) EX_OSERR]
      else id),
     call env (Setup Log True),
     call env (Setup Debug (debug_setup_ok env)),
     (if \<not> debug_setup_ok env
      then seq [log_stderr env ''debug log setup failed'' [], setup_error env None]
      else id),
     setup_options env,
     setup_modules env,
     call_eff env (Core_admin_register (dlog_intvl env) Fn_debug_log_flush (register_dlog env))
       (Store_tev DLOG_TIMEOUT_EV (register_dlog env)),
     (if register_dlog env = None
      then seq [log_stderr env ''Could not register timed event to flush debug log'' [],
                setup_error env (pid_filename env)]
      else id),
     call_eff env (Core_admin_register (klog_intvl env) Fn_klog_flush (register_klog env))
       (Store_tev KLOG_TIMEOUT_EV (register_klog env)),
     (if register_klog env = None
      then seq [call env (Log_error ''Could not register timed event to flush command log''),
                setup_error env (pid_filename env)]
      else id)]"

subsection \<open>\<^verbatim>\<open>main\<close>, lines 183 to 243\<close>

text \<open>
  Modelled from the spec: \<^verbatim>\<open>core_run\<close>, which is not among the sources. It is where the
  process serves: the call, then either a SIGTERM arrives while it runs, or it ends as the
  environment says: it returns, it goes on for ever, or it terminates the process with a
  status of its own (by \<^verbatim>\<open>exit\<close>, like every other end of this program).
\<close>

definition core_run :: "env \<Rightarrow> addr \<Rightarrow> addr \<Rightarrow> proc \<Rightarrow> proc" where
  "core_run env p flag = seq [
     call env (Core_run p flag),
     (\<lambda>s. if status s \<noteq> Running then s
          else if sigterm env (trace s) then deliver_sigterm s
          else case core_run_outcome env of
                 Returns \<Rightarrow> s
               | Serves \<Rightarrow> s\<lparr>status := Serving\<rparr>
               | Fails st \<Rightarrow> exit (sigpoint env) st s)]"

text \<open>
  The block of \<^verbatim>\<open>argc == 2\<close>, lines 198 to 220: \<^verbatim>\<open>strcmp\<close> against the four options
  in both spellings, then \<^verbatim>\<open>fopen\<close>.
\<close>

definition is_opt :: "string \<Rightarrow> string \<Rightarrow> string \<Rightarrow> bool" where
  "is_opt a short long = (a = short \<or> a = long)"

definition main_args :: "env \<Rightarrow> string list \<Rightarrow> proc \<Rightarrow> proc" where
  "main_args env argv = seq [
     (if is_opt (argv ! 1) ''-h'' ''--help''
      then seq [show_usage env, exit (sigpoint env) EX_OK] else id),
     (if is_opt (argv ! 1) ''-v'' ''--version''
      then seq [call env Show_version, exit (sigpoint env) EX_OK] else id),
     (if is_opt (argv ! 1) ''-c'' ''--config''
      then seq [call env Option_describe_all, exit (sigpoint env) EX_OK] else id),
     (if is_opt (argv ! 1) ''-s'' ''--stats''
      then seq [call env Metric_describe_all, exit (sigpoint env) EX_OK] else id),
     call env (Fopen (argv ! 1) ''r'' (fopen_ok env (argv ! 1))),
     (if \<not> fopen_ok env (argv ! 1)
      then seq [log_stderr env ''cannot open config: incorrect path or doesn't exist'' [],
                exit (sigpoint env) EX_DATAERR]
      else id)]"

text \<open>
  Lines 222 to 235. The local \<^verbatim>\<open>fp\<close> is not \<^verbatim>\<open>NULL\<close> exactly when line 215 ran and
  opened the file (the parameter \<open>fp\<close>); \<^verbatim>\<open>status\<close> is \<^verbatim>\<open>CC_OK\<close> unless line 229 ran
  and failed.
\<close>

definition main_load :: "env \<Rightarrow> string list \<Rightarrow> bool \<Rightarrow> proc \<Rightarrow> proc" where
  "main_load env argv fp = seq [
     call env (Option_load_default (load_default_ok env)),
     (if \<not> load_default_ok env
      then seq [log_stderr env ''failed to load default option values'' [],
                exit (sigpoint env) EX_CONFIG]
      else id),
     (if fp
      then seq [log_stderr env ''load config from %s'' [Arg_str (argv ! 1)],
                call env (Option_load_file (load_file_ok env)),
                call env Fclose]
      else id),
     (if fp \<and> \<not> load_file_ok env
      then seq [log_stderr env ''failed to load config'' [], exit (sigpoint env) EX_DATAERR]
      else id)]"

text \<open>\<^verbatim>\<open>argc\<close> is the length of \<^verbatim>\<open>argv\<close>.\<close>

definition main :: "env \<Rightarrow> string list \<Rightarrow> proc \<Rightarrow> proc" where
  "main env argv =
     (let argc = length argv;
          fp = (argc = 2 \<and> fopen_ok env (argv ! 1))
      in seq [
        (if argc > 2 then seq [show_usage env, exit (sigpoint env) EX_USAGE] else id),
        (if argc = 1
         then log_stderr env ''launching server with default values.'' [] else id),
        (if argc = 2 then main_args env argv else id),
        main_load env argv fp,
        setup_main env,
        call env Option_print_all,
        core_run env Addr_worker_processor Addr_worker_processor_running,
        exit (sigpoint env) EX_OK])"

text \<open>A run of the program from its initial globals.\<close>

definition run :: "env \<Rightarrow> string list \<Rightarrow> proc" where
  "run env argv = main env argv init"

section \<open>Vocabulary of the properties\<close>

subsection \<open>Projections of a trace\<close>

text \<open>
  What a trace says about one kind of call: the modules set up and torn down, the timed
  events registered (interval, callback, handle) and unregistered, the arguments of
  \<^verbatim>\<open>core_run\<close>, the statuses passed to \<^verbatim>\<open>exit\<close>, the pid files created and removed.
\<close>

fun setup_of :: "event \<Rightarrow> module list" where
  "setup_of (Setup m ok) = [m]"
| "setup_of _ = []"

fun teardown_of :: "event \<Rightarrow> module list" where
  "teardown_of (Teardown m) = [m]"
| "teardown_of _ = []"

fun register_of :: "event \<Rightarrow> (64 word \<times> fn \<times> tev) list" where
  "register_of (Core_admin_register i f t) = [(i, f, t)]"
| "register_of _ = []"

fun unregister_of :: "event \<Rightarrow> tev list" where
  "unregister_of (Core_admin_unregister t) = [t]"
| "unregister_of _ = []"

fun core_run_of :: "event \<Rightarrow> (addr \<times> addr) list" where
  "core_run_of (Core_run p f) = [(p, f)]"
| "core_run_of _ = []"

fun exit_of :: "event \<Rightarrow> int list" where
  "exit_of (Exit st) = [st]"
| "exit_of _ = []"

fun create_of :: "event \<Rightarrow> string list" where
  "create_of (Create_pidfile f) = [f]"
| "create_of _ = []"

fun remove_of :: "event \<Rightarrow> string list" where
  "remove_of (Remove_pidfile f) = [f]"
| "remove_of _ = []"

text \<open>
  A call that reports a failure the code treats as fatal, with the exit status of the
  failure's class: the operating system (\<^verbatim>\<open>atexit\<close>, \<^verbatim>\<open>signal_override\<close>), the
  configuration (\<^verbatim>\<open>debug_setup\<close>, \<^verbatim>\<open>core_admin_register\<close>, the default options), the
  data (the configuration file: \<^verbatim>\<open>fopen\<close>, \<^verbatim>\<open>option_load_file\<close>).
\<close>

fun failure_of :: "event \<Rightarrow> int list" where
  "failure_of (Atexit f ok) = (if ok then [] else [EX_OSERR])"
| "failure_of (Signal_override n d f ok) = (if ok then [] else [EX_OSERR])"
| "failure_of (Setup m ok) = (if ok then [] else [EX_CONFIG])"
| "failure_of (Core_admin_register i f t) = (if t = None then [EX_CONFIG] else [])"
| "failure_of (Option_load_default ok) = (if ok then [] else [EX_CONFIG])"
| "failure_of (Option_load_file ok) = (if ok then [] else [EX_DATAERR])"
| "failure_of (Fopen p m ok) = (if ok then [] else [EX_DATAERR])"
| "failure_of _ = []"

definition setups :: "event list \<Rightarrow> module list" where
  "setups tr = concat (map setup_of tr)"

definition teardowns :: "event list \<Rightarrow> module list" where
  "teardowns tr = concat (map teardown_of tr)"

definition registrations :: "event list \<Rightarrow> (64 word \<times> fn \<times> tev) list" where
  "registrations tr = concat (map register_of tr)"

definition unregistrations :: "event list \<Rightarrow> tev list" where
  "unregistrations tr = concat (map unregister_of tr)"

definition core_runs :: "event list \<Rightarrow> (addr \<times> addr) list" where
  "core_runs tr = concat (map core_run_of tr)"

definition exits :: "event list \<Rightarrow> int list" where
  "exits tr = concat (map exit_of tr)"

definition creates :: "event list \<Rightarrow> string list" where
  "creates tr = concat (map create_of tr)"

definition removes :: "event list \<Rightarrow> string list" where
  "removes tr = concat (map remove_of tr)"

definition failures :: "event list \<Rightarrow> int list" where
  "failures tr = concat (map failure_of tr)"

text \<open>The modules whose setup function reported a failure.\<close>

fun setup_failure_of :: "event \<Rightarrow> module list" where
  "setup_failure_of (Setup m ok) = (if ok then [] else [m])"
| "setup_failure_of _ = []"

definition setup_failures :: "event list \<Rightarrow> module list" where
  "setup_failures tr = concat (map setup_failure_of tr)"

subsection \<open>The events of the handler and of \<^verbatim>\<open>exit\<close>\<close>

definition shutdown_log :: "int \<Rightarrow> event" where
  "shutdown_log signo = Log_stderr ''_shutdown received signal %d'' [Arg_int signo]"

definition flag_store :: event where
  "flag_store = Atomic_store_n Addr_worker_processor_running False ATOMIC_RELEASE"

text \<open>The order in which \<^verbatim>\<open>teardown\<close> releases the modules, read off the function.\<close>

definition teardown_order :: "module list" where
  "teardown_order = teardowns (trace (teardown id init))"

definition handler_events :: "int \<Rightarrow> tev list \<Rightarrow> event list" where
  "handler_events signo ts =
     [shutdown_log signo, flag_store, Core_destroy,
      Core_admin_unregister (ts ! DLOG_TIMEOUT_EV),
      Core_admin_unregister (ts ! KLOG_TIMEOUT_EV)]"

definition exit_events :: "int \<Rightarrow> bool \<Rightarrow> event list" where
  "exit_events st registered =
     Exit st # (if registered then map Teardown teardown_order else [])"

text \<open>The handler ran in a run; a run was cut short by a SIGTERM.\<close>

definition handler_ran :: "proc \<Rightarrow> bool" where
  "handler_ran r \<longleftrightarrow> shutdown_log SIGTERM \<in> set (trace r)"

definition interrupted :: "proc \<Rightarrow> bool" where
  "interrupted r \<longleftrightarrow> handler_ran r \<or> status r = Killed SIGTERM"

text \<open>The two registrations of lines 160 to 170, each with the interval read for it.\<close>

definition expected_regs :: "env \<Rightarrow> (64 word \<times> fn \<times> tev) list" where
  "expected_regs env = [(dlog_intvl env, Fn_debug_log_flush, register_dlog env),
                        (klog_intvl env, Fn_klog_flush, register_klog env)]"

definition pid_list :: "env \<Rightarrow> string list" where
  "pid_list env = (case pid_filename env of None \<Rightarrow> [] | Some f \<Rightarrow> [f])"

subsection \<open>An abstraction of the running process\<close>

text \<open>
  While the main flow of control runs, the trace holds no event of the handler or of
  \<^verbatim>\<open>exit\<close>, and the flag is still set.
\<close>

fun main_event :: "event \<Rightarrow> bool" where
  "main_event (Exit st) = False"
| "main_event (Teardown m) = False"
| "main_event (Core_admin_unregister t) = False"
| "main_event (Atomic_store_n a v m) = False"
| "main_event Core_destroy = False"
| "main_event (Log_stderr fmt args) = (fmt \<noteq> ''_shutdown received signal %d'')"
| "main_event _ = True"

definition clean :: "proc \<Rightarrow> bool" where
  "clean s \<longleftrightarrow>
     status s = Running \<and> running (worker_processor s) \<and> list_all main_event (trace s)"

record astate =
  a_setups :: "module list"
  a_regs :: "(64 word \<times> fn \<times> tev) list"
  a_cores :: "(addr \<times> addr) list"
  a_fails :: "int list"
  a_sfails :: "module list"
  a_creates :: "string list"
  a_removes :: "string list"
  a_last :: "event option"
  a_atexit :: bool
  a_handler :: bool
  a_tev :: "tev list"

text \<open>
  The last call, when it is one of the two whose place in the trace matters below.
\<close>

fun notable :: "event \<Rightarrow> event option" where
  "notable (Core_run p f) = Some (Core_run p f)"
| "notable (Remove_pidfile f) = Some (Remove_pidfile f)"
| "notable _ = None"

definition last_event :: "event list \<Rightarrow> event option" where
  "last_event tr = (if tr = [] then None else notable (last tr))"

definition abstract :: "proc \<Rightarrow> astate" where
  "abstract s = \<lparr> a_setups = setups (trace s), a_regs = registrations (trace s),
      a_cores = core_runs (trace s), a_fails = failures (trace s),
      a_sfails = setup_failures (trace s),
      a_creates = creates (trace s), a_removes = removes (trace s),
      a_last = last_event (trace s),
      a_atexit = atexit_teardown s, a_handler = sigterm_shutdown s,
      a_tev = slimcache_tev s \<rparr>"

fun effect_tev :: "effect \<Rightarrow> tev list \<Rightarrow> tev list" where
  "effect_tev (Store_tev i t) ts = ts[i := t]"
| "effect_tev _ ts = ts"

definition anext :: "event \<Rightarrow> effect \<Rightarrow> astate \<Rightarrow> astate" where
  "anext e eff a = \<lparr> a_setups = a_setups a @ setup_of e, a_regs = a_regs a @ register_of e,
      a_cores = a_cores a @ core_run_of e, a_fails = a_fails a @ failure_of e,
      a_sfails = a_sfails a @ setup_failure_of e,
      a_creates = a_creates a @ create_of e, a_removes = a_removes a @ remove_of e,
      a_last = notable e,
      a_atexit = (a_atexit a \<or> eff = Register_atexit),
      a_handler = (a_handler a \<or> eff = Install_handler),
      a_tev = effect_tev eff (a_tev a) \<rparr>"

definition acreate :: "env \<Rightarrow> astate \<Rightarrow> astate" where
  "acreate env a = a\<lparr>a_creates := a_creates a @ pid_list env, a_last := None\<rparr>"

definition aremove :: "string option \<Rightarrow> astate \<Rightarrow> astate" where
  "aremove fname a =
     (case fname of None \<Rightarrow> a
      | Some f \<Rightarrow> a\<lparr>a_removes := a_removes a @ [f], a_last := Some (Remove_pidfile f)\<rparr>)"

definition a0 :: astate where
  "a0 = \<lparr> a_setups = [], a_regs = [], a_cores = [], a_fails = [], a_sfails = [],
           a_creates = [], a_removes = [], a_last = None, a_atexit = False, a_handler = False,
           a_tev = [None, None] \<rparr>"

text \<open>The abstraction once \<^verbatim>\<open>setup\<close> has returned.\<close>

definition a_ready :: "env \<Rightarrow> astate" where
  "a_ready env = \<lparr> a_setups = rev teardown_order, a_regs = expected_regs env, a_cores = [],
     a_fails = [], a_sfails = [], a_creates = pid_list env, a_removes = [], a_last = None,
     a_atexit = True, a_handler = True, a_tev = [register_dlog env, register_klog env] \<rparr>"

definition Pa :: "astate \<Rightarrow> proc \<Rightarrow> bool" where
  "Pa a s \<longleftrightarrow> clean s \<and> abstract s = a"

text \<open>What holds of the abstraction wherever the main flow of control stands.\<close>

definition Inv :: "env \<Rightarrow> astate \<Rightarrow> bool" where
  "Inv env a \<longleftrightarrow>
     prefix (a_setups a) (rev teardown_order) \<and>
     (a_setups a \<noteq> [] \<longrightarrow> a_atexit a \<and> a_handler a) \<and>
     (a_handler a \<longrightarrow> a_atexit a) \<and>
     prefix (a_regs a) (expected_regs env) \<and>
     a_tev a = map (\<lambda>(i, f, t). t) (a_regs a) @ replicate (2 - length (a_regs a)) None \<and>
     (a_cores a = [] \<or>
      a_cores a = [(Addr_worker_processor, Addr_worker_processor_running)] \<and>
      a_last a = Some (Core_run Addr_worker_processor Addr_worker_processor_running) \<and>
      a_regs a = expected_regs env \<and> a_handler a \<and> a_setups a = rev teardown_order \<and>
      a_fails a = []) \<and>
     (a_fails a = [] \<or> a_fails a = [EX_OSERR] \<or> a_fails a = [EX_CONFIG] \<or>
      a_fails a = [EX_DATAERR]) \<and>
     (a_creates a = [] \<or>
      a_creates a = pid_list env \<and> a_sfails a = [] \<and> a_handler a \<and>
      (a_fails a = [] \<or> a_fails a = [EX_CONFIG])) \<and>
     (a_removes a = [] \<or>
      a_removes a = a_creates a \<and> a_last a = Some (Remove_pidfile (last (a_removes a))) \<and>
      a_fails a = [EX_CONFIG])"

text \<open>
  The statuses \<^verbatim>\<open>exit\<close> is called with from the main flow of control, by what the trace
  holds at the call.
\<close>

definition exit_ok :: "env \<Rightarrow> astate \<Rightarrow> int \<Rightarrow> bool" where
  "exit_ok env a st \<longleftrightarrow>
     (if a_fails a = []
      then st = EX_OK \<and> (a_cores a = [] \<or> core_run_outcome env = Returns) \<or>
           st = EX_USAGE \<and> a_cores a = [] \<or>
           a_cores a \<noteq> [] \<and> core_run_outcome env = Fails st
      else a_fails a = [st] \<and> a_cores a = []) \<and>
     (st = EX_CONFIG \<and> a_cores a = [] \<longrightarrow> a_removes a = a_creates a)"

text \<open>
  How a run ends: a SIGTERM is delivered, \<^verbatim>\<open>exit\<close> is called, or \<^verbatim>\<open>core_run\<close> never
  returns; each from a state of the main flow of control.
\<close>

definition final :: "env \<Rightarrow> (astate \<Rightarrow> bool) \<Rightarrow> proc \<Rightarrow> bool" where
  "final env I r \<longleftrightarrow> (\<exists>s. clean s \<and> I (abstract s) \<and>
     (r = deliver_sigterm s \<or>
      (\<exists>st. r = exit (sigpoint env) st s \<and> exit_ok env (abstract s) st) \<or>
      (r = s\<lparr>status := Serving\<rparr> \<and> a_cores (abstract s) \<noteq> [])))"

text \<open>
  A statement takes a running state that satisfies \<open>P\<close> to a running state that
  satisfies \<open>Q\<close> or to an ended one that satisfies \<open>R\<close>, and leaves an ended one as it is.
\<close>

definition hoare ::
  "(proc \<Rightarrow> bool) \<Rightarrow> (proc \<Rightarrow> proc) \<Rightarrow> (proc \<Rightarrow> bool) \<Rightarrow> (proc \<Rightarrow> bool) \<Rightarrow> bool" where
  "hoare P f Q R \<longleftrightarrow>
     (\<forall>s. (if status s = Running then P s else R s) \<longrightarrow>
          (if status (f s) = Running then Q (f s) else R (f s)))"

section \<open>Sample environments\<close>

text \<open>
  Every call succeeds, no signal arrives and \<^verbatim>\<open>core_run\<close> returns; then variations of it:
  a SIGTERM while \<^verbatim>\<open>core_run\<close> serves, a SIGTERM at once, single failures, a SIGTERM
  that follows a failure, a SIGTERM that arrives when \<^verbatim>\<open>teardown\<close> has made five of its
  calls, and a \<^verbatim>\<open>core_run\<close> that terminates the process.
\<close>

definition env_ok :: env where
  "env_ok = \<lparr> fopen_ok = (\<lambda>_. True), load_default_ok = True, load_file_ok = True,
     atexit_ok = True, signal_override_ok = True, debug_setup_ok = True,
     daemonize_opt = False, pid_filename = Some ''slimcache.pid'',
     dlog_intvl = 500, klog_intvl = 100, register_dlog = Some 1, register_klog = Some 2,
     core_run_outcome = Returns, sigterm = (\<lambda>_. False) \<rparr>"

definition env_sigterm :: env where
  "env_sigterm = env_ok\<lparr>core_run_outcome := Serves, sigterm := (\<lambda>tr. core_runs tr \<noteq> [])\<rparr>"

definition env_kill :: env where
  "env_kill = env_ok\<lparr>sigterm := (\<lambda>tr. True)\<rparr>"

definition env_klog_fail :: env where
  "env_klog_fail = env_ok\<lparr>register_klog := None\<rparr>"

definition env_debug_fail :: env where
  "env_debug_fail = env_ok\<lparr>debug_setup_ok := False\<rparr>"

definition env_no_file :: env where
  "env_no_file = env_ok\<lparr>fopen_ok := (\<lambda>_. False)\<rparr>"

definition env_bad_file :: env where
  "env_bad_file = env_ok\<lparr>load_file_ok := False\<rparr>"

definition env_no_default :: env where
  "env_no_default = env_ok\<lparr>load_default_ok := False\<rparr>"

definition env_debug_fail_sigterm :: env where
  "env_debug_fail_sigterm = env_debug_fail\<lparr>sigterm := (\<lambda>tr. failures tr \<noteq> [])\<rparr>"

definition env_klog_fail_sigterm :: env where
  "env_klog_fail_sigterm = env_klog_fail\<lparr>sigterm := (\<lambda>tr. failures tr \<noteq> [])\<rparr>"

definition env_teardown_sigterm :: env where
  "env_teardown_sigterm = env_ok\<lparr>sigterm := (\<lambda>tr. length (teardowns tr) = 5)\<rparr>"

definition env_core_fails :: env where
  "env_core_fails = env_ok\<lparr>core_run_outcome := Fails EX_OSERR\<rparr>"

definition argv0 :: "string list" where
  "argv0 = [''pelikan_slimcache'']"

definition argv_conf :: "string list" where
  "argv_conf = [''pelikan_slimcache'', ''slimcache.conf'']"

definition argv_many :: "string list" where
  "argv_many = [''pelikan_slimcache'', ''slimcache.conf'', ''extra'']"

text \<open>The calls of lines 137 to 157, in their order.\<close>

definition setup_calls :: "event list" where
  "setup_calls =
     [Setup Buf True, Setup Dbuf True, Setup Event True, Setup Sockio True,
      Setup Tcp True, Setup Timing_wheel True, Setup Time True,
      Setup Procinfo True, Setup Request True, Setup Response True,
      Setup Parse True, Setup Compose True, Setup Klog True,
      Setup Cuckoo True, Setup Process True, Setup Admin_process True,
      Setup Core_admin True, Setup Core_server True, Setup Core_worker True]"


section \<open>Two properties of statements\<close>

text \<open>
  A statement is strict when it leaves a process that is over as it is, and extending
  when it only adds calls at the end of the trace.
\<close>

definition strict :: "(proc \<Rightarrow> proc) \<Rightarrow> bool" where
  "strict f \<longleftrightarrow> (\<forall>s. status s \<noteq> Running \<longrightarrow> f s = s)"

definition extending :: "(proc \<Rightarrow> proc) \<Rightarrow> bool" where
  "extending f \<longleftrightarrow> (\<forall>s. prefix (trace s) (trace (f s)))"



section \<open>The store behind the commands\<close>

text \<open>
  \<^verbatim>\<open>main.c\<close> only sets the store up (\<^verbatim>\<open>cuckoo_setup\<close>, line 152) and tears it down; the
  store itself is not among the sources. What follows models it from section 4.1 of the
  specification and its data model. The CAS token of an item, the other commands built on
  get and set, and the expiration wheel are left out.
\<close>

text \<open>Modelled from the spec: a byte string, the type of keys and values.\<close>

type_synonym bytes = "8 word list"

text \<open>
  Modelled from the spec: the Item of the data model, with its key, value, flags and
  absolute expire time; \<open>None\<close> is an item that does not expire.
\<close>

record item =
  key :: bytes
  val :: bytes
  flags :: "32 word"
  expire :: "nat option"

text \<open>Modelled from the spec: a Slot holds at most one Item or is empty.\<close>

type_synonym slot = "item option"

text \<open>Modelled from the spec: the Table, an array of Slots.\<close>

type_synonym table = "slot list"

text \<open>
  Modelled from the spec: what is configured at startup, that is the capacity of the
  table, the k hash functions over the key bytes, the maxima of key and value length, and
  the maximum number of displacement steps.
\<close>

record config =
  capacity :: nat
  hashes :: "(bytes \<Rightarrow> nat) list"
  max_key_len :: nat
  max_val_len :: nat
  max_displace :: nat

text \<open>
  Modelled from the spec: the state of the CuckooStore, its table and the clock that
  expire times are compared with.
\<close>

record store =
  slots :: table
  now :: nat

text \<open>Modelled from the spec: the results \<open>get(key) \<rightarrow> Item | NotFound\<close>.\<close>

datatype get_result = Item item | NotFound

text \<open>
  Modelled from the spec: the results \<open>set(key, value, flags, ttl) \<rightarrow> Stored | TooLarge | Full\<close>.
\<close>

datatype set_result = Stored | TooLarge | Full

text \<open>Modelled from the spec: the results of delete, \<open>DELETED\<close> and \<open>NOT_FOUND\<close>.\<close>

datatype delete_result = Deleted | Delete_NotFound

text \<open>
  Modelled from the spec: the table of the capacity fixed at startup, every slot empty.
\<close>

definition store_create :: "config \<Rightarrow> store" where
  "store_create cfg = \<lparr>slots = replicate (capacity cfg) None, now = 0\<rparr>"

text \<open>
  Modelled from the spec: the candidate slots of a key, one for each hash function, in the
  order of the hash functions.
\<close>

definition candidates :: "config \<Rightarrow> bytes \<Rightarrow> nat list" where
  "candidates cfg k = map (\<lambda>h. h k mod capacity cfg) (hashes cfg)"

text \<open>
  Modelled from the spec: the content of a slot of the table; an index outside the table
  finds no item.
\<close>

definition slot_at :: "table \<Rightarrow> nat \<Rightarrow> slot" where
  "slot_at tbl i = (if i < length tbl then tbl ! i else None)"

text \<open>
  Modelled from the spec: an item is retrievable before its absolute expire time and absent
  at and after it; an item that does not expire is always retrievable.
\<close>

definition live :: "nat \<Rightarrow> item \<Rightarrow> bool" where
  "live t it = (case expire it of None \<Rightarrow> True | Some e \<Rightarrow> t < e)"

text \<open>
  Modelled from the spec: lazy expiration, a slot whose item is past its expire time is
  treated as empty.
\<close>

definition vacant :: "nat \<Rightarrow> slot \<Rightarrow> bool" where
  "vacant t sl = (case sl of None \<Rightarrow> True | Some it \<Rightarrow> \<not> live t it)"

text \<open>Modelled from the spec: a slot that holds a live item of the key.\<close>

definition holds_key :: "nat \<Rightarrow> bytes \<Rightarrow> slot \<Rightarrow> bool" where
  "holds_key t k sl = (case sl of None \<Rightarrow> False | Some it \<Rightarrow> key it = k \<and> live t it)"

text \<open>
  Modelled from the spec: the probe of all candidate slots of a key for its live item, the
  first candidate first.
\<close>

definition probe :: "config \<Rightarrow> store \<Rightarrow> bytes \<Rightarrow> nat option" where
  "probe cfg st k = find (\<lambda>i. holds_key (now st) k (slot_at (slots st) i)) (candidates cfg k)"

text \<open>Modelled from the spec: \<open>get\<close>, which never returns an expired item.\<close>

definition store_get :: "config \<Rightarrow> store \<Rightarrow> bytes \<Rightarrow> get_result" where
  "store_get cfg st k =
     (case probe cfg st k of
        None \<Rightarrow> NotFound
      | Some i \<Rightarrow> (case slot_at (slots st) i of None \<Rightarrow> NotFound | Some it \<Rightarrow> Item it))"

text \<open>
  Modelled from the spec: bounded displacement. The item takes slot \<open>i\<close>; a live occupant is
  evicted into the first of its own candidate slots other than \<open>i\<close>, and so on, for at most
  \<open>n\<close> evictions. The result is the new table, or \<open>None\<close> when the bound is exhausted or
  an occupant has no alternate slot. The specification leaves the choice of the evicted
  occupant and of its alternate slot open; the first one is taken here.
\<close>

fun displace :: "config \<Rightarrow> nat \<Rightarrow> nat \<Rightarrow> table \<Rightarrow> item \<Rightarrow> nat \<Rightarrow> table option" where
  "displace cfg t n tbl it i =
     (if vacant t (slot_at tbl i) then Some (tbl[i := Some it])
      else case n of
        0 \<Rightarrow> None
      | Suc m \<Rightarrow>
          (case slot_at tbl i of
             None \<Rightarrow> None
           | Some occ \<Rightarrow>
               (case find (\<lambda>j. j \<noteq> i) (candidates cfg (key occ)) of
                  None \<Rightarrow> None
                | Some j \<Rightarrow> displace cfg t m (tbl[i := Some it]) occ j)))"

text \<open>
  Modelled from the spec: the item a set creates; its expire time is absolute, the clock
  at the set plus the time to live. A time to live of 0 makes an item that does not
  expire: the example of section 8 stores \<^verbatim>\<open>foo\<close> with the expiry 0 and reads it back.
\<close>

definition new_item :: "nat \<Rightarrow> bytes \<Rightarrow> bytes \<Rightarrow> 32 word \<Rightarrow> nat \<Rightarrow> item" where
  "new_item t k v f ttl =
     \<lparr>key = k, val = v, flags = f, expire = (if ttl = 0 then None else Some (t + ttl))\<rparr>"

text \<open>
  Modelled from the spec: \<open>set\<close>. The size limits are checked before the table is touched.
  An item of the key that is live is updated in place. Otherwise the item goes to the
  first candidate slot that is empty or holds an expired item, and when every candidate
  holds a live item, to the first candidate by bounded displacement. Of the two policies
  the specification allows when the bound is exhausted, this is the rejection: the result
  is \<open>Full\<close> and the table is left as it was.
\<close>

definition store_set ::
  "config \<Rightarrow> store \<Rightarrow> bytes \<Rightarrow> bytes \<Rightarrow> 32 word \<Rightarrow> nat \<Rightarrow> set_result \<times> store" where
  "store_set cfg st k v f ttl =
     (if max_key_len cfg < length k \<or> max_val_len cfg < length v then (TooLarge, st)
      else
        let it = new_item (now st) k v f ttl; tbl = slots st in
        case probe cfg st k of
          Some i \<Rightarrow> (Stored, st\<lparr>slots := tbl[i := Some it]\<rparr>)
        | None \<Rightarrow>
            (case find (\<lambda>i. vacant (now st) (slot_at tbl i)) (candidates cfg k) of
               Some i \<Rightarrow> (Stored, st\<lparr>slots := tbl[i := Some it]\<rparr>)
             | None \<Rightarrow>
                 (case candidates cfg k of
                    [] \<Rightarrow> (Full, st)
                  | i # _ \<Rightarrow>
                      (case displace cfg (now st) (max_displace cfg) tbl it i of
                         None \<Rightarrow> (Full, st)
                       | Some tbl' \<Rightarrow> (Stored, st\<lparr>slots := tbl'\<rparr>)))))"

text \<open>Modelled from the spec: \<open>delete\<close>, which empties the slot of the key's live item.\<close>

definition store_delete :: "config \<Rightarrow> store \<Rightarrow> bytes \<Rightarrow> delete_result \<times> store" where
  "store_delete cfg st k =
     (case probe cfg st k of
        None \<Rightarrow> (Delete_NotFound, st)
      | Some i \<Rightarrow> (Deleted, st\<lparr>slots := (slots st)[i := None]\<rparr>))"

text \<open>
  Modelled from the spec: what happens to a store, one operation after the other: a set, a
  get, a delete, or the clock advancing by some seconds.
\<close>

datatype op = Op_set bytes bytes "32 word" nat | Op_get bytes | Op_delete bytes | Op_tick nat

text \<open>
  Modelled from the spec: the key an operation overwrites or deletes; a get and the clock
  write none.
\<close>

fun written_key :: "op \<Rightarrow> bytes option" where
  "written_key (Op_set k v f ttl) = Some k"
| "written_key (Op_get k) = None"
| "written_key (Op_delete k) = Some k"
| "written_key (Op_tick n) = None"

text \<open>Modelled from the spec: the store after one operation.\<close>

fun apply_op :: "config \<Rightarrow> store \<Rightarrow> op \<Rightarrow> store" where
  "apply_op cfg st (Op_set k v f ttl) = snd (store_set cfg st k v f ttl)"
| "apply_op cfg st (Op_get k) = st"
| "apply_op cfg st (Op_delete k) = snd (store_delete cfg st k)"
| "apply_op cfg st (Op_tick n) = st\<lparr>now := now st + n\<rparr>"

text \<open>Modelled from the spec: the store after a sequence of operations.\<close>

definition exec :: "config \<Rightarrow> op list \<Rightarrow> store \<Rightarrow> store" where
  "exec cfg ops st = foldl (apply_op cfg) st ops"

text \<open>
  The invariants of the data model: every item lies in one of the candidate slots of its
  key, and a live key occupies exactly one slot.
\<close>

definition placed :: "config \<Rightarrow> table \<Rightarrow> bool" where
  "placed cfg tbl \<longleftrightarrow>
     (\<forall>i<length tbl. \<forall>it. tbl ! i = Some it \<longrightarrow> i \<in> set (candidates cfg (key it)))"

definition live_at :: "nat \<Rightarrow> table \<Rightarrow> nat \<Rightarrow> item \<Rightarrow> bool" where
  "live_at t tbl i it \<longleftrightarrow> i < length tbl \<and> tbl ! i = Some it \<and> live t it"

definition unique :: "nat \<Rightarrow> table \<Rightarrow> bool" where
  "unique t tbl \<longleftrightarrow>
     (\<forall>i j a b. live_at t tbl i a \<and> live_at t tbl j b \<and> key a = key b \<longrightarrow> i = j)"

definition holds :: "nat \<Rightarrow> table \<Rightarrow> item \<Rightarrow> bool" where
  "holds t tbl it \<longleftrightarrow> (\<exists>i. live_at t tbl i it)"

definition store_wf :: "config \<Rightarrow> store \<Rightarrow> bool" where
  "store_wf cfg st \<longleftrightarrow> length (slots st) = capacity cfg \<and> placed cfg (slots st) \<and>
     unique (now st) (slots st)"

text \<open>
  A sample store: four slots, two hash functions of the first byte of the key, at most
  four displacement steps. In the history the keys 4 and 9 take the slots 0 and 1, the two
  candidate slots of the key 20; later the key 9 is deleted, the key 4 expires, and a set
  of the key 16 displaces the key 20 from slot 0 to slot 1. Then the key and the value
  of the specification's example, \<^verbatim>\<open>foo\<close> and \<^verbatim>\<open>bar\<close>.
\<close>

definition hash_low :: "bytes \<Rightarrow> nat" where
  "hash_low k = (case k of [] \<Rightarrow> 0 | b # _ \<Rightarrow> unat b)"

definition hash_high :: "bytes \<Rightarrow> nat" where
  "hash_high k = (case k of [] \<Rightarrow> 0 | b # _ \<Rightarrow> unat b div 4)"

definition cfg_example :: config where
  "cfg_example = \<lparr>capacity = 4, hashes = [hash_low, hash_high], max_key_len = 8,
     max_val_len = 8, max_displace = 4\<rparr>"

definition history_example :: "op list" where
  "history_example = [Op_set [4] [1] 0 10, Op_set [9] [2] 0 10, Op_tick 1]"

definition later_example :: "op list" where
  "later_example =
     [Op_set [5] [9] 1 3, Op_delete [9], Op_tick 9, Op_set [16] [8] 2 5, Op_get [20]]"

definition key_foo :: bytes where
  "key_foo = [102, 111, 111]"

definition val_bar :: bytes where
  "val_bar = [98, 97, 114]"
section \<open>Proofs\<close>

lemmas sysexits_defs = EX_OK_def EX_USAGE_def EX_DATAERR_def EX_OSERR_def EX_CONFIG_def

lemmas timeout_ev_defs = DLOG_TIMEOUT_EV_def KLOG_TIMEOUT_EV_def MAX_TIMEOUT_EV_def

lemmas proj_defs = setups_def teardowns_def registrations_def unregistrations_def
  core_runs_def exits_def creates_def removes_def failures_def setup_failures_def

declare unregister_from.simps [simp del]

subsection \<open>The handler and \<^verbatim>\<open>exit\<close> in closed form\<close>

lemma teardown_order_eq:
  "teardown_order = [Core_worker, Core_server, Core_admin, Admin_process, Process, Cuckoo,
     Klog, Compose, Parse, Response, Request, Procinfo, Time, Timing_wheel, Tcp, Sockio,
     Event, Dbuf, Buf, Debug, Log]"
  by (simp add: teardown_order_def teardown_def made_def emit_def init_def teardowns_def)

lemma teardown_id:
  "status s = Running \<Longrightarrow>
   teardown id s = s\<lparr>trace := trace s @ map Teardown teardown_order\<rparr>"
  by (simp add: teardown_order_eq teardown_def made_def emit_def)

lemma exit_id:
  "status s = Running \<Longrightarrow>
   exit id st s =
   s\<lparr>trace := trace s @ exit_events st (atexit_teardown s), atexit_teardown := False,
     status := Exited st\<rparr>"
  by (cases s) (simp add: exit_def run_atexit_def ended_def exit_events_def teardown_id
      made_def emit_def)

lemma unregister_eq:
  "unregister_from DLOG_TIMEOUT_EV s =
   s\<lparr>trace := trace s @ [Core_admin_unregister (slimcache_tev s ! DLOG_TIMEOUT_EV),
                          Core_admin_unregister (slimcache_tev s ! KLOG_TIMEOUT_EV)]\<rparr>"
  by (simp add: unregister_from.simps [of 0] unregister_from.simps [of "Suc 0"]
      unregister_from.simps [of "Suc (Suc 0)"] timeout_ev_defs emit_def)

lemma shutdown_eq:
  "status s = Running \<Longrightarrow>
   shutdown signo s =
   s\<lparr>worker_processor := (worker_processor s)\<lparr>running := False\<rparr>,
     trace := trace s @ handler_events signo (slimcache_tev s) @
              exit_events EX_OK (atexit_teardown s),
     atexit_teardown := False,
     status := Exited EX_OK\<rparr>"
  by (simp add: shutdown_def unregister_eq exit_id emit_def handler_events_def
      shutdown_log_def flag_store_def)

lemma deliver_eq:
  "status s = Running \<Longrightarrow>
   deliver_sigterm s =
   (if sigterm_shutdown s
    then s\<lparr>worker_processor := (worker_processor s)\<lparr>running := False\<rparr>,
           trace := trace s @ handler_events SIGTERM (slimcache_tev s) @
                    exit_events EX_OK (atexit_teardown s),
           atexit_teardown := False,
           status := Exited EX_OK\<rparr>
    else s\<lparr>status := Killed SIGTERM\<rparr>)"
  by (simp add: deliver_sigterm_def shutdown_eq)

lemma status_deliver: "status s = Running \<Longrightarrow> status (deliver_sigterm s) \<noteq> Running"
  by (simp add: deliver_eq)

lemma status_exit: "status (exit p st s) \<noteq> Running"
  by (simp add: exit_def ended_def)

lemma made_call: "made (sigpoint env) e = call env e"
proof
  fix s
  show "made (sigpoint env) e s = call env e s"
    using status_deliver [of s]
    by (simp add: made_def sigpoint_def call_def call_eff_def)
qed

lemma teardown_call:
  "teardown (sigpoint env) = seq (map (call env) (map Teardown teardown_order))"
  by (simp add: teardown_order_eq teardown_def made_call)

lemma calls_ended: "status s \<noteq> Running \<Longrightarrow> seq (map (call env) es) s = s"
  by (induction es) (simp_all add: call_def call_eff_def)

text \<open>
  A sequence of calls of the main flow of control: all are made, or a SIGTERM is delivered
  before one of them.
\<close>

lemma calls_run:
  assumes "status s = Running"
  shows "seq (map (call env) es) s = s\<lparr>trace := trace s @ es\<rparr> \<or>
         (\<exists>n<length es. sigterm env (trace s @ take n es) \<and>
            seq (map (call env) es) s = deliver_sigterm (s\<lparr>trace := trace s @ take n es\<rparr>))"
  using assms
proof (induction es arbitrary: s)
  case Nil
  then show ?case by simp
next
  case (Cons e es)
  show ?case
  proof (cases "sigterm env (trace s)")
    case True
    with Cons.prems have "call env e s = deliver_sigterm s"
      by (simp add: call_def call_eff_def)
    with status_deliver [OF Cons.prems]
    have "seq (map (call env) (e # es)) s = deliver_sigterm (s\<lparr>trace := trace s @ take 0 (e # es)\<rparr>)"
      by (simp add: calls_ended)
    with True show ?thesis by (intro disjI2 exI [of _ 0]) simp
  next
    case False
    let ?s1 = "s\<lparr>trace := trace s @ [e]\<rparr>"
    from False Cons.prems have c: "call env e s = ?s1"
      by (simp add: call_def call_eff_def emit_def)
    from Cons.prems have "status ?s1 = Running" by simp
    from Cons.IH [OF this] show ?thesis
    proof
      assume "seq (map (call env) es) ?s1 = ?s1\<lparr>trace := trace ?s1 @ es\<rparr>"
      with c show ?thesis by simp
    next
      assume "\<exists>n<length es. sigterm env (trace ?s1 @ take n es) \<and>
        seq (map (call env) es) ?s1 = deliver_sigterm (?s1\<lparr>trace := trace ?s1 @ take n es\<rparr>)"
      then obtain n where "n < length es" "sigterm env (trace ?s1 @ take n es)"
        "seq (map (call env) es) ?s1 = deliver_sigterm (?s1\<lparr>trace := trace ?s1 @ take n es\<rparr>)"
        by blast
      with c show ?thesis by (intro disjI2 exI [of _ "Suc n"]) simp
    qed
  qed
qed

text \<open>
  \<^verbatim>\<open>exit\<close> called from the main flow of control: the signal arrives before the call; or
  the call is made and \<^verbatim>\<open>teardown\<close>, if registered, runs to its end; or the signal arrives
  after the call, when \<^verbatim>\<open>teardown\<close> has made \<open>n\<close> of its calls.
\<close>

lemma exit_cases [consumes 1, case_names signal whole cut]:
  assumes "status s = Running"
  obtains
    (signal) "sigterm env (trace s)" "exit (sigpoint env) st s = deliver_sigterm s"
  | (whole) "exit (sigpoint env) st s =
       s\<lparr>trace := trace s @ exit_events st (atexit_teardown s), atexit_teardown := False,
         status := Exited st\<rparr>"
  | (cut) n where "atexit_teardown s \<or> n = 0" and "n \<le> length teardown_order"
      and "exit (sigpoint env) st s =
       deliver_sigterm (s\<lparr>trace := trace s @ Exit st # map Teardown (take n teardown_order),
                          atexit_teardown := False\<rparr>)"
proof (cases "sigterm env (trace s)")
  case True
  with assms have "call env (Exit st) s = deliver_sigterm s"
    by (simp add: call_def call_eff_def)
  with assms status_deliver [OF assms] have "exit (sigpoint env) st s = deliver_sigterm s"
    by (simp add: exit_def run_atexit_def ended_def made_call sigpoint_def)
  with True show thesis by (rule signal)
next
  case False
  let ?s1 = "s\<lparr>trace := trace s @ [Exit st]\<rparr>"
  let ?tds = "map Teardown teardown_order"
  from False assms have c: "call env (Exit st) s = ?s1"
    by (simp add: call_def call_eff_def emit_def)
  text \<open>The last point, when every call of \<open>exit\<close> has been made.\<close>
  have last: thesis
    if e: "exit (sigpoint env) st s = ended st (sigpoint env s3)"
      and s3: "s3 = s\<lparr>trace := trace s @ exit_events st (atexit_teardown s),
                        atexit_teardown := False\<rparr>"
    for s3
  proof (cases "sigterm env (trace s3)")
    case False
    with e s3 assms have "exit (sigpoint env) st s =
       s\<lparr>trace := trace s @ exit_events st (atexit_teardown s), atexit_teardown := False,
         status := Exited st\<rparr>"
      by (simp add: sigpoint_def ended_def)
    then show thesis by (rule whole)
  next
    case True
    let ?n = "if atexit_teardown s then length teardown_order else 0"
    have r: "status s3 = Running" using s3 assms by simp
    from status_deliver [OF r] True r e
    have "exit (sigpoint env) st s = deliver_sigterm s3"
      by (simp add: sigpoint_def ended_def)
    moreover have "s3 = s\<lparr>trace := trace s @ Exit st # map Teardown (take ?n teardown_order),
                          atexit_teardown := False\<rparr>"
      using s3 by (simp add: exit_events_def)
    ultimately have "exit (sigpoint env) st s =
       deliver_sigterm (s\<lparr>trace := trace s @ Exit st # map Teardown (take ?n teardown_order),
                          atexit_teardown := False\<rparr>)"
      by (simp only:)
    moreover have "atexit_teardown s \<or> ?n = 0" "?n \<le> length teardown_order" by simp_all
    ultimately show thesis using cut [of ?n] by blast
  qed
  show thesis
  proof (cases "atexit_teardown s")
    case False
    let ?s3 = "s\<lparr>trace := trace s @ exit_events st (atexit_teardown s),
                  atexit_teardown := False\<rparr>"
    from False have q: "?s1 = ?s3" by (cases s) (simp add: exit_events_def)
    from False assms c have "exit (sigpoint env) st s = ended st (sigpoint env ?s1)"
      by (simp add: exit_def run_atexit_def made_call)
    with q have "exit (sigpoint env) st s = ended st (sigpoint env ?s3)" by (simp only:)
    then show thesis by (rule last) simp
  next
    case True
    let ?s2 = "?s1\<lparr>atexit_teardown := False\<rparr>"
    from True assms c
    have e: "exit (sigpoint env) st s =
             ended st (sigpoint env (seq (map (call env) ?tds) ?s2))"
      by (simp add: exit_def run_atexit_def teardown_call made_call)
    from assms have r: "status ?s2 = Running" by simp
    from calls_run [OF r, of env ?tds] show thesis
    proof
      assume f: "seq (map (call env) ?tds) ?s2 = ?s2\<lparr>trace := trace ?s2 @ ?tds\<rparr>"
      let ?s3 = "s\<lparr>trace := trace s @ exit_events st (atexit_teardown s),
                    atexit_teardown := False\<rparr>"
      from True have q: "?s2\<lparr>trace := trace ?s2 @ ?tds\<rparr> = ?s3"
        by (cases s) (simp add: exit_events_def)
      from e f q have "exit (sigpoint env) st s = ended st (sigpoint env ?s3)"
        by (simp only:)
      then show thesis by (rule last) simp
    next
      assume "\<exists>n<length ?tds. sigterm env (trace ?s2 @ take n ?tds) \<and>
        seq (map (call env) ?tds) ?s2 = deliver_sigterm (?s2\<lparr>trace := trace ?s2 @ take n ?tds\<rparr>)"
      then obtain n where n: "n < length teardown_order"
        and d: "seq (map (call env) ?tds) ?s2 =
                deliver_sigterm (?s2\<lparr>trace := trace ?s2 @ take n ?tds\<rparr>)"
        by auto
      let ?s3 = "s\<lparr>trace := trace s @ Exit st # map Teardown (take n teardown_order),
                   atexit_teardown := False\<rparr>"
      have q: "?s2\<lparr>trace := trace ?s2 @ take n ?tds\<rparr> = ?s3"
        by (cases s) (simp add: take_map)
      have "status ?s3 = Running" using assms by simp
      from status_deliver [OF this]
      have "ended st (sigpoint env (deliver_sigterm ?s3)) = deliver_sigterm ?s3"
        by (simp add: ended_def sigpoint_def)
      with e d q have "exit (sigpoint env) st s = deliver_sigterm ?s3"
        by (simp only:)
      with True n show thesis by (intro cut [of n]) simp_all
    qed
  qed
qed

subsection \<open>Rules for the statements\<close>

lemma abstract_step: "abstract (apply_effect eff (emit e s)) = anext e eff (abstract s)"
  by (cases eff) (simp_all add: abstract_def anext_def emit_def proj_defs last_event_def)

lemma clean_step: "clean s \<Longrightarrow> main_event e \<Longrightarrow> clean (apply_effect eff (emit e s))"
  by (cases eff) (simp_all add: clean_def emit_def)

lemma status_step: "status (apply_effect eff (emit e s)) = status s"
  by (cases eff) (simp_all add: emit_def)

lemma hoare_seq_nil: "hoare P (seq []) P R"
  by (simp add: hoare_def)

lemma hoare_seq_cons:
  "hoare P f Q R \<Longrightarrow> hoare Q (seq fs) Q' R \<Longrightarrow> hoare P (seq (f # fs)) Q' R"
  unfolding hoare_def by (metis seq.simps(2))

lemma hoare_id: "a = a' \<Longrightarrow> hoare (Pa a) id (Pa a') R"
  by (simp add: hoare_def)

lemma hoare_seq_nil_eq: "a = a' \<Longrightarrow> hoare (Pa a) (seq []) (Pa a') R"
  by (simp add: hoare_def)

lemma hoare_if:
  "(c \<Longrightarrow> hoare P f Q R) \<Longrightarrow> (\<not> c \<Longrightarrow> hoare P g Q R) \<Longrightarrow> hoare P (if c then f else g) Q R"
  by simp

lemma hoare_call_eff:
  assumes "main_event e" and "I a" and "a' = anext e eff a"
  shows "hoare (Pa a) (call_eff env e eff) (Pa a') (final env I)"
  unfolding hoare_def
proof (intro allI impI)
  fix s
  assume pre: "if status s = Running then Pa a s else final env I s"
  show "if status (call_eff env e eff s) = Running then Pa a' (call_eff env e eff s)
        else final env I (call_eff env e eff s)"
  proof (cases "status s = Running")
    case False
    with pre show ?thesis by (simp add: call_eff_def)
  next
    case True
    with pre have P: "clean s" "abstract s = a" by (simp_all add: Pa_def)
    show ?thesis
    proof (cases "sigterm env (trace s)")
      case True
      have "final env I (deliver_sigterm s)"
        unfolding final_def using P assms(2) by (intro exI [of _ s]) simp
      with True \<open>status s = Running\<close> status_deliver [of s] show ?thesis
        by (simp add: call_eff_def)
    next
      case False
      with \<open>status s = Running\<close> P assms show ?thesis
        by (simp add: call_eff_def status_step Pa_def clean_step abstract_step)
    qed
  qed
qed

lemma hoare_call:
  assumes "main_event e" and "I a" and "a' = anext e No_effect a"
  shows "hoare (Pa a) (call env e) (Pa a') (final env I)"
  unfolding call_def using assms by (rule hoare_call_eff)

lemma hoare_log_stderr:
  assumes "fmt \<noteq> ''_shutdown received signal %d''" and "I a"
    and "a' = anext (Log_stderr fmt args) No_effect a"
  shows "hoare (Pa a) (log_stderr env fmt args) (Pa a') (final env I)"
  unfolding log_stderr_def using assms by (intro hoare_call) simp_all

lemma hoare_exit_if:
  assumes "I a" and "C \<Longrightarrow> exit_ok env a st"
  shows "hoare (\<lambda>s. Pa a s \<and> C) (exit (sigpoint env) st) Q (final env I)"
  unfolding hoare_def
proof (intro allI impI)
  fix s
  assume pre: "if status s = Running then Pa a s \<and> C else final env I s"
  show "if status (exit (sigpoint env) st s) = Running then Q (exit (sigpoint env) st s)
        else final env I (exit (sigpoint env) st s)"
  proof (cases "status s = Running")
    case False
    with pre show ?thesis by (simp add: exit_def)
  next
    case True
    with pre have P: "clean s" "abstract s = a" and C by (simp_all add: Pa_def)
    have "final env I (exit (sigpoint env) st s)"
      unfolding final_def using P assms(1) assms(2) [OF \<open>C\<close>] by (intro exI [of _ s]) auto
    then show ?thesis by (simp add: status_exit)
  qed
qed

lemma hoare_exit:
  assumes "I a" and "exit_ok env a st"
  shows "hoare (Pa a) (exit (sigpoint env) st) Q (final env I)"
  using hoare_exit_if [of I a True env st Q] assms by simp

lemma hoare_core_run:
  assumes "I a" and "I (anext (Core_run p f) No_effect a)"
    and "a' = anext (Core_run p f) No_effect a" and "a_fails a = []"
  shows "hoare (Pa a) (core_run env p f)
           (\<lambda>s. Pa a' s \<and> core_run_outcome env = Returns) (final env I)"
proof -
  let ?serve = "\<lambda>s. if status s \<noteq> Running then s
          else if sigterm env (trace s) then deliver_sigterm s
          else case core_run_outcome env of
                 Returns \<Rightarrow> s
               | Serves \<Rightarrow> s\<lparr>status := Serving\<rparr>
               | Fails st \<Rightarrow> exit (sigpoint env) st s"
  have 1: "hoare (Pa a) (call env (Core_run p f)) (Pa a') (final env I)"
    using assms by (intro hoare_call) simp_all
  have 2: "hoare (Pa a') ?serve (\<lambda>s. Pa a' s \<and> core_run_outcome env = Returns)
             (final env I)"
    unfolding hoare_def
  proof (intro allI impI)
    fix s
    assume pre: "if status s = Running then Pa a' s else final env I s"
    show "if status (?serve s) = Running
          then Pa a' (?serve s) \<and> core_run_outcome env = Returns
          else final env I (?serve s)"
    proof (cases "status s = Running")
      case False
      with pre show ?thesis by simp
    next
      case True
      with pre have P: "clean s" "abstract s = a'" by (simp_all add: Pa_def)
      have d: "final env I (deliver_sigterm s)"
        unfolding final_def using P assms by (intro exI [of _ s]) simp
      have c: "a_cores a' \<noteq> []" and n: "a_fails a' = []"
        using assms(3,4) by (simp_all add: anext_def)
      then have v: "final env I (s\<lparr>status := Serving\<rparr>)"
        unfolding final_def using P assms by (intro exI [of _ s]) simp
      have x: "final env I (exit (sigpoint env) st s)" if "core_run_outcome env = Fails st" for st
        unfolding final_def using P assms(2,3) c n that
        by (intro exI [of _ s]) (auto simp: exit_ok_def)
      from True d v x pre status_deliver [of s] show ?thesis
        by (cases "core_run_outcome env") (simp_all add: status_exit)
    qed
  qed
  show ?thesis
    unfolding core_run_def
    by (rule hoare_seq_cons [OF 1]) (rule hoare_seq_cons [OF 2], rule hoare_seq_nil)
qed

text \<open>The last two statements of \<^verbatim>\<open>main\<close>.\<close>

lemma hoare_main_end:
  assumes "I a" and "I (anext (Core_run p f) No_effect a)" and "a_fails a = []"
  shows "hoare (Pa a) (seq [core_run env p f, exit (sigpoint env) EX_OK]) Q (final env I)"
proof -
  let ?a' = "anext (Core_run p f) No_effect a"
  have 1: "hoare (Pa a) (core_run env p f)
             (\<lambda>s. Pa ?a' s \<and> core_run_outcome env = Returns) (final env I)"
    using assms by (intro hoare_core_run) simp_all
  have "exit_ok env ?a' EX_OK" if "core_run_outcome env = Returns"
    using that assms(3) by (simp add: exit_ok_def anext_def sysexits_defs)
  with assms(2)
  have 2: "hoare (\<lambda>s. Pa ?a' s \<and> core_run_outcome env = Returns) (exit (sigpoint env) EX_OK) Q
             (final env I)"
    by (intro hoare_exit_if)
  show ?thesis
    by (rule hoare_seq_cons [OF 1], rule hoare_seq_cons [OF 2], rule hoare_seq_nil)
qed

lemmas vcg_rules = hoare_main_end hoare_seq_cons hoare_seq_nil hoare_seq_nil_eq hoare_if
  hoare_call_eff hoare_call hoare_log_stderr hoare_exit hoare_id

lemma hoare_setup_options:
  assumes "I (a\<lparr>a_last := None\<rparr>)" and "a_last a = None" and "a' = acreate env a"
  shows "hoare (Pa a) (setup_options env) (Pa a') (final env I)"
  unfolding setup_options_def
  using assms
  by (cases a; cases "daemonize_opt env"; cases "pid_filename env")
     ((rule vcg_rules | simp add: anext_def acreate_def pid_list_def)+)

lemma hoare_setup_error:
  assumes "I a" and "I (aremove fname a)" and "exit_ok env (aremove fname a) EX_CONFIG"
  shows "hoare (Pa a) (setup_error env fname) Q (final env I)"
  unfolding setup_error_def
  using assms
  by (cases a; cases fname)
     ((rule vcg_rules | simp add: anext_def aremove_def)+)

subsection \<open>The whole program\<close>

lemmas vcg_simps = Inv_def exit_ok_def anext_def acreate_def aremove_def expected_regs_def
  pid_list_def teardown_order_eq sysexits_defs timeout_ev_defs numeral_2_eq_2

lemma hoare_main_load:
  "a = a0 \<Longrightarrow> hoare (Pa a) (main_load env argv fp) (Pa a0) (final env (Inv env))"
  unfolding main_load_def a0_def
  by (cases fp; cases "load_file_ok env")
     ((rule vcg_rules | simp add: vcg_simps del: not_None_eq)+)

lemma hoare_main_args:
  "a = a0 \<Longrightarrow> hoare (Pa a) (main_args env argv) (Pa a0) (final env (Inv env))"
  unfolding main_args_def show_usage_def a0_def
  by (rule vcg_rules | simp add: vcg_simps del: not_None_eq)+

lemma hoare_setup_main:
  "a = a0 \<Longrightarrow> a' = a_ready env \<Longrightarrow>
   hoare (Pa a) (setup_main env) (Pa a') (final env (Inv env))"
  unfolding setup_main_def setup_modules_def a0_def a_ready_def
  by (rule vcg_rules hoare_setup_options hoare_setup_error
      | simp add: vcg_simps del: not_None_eq split: option.split)+

lemma hoare_main: "hoare (Pa a0) (main env argv) Q (final env (Inv env))"
  unfolding main_def Let_def show_usage_def
  apply (rule vcg_rules hoare_main_args hoare_main_load hoare_setup_main
      | simp add: vcg_simps a0_def a_ready_def del: not_None_eq split: option.split)+
  done


lemma Pa_init: "Pa a0 init"
  by (simp add: Pa_def clean_def abstract_def a0_def init_def proj_defs last_event_def
      timeout_ev_defs numeral_2_eq_2)

lemma run_final: "final env (Inv env) (run env argv)"
proof -
  have "status (main env argv init) \<noteq> Running"
    by (simp add: main_def Let_def status_exit)
  with hoare_main [of env argv "\<lambda>_. False"] Pa_init show ?thesis
    by (simp add: hoare_def run_def init_def)
qed

subsection \<open>What the abstraction says of the trace\<close>

lemma clean_trace:
  "list_all main_event tr \<Longrightarrow>
   exits tr = [] \<and> teardowns tr = [] \<and> unregistrations tr = [] \<and>
   shutdown_log n \<notin> set tr \<and> flag_store \<notin> set tr \<and> Core_destroy \<notin> set tr"
proof (induction tr)
  case Nil
  then show ?case by (simp add: proj_defs)
next
  case (Cons e tr)
  then show ?case
    by (cases e) (auto simp: proj_defs shutdown_log_def flag_store_def)
qed

lemma failures_registered:
  "failures tr = [] \<Longrightarrow> (i, f, t) \<in> set (registrations tr) \<Longrightarrow> t \<noteq> None"
proof (induction tr)
  case Nil
  then show ?case by (simp add: proj_defs)
next
  case (Cons e tr)
  then show ?case
    by (cases e) (auto simp: proj_defs split: if_splits)
qed

lemma last_notable:
  assumes "last_event tr = Some e"
  shows "tr = butlast tr @ [e]"
proof -
  from assms have ne: "tr \<noteq> []" and n: "notable (last tr) = Some e"
    by (auto simp: last_event_def split: if_splits)
  from n have "last tr = e" by (cases "last tr") simp_all
  with ne show ?thesis by (metis append_butlast_last_id)
qed

text \<open>
  How a run ends, from the state \<open>s\<close> in which the main flow of control made its last step:
  killed by the signal, in the handler of the signal, by \<^verbatim>\<open>exit\<close>, by the signal when
  \<^verbatim>\<open>exit\<close> had been called and \<^verbatim>\<open>teardown\<close> had made \<open>n\<close> of its calls (killed, or in the
  handler), or never.
\<close>

lemma run_cases [case_names killed handler exited cut_killed cut_handler serving]:
  obtains
    (killed) s where "clean s" and "Inv env (abstract s)" and "\<not> sigterm_shutdown s"
      and "run env argv = s\<lparr>status := Killed SIGTERM\<rparr>"
  | (handler) s where "clean s" and "Inv env (abstract s)" and "sigterm_shutdown s"
      and "run env argv =
           s\<lparr>worker_processor := (worker_processor s)\<lparr>running := False\<rparr>,
             trace := trace s @ handler_events SIGTERM (slimcache_tev s) @
                      exit_events EX_OK (atexit_teardown s),
             atexit_teardown := False,
             status := Exited EX_OK\<rparr>"
  | (exited) s st where "clean s" and "Inv env (abstract s)" and "exit_ok env (abstract s) st"
      and "run env argv =
           s\<lparr>trace := trace s @ exit_events st (atexit_teardown s), atexit_teardown := False,
             status := Exited st\<rparr>"
  | (cut_killed) s st n where "clean s" and "Inv env (abstract s)"
      and "exit_ok env (abstract s) st" and "atexit_teardown s \<or> n = 0"
      and "\<not> sigterm_shutdown s" and "n \<le> length teardown_order"
      and "run env argv =
           s\<lparr>trace := trace s @ Exit st # map Teardown (take n teardown_order),
             atexit_teardown := False, status := Killed SIGTERM\<rparr>"
  | (cut_handler) s st n where "clean s" and "Inv env (abstract s)"
      and "exit_ok env (abstract s) st" and "atexit_teardown s" and "sigterm_shutdown s"
      and "n \<le> length teardown_order"
      and "run env argv =
           s\<lparr>worker_processor := (worker_processor s)\<lparr>running := False\<rparr>,
             trace := trace s @ Exit st # map Teardown (take n teardown_order) @
                      handler_events SIGTERM (slimcache_tev s) @ [Exit EX_OK],
             atexit_teardown := False,
             status := Exited EX_OK\<rparr>"
  | (serving) s where "clean s" and "Inv env (abstract s)" and "core_runs (trace s) \<noteq> []"
      and "run env argv = s\<lparr>status := Serving\<rparr>"
proof -
  from run_final [of env argv] obtain s where s: "clean s" "Inv env (abstract s)"
    and d: "run env argv = deliver_sigterm s \<or>
            (\<exists>st. run env argv = exit (sigpoint env) st s \<and> exit_ok env (abstract s) st) \<or>
            (run env argv = s\<lparr>status := Serving\<rparr> \<and> a_cores (abstract s) \<noteq> [])"
    unfolding final_def by blast
  from s(1) have r: "status s = Running" by (simp add: clean_def)
  have sig: thesis if "run env argv = deliver_sigterm s"
  proof (cases "sigterm_shutdown s")
    case True
    with that r s show thesis by (intro handler [of s]) (simp_all add: deliver_eq)
  next
    case False
    with that r s show thesis by (intro killed [of s]) (simp_all add: deliver_eq)
  qed
  from d consider "run env argv = deliver_sigterm s"
    | st where "run env argv = exit (sigpoint env) st s" "exit_ok env (abstract s) st"
    | "run env argv = s\<lparr>status := Serving\<rparr>" "a_cores (abstract s) \<noteq> []"
    by blast
  then show thesis
  proof cases
    case 1
    then show thesis by (rule sig)
  next
    case 2
    from r show thesis
    proof (cases rule: exit_cases [where env = env and st = st])
      case signal
      with 2 show thesis by (intro sig) simp
    next
      case whole
      with 2 s show thesis by (intro exited [of s st]) simp_all
    next
      case (cut n)
      let ?s' = "s\<lparr>trace := trace s @ Exit st # map Teardown (take n teardown_order),
                   atexit_teardown := False\<rparr>"
      from r have r': "status ?s' = Running" by simp
      show thesis
      proof (cases "sigterm_shutdown s")
        case True
        with s(2) have "atexit_teardown s" by (simp add: Inv_def abstract_def)
        with True 2 s cut r' show thesis
          by (intro cut_handler [of s st n]) (simp_all add: deliver_eq exit_events_def)
      next
        case False
        with 2 s cut r' show thesis
          by (intro cut_killed [of s st n]) (simp_all add: deliver_eq)
      qed
    qed
  next
    case 3
    with s show thesis by (intro serving [of s]) (simp_all add: abstract_def)
  qed
qed

lemma proj_append:
  "setups (a @ b) = setups a @ setups b"
  "teardowns (a @ b) = teardowns a @ teardowns b"
  "registrations (a @ b) = registrations a @ registrations b"
  "unregistrations (a @ b) = unregistrations a @ unregistrations b"
  "core_runs (a @ b) = core_runs a @ core_runs b"
  "exits (a @ b) = exits a @ exits b"
  "creates (a @ b) = creates a @ creates b"
  "removes (a @ b) = removes a @ removes b"
  "failures (a @ b) = failures a @ failures b"
  "setup_failures (a @ b) = setup_failures a @ setup_failures b"
  by (simp_all add: proj_defs)

lemma proj_Cons:
  "setups (e # tr) = setup_of e @ setups tr"
  "teardowns (e # tr) = teardown_of e @ teardowns tr"
  "registrations (e # tr) = register_of e @ registrations tr"
  "unregistrations (e # tr) = unregister_of e @ unregistrations tr"
  "core_runs (e # tr) = core_run_of e @ core_runs tr"
  "exits (e # tr) = exit_of e @ exits tr"
  "creates (e # tr) = create_of e @ creates tr"
  "removes (e # tr) = remove_of e @ removes tr"
  "failures (e # tr) = failure_of e @ failures tr"
  "setup_failures (e # tr) = setup_failure_of e @ setup_failures tr"
  by (simp_all add: proj_defs)

lemma proj_Nil:
  "setups [] = []" "teardowns [] = []" "registrations [] = []" "unregistrations [] = []"
  "core_runs [] = []" "exits [] = []" "creates [] = []" "removes [] = []"
  "failures [] = []" "setup_failures [] = []"
  by (simp_all add: proj_defs)

lemma proj_Teardown:
  "setups (map Teardown ms) = []"
  "teardowns (map Teardown ms) = ms"
  "registrations (map Teardown ms) = []"
  "unregistrations (map Teardown ms) = []"
  "core_runs (map Teardown ms) = []"
  "exits (map Teardown ms) = []"
  "creates (map Teardown ms) = []"
  "removes (map Teardown ms) = []"
  "failures (map Teardown ms) = []"
  "setup_failures (map Teardown ms) = []"
  by (induction ms) (simp_all add: proj_Cons proj_Nil)

lemma proj_exit_events:
  "setups (exit_events st b) = []"
  "teardowns (exit_events st b) = (if b then teardown_order else [])"
  "registrations (exit_events st b) = []"
  "unregistrations (exit_events st b) = []"
  "core_runs (exit_events st b) = []"
  "exits (exit_events st b) = [st]"
  "creates (exit_events st b) = []"
  "removes (exit_events st b) = []"
  "failures (exit_events st b) = []"
  "setup_failures (exit_events st b) = []"
  by (simp_all add: exit_events_def proj_Cons proj_Nil proj_Teardown)

lemma proj_handler_events:
  "setups (handler_events n ts) = []"
  "teardowns (handler_events n ts) = []"
  "registrations (handler_events n ts) = []"
  "unregistrations (handler_events n ts) = [ts ! DLOG_TIMEOUT_EV, ts ! KLOG_TIMEOUT_EV]"
  "core_runs (handler_events n ts) = []"
  "exits (handler_events n ts) = []"
  "creates (handler_events n ts) = []"
  "removes (handler_events n ts) = []"
  "failures (handler_events n ts) = []"
  "setup_failures (handler_events n ts) = []"
  by (simp_all add: handler_events_def proj_Cons proj_Nil shutdown_log_def flag_store_def)

lemmas proj_simps = proj_append proj_Cons proj_Nil proj_exit_events proj_handler_events
  proj_Teardown

lemma clean_facts:
  assumes "clean s"
  shows "status s = Running" and "running (worker_processor s)"
    and "exits (trace s) = []" and "teardowns (trace s) = []"
    and "unregistrations (trace s) = []" and "shutdown_log SIGTERM \<notin> set (trace s)"
    and "flag_store \<notin> set (trace s)" and "Core_destroy \<notin> set (trace s)"
  using assms clean_trace [of "trace s" SIGTERM] by (simp_all add: clean_def)

lemma serving_state:
  assumes "clean s" and "Inv env (abstract s)" and "core_runs (trace s) \<noteq> []"
  shows "\<exists>pre. trace s = pre @ [Core_run Addr_worker_processor Addr_worker_processor_running]
           \<and> exits pre = [] \<and> core_runs pre = []"
    and "sigterm_shutdown s" and "atexit_teardown s"
    and "slimcache_tev s = [register_dlog env, register_klog env]"
    and "failures (trace s) = []"
    and "registrations (trace s) = expected_regs env"
    and "setups (trace s) = rev teardown_order"
proof -
  from assms(2,3) have c: "core_runs (trace s) =
      [(Addr_worker_processor, Addr_worker_processor_running)]"
    and l: "last_event (trace s) =
      Some (Core_run Addr_worker_processor Addr_worker_processor_running)"
    and r: "registrations (trace s) = expected_regs env"
    and h: "sigterm_shutdown s" and a: "atexit_teardown s"
    and u: "setups (trace s) = rev teardown_order"
    and f: "failures (trace s) = []"
    and t: "slimcache_tev s = map (\<lambda>(i, f, t). t) (registrations (trace s)) @
              replicate (2 - length (registrations (trace s))) None"
    by (simp_all add: Inv_def abstract_def)
  let ?c = "Core_run Addr_worker_processor Addr_worker_processor_running"
  from last_notable [OF l] have tr: "trace s = butlast (trace s) @ [?c]" .
  from clean_facts(3) [OF assms(1)] have "exits (butlast (trace s) @ [?c]) = []"
    using tr by simp
  then have e: "exits (butlast (trace s)) = []" by (simp add: proj_append)
  from c tr have "core_runs (butlast (trace s) @ [?c]) =
      [(Addr_worker_processor, Addr_worker_processor_running)]" by simp
  then have "core_runs (butlast (trace s)) = []" by (simp add: proj_append core_runs_def)
  with tr e show "\<exists>pre. trace s = pre @ [?c] \<and> exits pre = [] \<and> core_runs pre = []"
    by blast
  show "sigterm_shutdown s" "atexit_teardown s" "failures (trace s) = []"
    "registrations (trace s) = expected_regs env" "setups (trace s) = rev teardown_order"
    by (fact h a f r u)+
  from t r show "slimcache_tev s = [register_dlog env, register_klog env]"
    by (simp add: expected_regs_def)
qed

lemma serving_handles:
  assumes "clean s" and "Inv env (abstract s)" and "core_runs (trace s) \<noteq> []"
  shows "register_dlog env \<noteq> None \<and> register_klog env \<noteq> None"
proof -
  note v = serving_state [OF assms]
  from v(5,6)
    failures_registered [of "trace s" "dlog_intvl env" Fn_debug_log_flush "register_dlog env"]
    failures_registered [of "trace s" "klog_intvl env" Fn_klog_flush "register_klog env"]
  show ?thesis by (simp add: expected_regs_def)
qed

lemma not_in_exit_events:
  "shutdown_log n \<notin> set (exit_events st b)"
  "flag_store \<notin> set (exit_events st b)"
  "Core_destroy \<notin> set (exit_events st b)"
  by (auto simp: exit_events_def shutdown_log_def flag_store_def)

lemma not_in_teardowns:
  "shutdown_log n \<notin> set (map Teardown ms)"
  "flag_store \<notin> set (map Teardown ms)"
  "Core_destroy \<notin> set (map Teardown ms)"
  by (auto simp: shutdown_log_def flag_store_def)

lemma exit_ok_facts:
  assumes "exit_ok env (abstract s) st"
  shows "failures (trace s) = [] \<Longrightarrow>
           st = EX_OK \<and> (core_runs (trace s) = [] \<or> core_run_outcome env = Returns) \<or>
           st = EX_USAGE \<and> core_runs (trace s) = [] \<or>
           core_runs (trace s) \<noteq> [] \<and> core_run_outcome env = Fails st"
    and "failures (trace s) \<noteq> [] \<Longrightarrow> failures (trace s) = [st] \<and> core_runs (trace s) = []"
    and "st = EX_CONFIG \<Longrightarrow> core_runs (trace s) = [] \<Longrightarrow>
           removes (trace s) = creates (trace s)"
  using assms by (auto simp: exit_ok_def abstract_def split: if_splits)

lemma in_handler_events: "shutdown_log n \<in> set (handler_events n ts)"
  by (simp add: handler_events_def)

lemma Inv_facts:
  assumes "Inv env (abstract s)"
  shows "prefix (setups (trace s)) (rev teardown_order)"
    and "setups (trace s) \<noteq> [] \<Longrightarrow> atexit_teardown s \<and> sigterm_shutdown s"
    and "sigterm_shutdown s \<Longrightarrow> atexit_teardown s"
    and "prefix (registrations (trace s)) (expected_regs env)"
    and "slimcache_tev s = map (\<lambda>(i, f, t). t) (registrations (trace s)) @
           replicate (2 - length (registrations (trace s))) None"
    and "failures (trace s) = [] \<or> failures (trace s) = [EX_OSERR] \<or>
         failures (trace s) = [EX_CONFIG] \<or> failures (trace s) = [EX_DATAERR]"
    and "creates (trace s) = [] \<or>
         creates (trace s) = pid_list env \<and> setup_failures (trace s) = [] \<and>
         sigterm_shutdown s \<and>
         (failures (trace s) = [] \<or> failures (trace s) = [EX_CONFIG])"
    and "removes (trace s) = [] \<or>
         removes (trace s) = creates (trace s) \<and>
         last_event (trace s) = Some (Remove_pidfile (last (removes (trace s)))) \<and>
         failures (trace s) = [EX_CONFIG]"
    and "core_runs (trace s) = [] \<or>
         core_runs (trace s) = [(Addr_worker_processor, Addr_worker_processor_running)]"
  using assms by (auto simp: Inv_def abstract_def)

subsection \<open>Sample runs, evaluated\<close>

lemmas run_defs = run_def main_def main_args_def main_load_def setup_main_def
  setup_modules_def setup_options_def setup_error_def show_usage_def core_run_def
  log_stderr_def call_def call_eff_def emit_def exit_def run_atexit_def ended_def teardown_def
  made_def sigpoint_def
  deliver_sigterm_def
  shutdown_def init_def Let_def is_opt_def timeout_ev_defs unregister_from.simps
  exit_events_def handler_events_def shutdown_log_def flag_store_def teardown_order_eq
  numeral_2_eq_2

lemmas env_defs = env_ok_def env_sigterm_def env_kill_def env_klog_fail_def
  env_debug_fail_def env_no_file_def env_bad_file_def env_no_default_def
  env_debug_fail_sigterm_def env_klog_fail_sigterm_def env_teardown_sigterm_def
  env_core_fails_def argv0_def argv_conf_def argv_many_def

lemma run_env_ok:
  "run env_ok argv0 =
   init\<lparr>slimcache_tev := [Some 1, Some 2], sigterm_shutdown := True,
     trace :=
      [Log_stderr ''launching server with default values.'' [],
       Option_load_default True, Atexit Fn_teardown True,
       Signal_override SIGTERM ''perform shutdown'' Fn_shutdown True,
       Setup Log True, Setup Debug True, Create_pidfile ''slimcache.pid''] @
      setup_calls @
      [Core_admin_register 500 Fn_debug_log_flush (Some 1),
       Core_admin_register 100 Fn_klog_flush (Some 2), Option_print_all,
       Core_run Addr_worker_processor Addr_worker_processor_running] @
      exit_events EX_OK True,
     status := Exited EX_OK\<rparr>"
  by (simp add: run_defs env_defs setup_calls_def)

lemma run_env_sigterm:
  "run env_sigterm argv0 =
   init\<lparr>worker_processor := (worker_processor init)\<lparr>running := False\<rparr>,
     slimcache_tev := [Some 1, Some 2], sigterm_shutdown := True,
     trace :=
      [Log_stderr ''launching server with default values.'' [],
       Option_load_default True, Atexit Fn_teardown True,
       Signal_override SIGTERM ''perform shutdown'' Fn_shutdown True,
       Setup Log True, Setup Debug True, Create_pidfile ''slimcache.pid''] @
      setup_calls @
      [Core_admin_register 500 Fn_debug_log_flush (Some 1),
       Core_admin_register 100 Fn_klog_flush (Some 2), Option_print_all,
       Core_run Addr_worker_processor Addr_worker_processor_running] @
      handler_events SIGTERM [Some 1, Some 2] @
      exit_events EX_OK True,
     status := Exited EX_OK\<rparr>"
  by (simp add: run_defs env_defs setup_calls_def core_runs_def)

lemma run_env_kill: "run env_kill argv0 = init\<lparr>status := Killed SIGTERM\<rparr>"
  by (simp add: run_defs env_defs)

lemma run_env_klog_fail:
  "run env_klog_fail argv_conf =
   init\<lparr>slimcache_tev := [Some 1, None], sigterm_shutdown := True,
     trace :=
      [Fopen ''slimcache.conf'' ''r'' True, Option_load_default True,
       Log_stderr ''load config from %s'' [Arg_str ''slimcache.conf''],
       Option_load_file True, Fclose, Atexit Fn_teardown True,
       Signal_override SIGTERM ''perform shutdown'' Fn_shutdown True,
       Setup Log True, Setup Debug True, Create_pidfile ''slimcache.pid''] @
      setup_calls @
      [Core_admin_register 500 Fn_debug_log_flush (Some 1),
       Core_admin_register 100 Fn_klog_flush None,
       Log_error ''Could not register timed event to flush command log'',
       Remove_pidfile ''slimcache.pid''] @
      exit_events EX_CONFIG True,
     status := Exited EX_CONFIG\<rparr>"
  by (simp add: run_defs env_defs setup_calls_def)

lemma run_env_debug_fail:
  "run env_debug_fail argv_conf =
   init\<lparr>sigterm_shutdown := True,
     trace :=
      [Fopen ''slimcache.conf'' ''r'' True, Option_load_default True,
       Log_stderr ''load config from %s'' [Arg_str ''slimcache.conf''],
       Option_load_file True, Fclose, Atexit Fn_teardown True,
       Signal_override SIGTERM ''perform shutdown'' Fn_shutdown True,
       Setup Log True, Setup Debug False,
       Log_stderr ''debug log setup failed'' []] @
      exit_events EX_CONFIG True,
     status := Exited EX_CONFIG\<rparr>"
  by (simp add: run_defs env_defs)

lemma run_env_no_file:
  "run env_no_file argv_conf =
   init\<lparr>trace :=
      [Fopen ''slimcache.conf'' ''r'' False,
       Log_stderr ''cannot open config: incorrect path or doesn't exist'' [],
       Exit EX_DATAERR],
     status := Exited EX_DATAERR\<rparr>"
  by (simp add: run_defs env_defs)

lemma run_env_no_default:
  "run env_no_default argv_conf =
   init\<lparr>trace :=
      [Fopen ''slimcache.conf'' ''r'' True, Option_load_default False,
       Log_stderr ''failed to load default option values'' [],
       Exit EX_CONFIG],
     status := Exited EX_CONFIG\<rparr>"
  by (simp add: run_defs env_defs)

lemma run_env_bad_file:
  "run env_bad_file argv_conf =
   init\<lparr>trace :=
      [Fopen ''slimcache.conf'' ''r'' True, Option_load_default True,
       Log_stderr ''load config from %s'' [Arg_str ''slimcache.conf''],
       Option_load_file False, Fclose,
       Log_stderr ''failed to load config'' [],
       Exit EX_DATAERR],
     status := Exited EX_DATAERR\<rparr>"
  by (simp add: run_defs env_defs)

lemma run_env_ok_conf:
  "run env_ok argv_conf =
   init\<lparr>slimcache_tev := [Some 1, Some 2], sigterm_shutdown := True,
     trace :=
      [Fopen ''slimcache.conf'' ''r'' True, Option_load_default True,
       Log_stderr ''load config from %s'' [Arg_str ''slimcache.conf''],
       Option_load_file True, Fclose, Atexit Fn_teardown True,
       Signal_override SIGTERM ''perform shutdown'' Fn_shutdown True,
       Setup Log True, Setup Debug True, Create_pidfile ''slimcache.pid''] @
      setup_calls @
      [Core_admin_register 500 Fn_debug_log_flush (Some 1),
       Core_admin_register 100 Fn_klog_flush (Some 2), Option_print_all,
       Core_run Addr_worker_processor Addr_worker_processor_running] @
      exit_events EX_OK True,
     status := Exited EX_OK\<rparr>"
  by (simp add: run_defs env_defs setup_calls_def)

lemma run_env_debug_fail_sigterm:
  "run env_debug_fail_sigterm argv_conf =
   init\<lparr>worker_processor := (worker_processor init)\<lparr>running := False\<rparr>,
     sigterm_shutdown := True,
     trace :=
      [Fopen ''slimcache.conf'' ''r'' True, Option_load_default True,
       Log_stderr ''load config from %s'' [Arg_str ''slimcache.conf''],
       Option_load_file True, Fclose, Atexit Fn_teardown True,
       Signal_override SIGTERM ''perform shutdown'' Fn_shutdown True,
       Setup Log True, Setup Debug False] @
      handler_events SIGTERM [None, None] @
      exit_events EX_OK True,
     status := Exited EX_OK\<rparr>"
  by (simp add: run_defs env_defs proj_defs)

lemma run_env_klog_fail_sigterm:
  "run env_klog_fail_sigterm argv_conf =
   init\<lparr>worker_processor := (worker_processor init)\<lparr>running := False\<rparr>,
     slimcache_tev := [Some 1, None], sigterm_shutdown := True,
     trace :=
      [Fopen ''slimcache.conf'' ''r'' True, Option_load_default True,
       Log_stderr ''load config from %s'' [Arg_str ''slimcache.conf''],
       Option_load_file True, Fclose, Atexit Fn_teardown True,
       Signal_override SIGTERM ''perform shutdown'' Fn_shutdown True,
       Setup Log True, Setup Debug True, Create_pidfile ''slimcache.pid''] @
      setup_calls @
      [Core_admin_register 500 Fn_debug_log_flush (Some 1),
       Core_admin_register 100 Fn_klog_flush None] @
      handler_events SIGTERM [Some 1, None] @
      exit_events EX_OK True,
     status := Exited EX_OK\<rparr>"
  by (simp add: run_defs env_defs setup_calls_def proj_defs)

lemma run_env_teardown_sigterm:
  "run env_teardown_sigterm argv0 =
   init\<lparr>worker_processor := (worker_processor init)\<lparr>running := False\<rparr>,
     slimcache_tev := [Some 1, Some 2], sigterm_shutdown := True,
     trace :=
      [Log_stderr ''launching server with default values.'' [],
       Option_load_default True, Atexit Fn_teardown True,
       Signal_override SIGTERM ''perform shutdown'' Fn_shutdown True,
       Setup Log True, Setup Debug True, Create_pidfile ''slimcache.pid''] @
      setup_calls @
      [Core_admin_register 500 Fn_debug_log_flush (Some 1),
       Core_admin_register 100 Fn_klog_flush (Some 2), Option_print_all,
       Core_run Addr_worker_processor Addr_worker_processor_running,
       Exit EX_OK, Teardown Core_worker, Teardown Core_server, Teardown Core_admin,
       Teardown Admin_process, Teardown Process] @
      handler_events SIGTERM [Some 1, Some 2] @ [Exit EX_OK],
     status := Exited EX_OK\<rparr>"
  by (simp add: run_defs env_defs setup_calls_def proj_defs)

lemma run_env_core_fails:
  "run env_core_fails argv0 =
   init\<lparr>slimcache_tev := [Some 1, Some 2], sigterm_shutdown := True,
     trace :=
      [Log_stderr ''launching server with default values.'' [],
       Option_load_default True, Atexit Fn_teardown True,
       Signal_override SIGTERM ''perform shutdown'' Fn_shutdown True,
       Setup Log True, Setup Debug True, Create_pidfile ''slimcache.pid''] @
      setup_calls @
      [Core_admin_register 500 Fn_debug_log_flush (Some 1),
       Core_admin_register 100 Fn_klog_flush (Some 2), Option_print_all,
       Core_run Addr_worker_processor Addr_worker_processor_running] @
      exit_events EX_OSERR True,
     status := Exited EX_OSERR\<rparr>"
  by (simp add: run_defs env_defs setup_calls_def)

lemma proj_setup_calls:
  "setups setup_calls =
     [Buf, Dbuf, Event, Sockio, Tcp, Timing_wheel, Time, Procinfo, Request,
      Response, Parse, Compose, Klog, Cuckoo, Process, Admin_process, Core_admin,
      Core_server, Core_worker]"
  "teardowns setup_calls = []" "registrations setup_calls = []"
  "unregistrations setup_calls = []" "core_runs setup_calls = []" "exits setup_calls = []"
  "creates setup_calls = []" "removes setup_calls = []" "failures setup_calls = []"
  "setup_failures setup_calls = []"
  by (simp_all add: setup_calls_def proj_Cons proj_Nil)

lemmas eval_simps = proj_simps proj_setup_calls init_def sysexits_defs




text \<open>
  C6, as the code has it. \<^verbatim>\<open>teardown\<close> releases the modules in the order
  \<open>teardown_order\<close>. The modules a run has set up are an initial part of the reverse of
  that order, and all of it once \<^verbatim>\<open>core_run\<close> is reached: \<^verbatim>\<open>log\<close> and \<^verbatim>\<open>debug\<close> first,
  \<^verbatim>\<open>core_worker\<close> last. The releases of any run are an initial part of \<open>teardown_order\<close>.
  A run that ends by \<^verbatim>\<open>exit\<close> after it has set a module up has called \<^verbatim>\<open>exit\<close> after every
  setup, and then either the whole of \<^verbatim>\<open>teardown\<close> ran and the process ended, or a SIGTERM
  arrived when \<^verbatim>\<open>teardown\<close> had made \<open>n\<close> of its calls (none, some or all): then the handler
  ran, its \<^verbatim>\<open>exit(EX_OK)\<close> ended the process, and the modules \<^verbatim>\<open>teardown\<close> had not reached
  were not released. A run killed by the signal has set nothing up.
\<close>

theorem teardown_reverses_setup:
  "(status s = Running \<longrightarrow>
      teardowns (trace (teardown id s)) = teardowns (trace s) @ teardown_order) \<and>
   prefix (setups (trace (run env argv))) (rev teardown_order) \<and>
   (core_runs (trace (run env argv)) \<noteq> [] \<longrightarrow>
      setups (trace (run env argv)) =
        [Log, Debug, Buf, Dbuf, Event, Sockio, Tcp, Timing_wheel, Time, Procinfo, Request,
         Response, Parse, Compose, Klog, Cuckoo, Process, Admin_process, Core_admin,
         Core_server, Core_worker] \<and>
      teardown_order = rev (setups (trace (run env argv)))) \<and>
   prefix (teardowns (trace (run env argv))) teardown_order \<and>
   (status (run env argv) = Exited st \<and> setups (trace (run env argv)) \<noteq> [] \<longrightarrow>
      (\<exists>pre. trace (run env argv) = pre @ Exit st # map Teardown teardown_order \<and>
             setups pre = setups (trace (run env argv)) \<and>
             teardowns pre = [] \<and> exits pre = []) \<or>
      (\<exists>pre st' n. n \<le> length teardown_order \<and> st = EX_OK \<and>
             trace (run env argv) =
               pre @ Exit st' # map Teardown (take n teardown_order) @
               handler_events SIGTERM (slimcache_tev (run env argv)) @ [Exit EX_OK] \<and>
             setups pre = setups (trace (run env argv)) \<and>
             teardowns pre = [] \<and> exits pre = [])) \<and>
   (status (run env argv) = Killed sig \<longrightarrow> setups (trace (run env argv)) = [])"
proof -
  have t: "status s = Running \<longrightarrow>
      teardowns (trace (teardown id s)) = teardowns (trace s) @ teardown_order"
    by (simp add: teardown_id proj_append proj_Teardown)
  let ?whole = "\<exists>pre. trace (run env argv) = pre @ Exit st # map Teardown teardown_order \<and>
             setups pre = setups (trace (run env argv)) \<and>
             teardowns pre = [] \<and> exits pre = []"
  let ?cut = "\<exists>pre st' n. n \<le> length teardown_order \<and> st = EX_OK \<and>
             trace (run env argv) =
               pre @ Exit st' # map Teardown (take n teardown_order) @
               handler_events SIGTERM (slimcache_tev (run env argv)) @ [Exit EX_OK] \<and>
             setups pre = setups (trace (run env argv)) \<and>
             teardowns pre = [] \<and> exits pre = []"
  have rest: "prefix (setups (trace (run env argv))) (rev teardown_order) \<and>
   (core_runs (trace (run env argv)) \<noteq> [] \<longrightarrow>
      setups (trace (run env argv)) = rev teardown_order) \<and>
   prefix (teardowns (trace (run env argv))) teardown_order \<and>
   (status (run env argv) = Exited st \<and> setups (trace (run env argv)) \<noteq> [] \<longrightarrow>
      ?whole \<or> ?cut) \<and>
   (status (run env argv) = Killed sig \<longrightarrow> setups (trace (run env argv)) = [])"
  proof (cases rule: run_cases [of env argv])
    case (killed s)
    note f = Inv_facts [OF killed(2)] and c = clean_facts [OF killed(1)]
    from killed(3) f(2) have "setups (trace s) = []" by blast
    moreover from killed(3) serving_state(2) [OF killed(1,2)]
    have "core_runs (trace s) = []" by blast
    ultimately show ?thesis using killed(4) c by simp
  next
    case (handler s)
    note f = Inv_facts [OF handler(2)] and c = clean_facts [OF handler(1)]
    have 1: "prefix (setups (trace (run env argv))) (rev teardown_order)"
      using f(1) handler(4) by (simp add: proj_simps)
    have 2: "core_runs (trace (run env argv)) \<noteq> [] \<longrightarrow>
      setups (trace (run env argv)) = rev teardown_order"
      using serving_state(7) [OF handler(1,2)] handler(4) by (simp add: proj_simps)
    have 3: "prefix (teardowns (trace (run env argv))) teardown_order"
      using handler(4) c by (simp add: proj_simps)
    have 4: "status (run env argv) = Exited st \<and> setups (trace (run env argv)) \<noteq> [] \<longrightarrow>
      ?whole \<or> ?cut"
    proof (intro impI, elim conjE, rule disjI1)
      assume "status (run env argv) = Exited st" "setups (trace (run env argv)) \<noteq> []"
      with handler(4) f(2) have st: "st = EX_OK" and a: "atexit_teardown s"
        by (simp_all add: proj_simps)
      let ?pre = "trace s @ handler_events SIGTERM (slimcache_tev s)"
      from handler(4) st a c
      have "trace (run env argv) = ?pre @ Exit st # map Teardown teardown_order \<and>
            setups ?pre = setups (trace (run env argv)) \<and>
            teardowns ?pre = [] \<and> exits ?pre = []"
        by (simp add: proj_simps exit_events_def)
      then show ?whole by blast
    qed
    have 5: "status (run env argv) = Killed sig \<longrightarrow> setups (trace (run env argv)) = []"
      using handler(4) by simp
    from 1 2 3 4 5 show ?thesis by blast
  next
    case (exited s st')
    note f = Inv_facts [OF exited(2)] and c = clean_facts [OF exited(1)]
    have 1: "prefix (setups (trace (run env argv))) (rev teardown_order)"
      using f(1) exited(4) by (simp add: proj_simps)
    have 2: "core_runs (trace (run env argv)) \<noteq> [] \<longrightarrow>
      setups (trace (run env argv)) = rev teardown_order"
      using serving_state(7) [OF exited(1,2)] exited(4) by (simp add: proj_simps)
    have 3: "prefix (teardowns (trace (run env argv))) teardown_order"
      using exited(4) c by (simp add: proj_simps)
    have 4: "status (run env argv) = Exited st \<and> setups (trace (run env argv)) \<noteq> [] \<longrightarrow>
      ?whole \<or> ?cut"
    proof (intro impI, elim conjE, rule disjI1)
      assume "status (run env argv) = Exited st" "setups (trace (run env argv)) \<noteq> []"
      with exited(4) f(2) have st: "st' = st" and a: "atexit_teardown s"
        by (simp_all add: proj_simps)
      from exited(4) st a c
      have "trace (run env argv) = trace s @ Exit st # map Teardown teardown_order \<and>
            setups (trace s) = setups (trace (run env argv)) \<and>
            teardowns (trace s) = [] \<and> exits (trace s) = []"
        by (simp add: proj_simps exit_events_def)
      then show ?whole by blast
    qed
    have 5: "status (run env argv) = Killed sig \<longrightarrow> setups (trace (run env argv)) = []"
      using exited(4) by simp
    from 1 2 3 4 5 show ?thesis by blast
  next
    case (cut_killed s st' n)
    note f = Inv_facts [OF cut_killed(2)] and c = clean_facts [OF cut_killed(1)]
    from cut_killed(5) f(2) have "setups (trace s) = []" by blast
    moreover from cut_killed(5) serving_state(2) [OF cut_killed(1,2)]
    have "core_runs (trace s) = []" by blast
    ultimately show ?thesis using cut_killed(7) c
      by (simp add: proj_simps take_is_prefix)
  next
    case (cut_handler s st' n)
    note f = Inv_facts [OF cut_handler(2)] and c = clean_facts [OF cut_handler(1)]
    have 1: "prefix (setups (trace (run env argv))) (rev teardown_order)"
      using f(1) cut_handler(7) by (simp add: proj_simps)
    have 2: "core_runs (trace (run env argv)) \<noteq> [] \<longrightarrow>
      setups (trace (run env argv)) = rev teardown_order"
      using serving_state(7) [OF cut_handler(1,2)] cut_handler(7) by (simp add: proj_simps)
    have 3: "prefix (teardowns (trace (run env argv))) teardown_order"
      using cut_handler(7) c by (simp add: proj_simps take_is_prefix)
    have 4: "status (run env argv) = Exited st \<and> setups (trace (run env argv)) \<noteq> [] \<longrightarrow>
      ?whole \<or> ?cut"
    proof (intro impI, elim conjE, rule disjI2)
      assume "status (run env argv) = Exited st" "setups (trace (run env argv)) \<noteq> []"
      with cut_handler(7) have st: "st = EX_OK" by simp
      from cut_handler(6,7) st c
      have "n \<le> length teardown_order \<and> st = EX_OK \<and>
            trace (run env argv) =
               trace s @ Exit st' # map Teardown (take n teardown_order) @
               handler_events SIGTERM (slimcache_tev (run env argv)) @ [Exit EX_OK] \<and>
            setups (trace s) = setups (trace (run env argv)) \<and>
            teardowns (trace s) = [] \<and> exits (trace s) = []"
        by (simp add: proj_simps)
      then show ?cut by blast
    qed
    have 5: "status (run env argv) = Killed sig \<longrightarrow> setups (trace (run env argv)) = []"
      using cut_handler(7) by simp
    from 1 2 3 4 5 show ?thesis by blast
  next
    case (serving s)
    note f = Inv_facts [OF serving(2)] and c = clean_facts [OF serving(1)]
    from f(1) serving_state(7) [OF serving(1,2,3)] serving(4) c show ?thesis by simp
  qed
  from t rest show ?thesis by (simp add: teardown_order_eq)
qed

theorem teardown_reverses_setup_witness:
  "status init = Running \<and>
   teardowns (trace (teardown id init)) = teardowns (trace init) @ teardown_order \<and>
   core_runs (trace (run env_ok argv0)) \<noteq> [] \<and>
   status (run env_ok argv0) = Exited EX_OK \<and>
   setups (trace (run env_ok argv0)) =
     [Log, Debug, Buf, Dbuf, Event, Sockio, Tcp, Timing_wheel, Time, Procinfo, Request,
      Response, Parse, Compose, Klog, Cuckoo, Process, Admin_process, Core_admin,
      Core_server, Core_worker] \<and>
   teardown_order = rev (setups (trace (run env_ok argv0))) \<and>
   teardowns (trace (run env_ok argv0)) = teardown_order \<and>
   status (run env_teardown_sigterm argv0) = Exited EX_OK \<and>
   setups (trace (run env_teardown_sigterm argv0)) \<noteq> [] \<and>
   ((\<exists>pre. trace (run env_teardown_sigterm argv0) =
             pre @ Exit EX_OK # map Teardown teardown_order \<and>
           setups pre = setups (trace (run env_teardown_sigterm argv0)) \<and>
           teardowns pre = [] \<and> exits pre = []) \<or>
    (\<exists>pre st' n. n \<le> length teardown_order \<and> EX_OK = EX_OK \<and>
           trace (run env_teardown_sigterm argv0) =
             pre @ Exit st' # map Teardown (take n teardown_order) @
             handler_events SIGTERM (slimcache_tev (run env_teardown_sigterm argv0)) @
             [Exit EX_OK] \<and>
           setups pre = setups (trace (run env_teardown_sigterm argv0)) \<and>
           teardowns pre = [] \<and> exits pre = []))"
proof -
  have c: "core_runs (trace (run env_ok argv0)) \<noteq> []"
    and s: "status (run env_ok argv0) = Exited EX_OK"
    and t: "teardowns (trace (run env_ok argv0)) = teardown_order"
    by (simp_all add: run_env_ok eval_simps)
  have s': "status (run env_teardown_sigterm argv0) = Exited EX_OK"
    and u': "setups (trace (run env_teardown_sigterm argv0)) \<noteq> []"
    by (simp_all add: run_env_teardown_sigterm eval_simps)
  have r: "status init = Running" by (simp add: init_def)
  with teardown_reverses_setup [of init env_ok argv0 EX_OK]
  have 0: "teardowns (trace (teardown id init)) = teardowns (trace init) @ teardown_order"
    by blast
  from c teardown_reverses_setup [of init env_ok argv0 EX_OK]
  have 1: "setups (trace (run env_ok argv0)) =
     [Log, Debug, Buf, Dbuf, Event, Sockio, Tcp, Timing_wheel, Time, Procinfo, Request,
      Response, Parse, Compose, Klog, Cuckoo, Process, Admin_process, Core_admin,
      Core_server, Core_worker] \<and>
   teardown_order = rev (setups (trace (run env_ok argv0)))"
    by blast
  from s' u' teardown_reverses_setup [of init env_teardown_sigterm argv0 EX_OK]
  have 2: "(\<exists>pre. trace (run env_teardown_sigterm argv0) =
             pre @ Exit EX_OK # map Teardown teardown_order \<and>
           setups pre = setups (trace (run env_teardown_sigterm argv0)) \<and>
           teardowns pre = [] \<and> exits pre = []) \<or>
    (\<exists>pre st' n. n \<le> length teardown_order \<and> EX_OK = EX_OK \<and>
           trace (run env_teardown_sigterm argv0) =
             pre @ Exit st' # map Teardown (take n teardown_order) @
             handler_events SIGTERM (slimcache_tev (run env_teardown_sigterm argv0)) @
             [Exit EX_OK] \<and>
           setups pre = setups (trace (run env_teardown_sigterm argv0)) \<and>
           teardowns pre = [] \<and> exits pre = [])"
    by blast
  from r 0 c s t s' u' 1 2 show ?thesis by blast
qed

text \<open>
  The claim C6 as stated fails: when a SIGTERM arrives after \<^verbatim>\<open>teardown\<close> has released five
  modules, the handler ends the process; the cuckoo module, set up like the other twenty,
  is among the sixteen that are never released.
\<close>

theorem sigterm_in_teardown_leaves_modules:
  "status (run env_teardown_sigterm argv0) = Exited EX_OK \<and>
   setups (trace (run env_teardown_sigterm argv0)) = rev teardown_order \<and>
   teardowns (trace (run env_teardown_sigterm argv0)) =
     [Core_worker, Core_server, Core_admin, Admin_process, Process] \<and>
   Cuckoo \<in> set (setups (trace (run env_teardown_sigterm argv0))) \<and>
   Cuckoo \<notin> set (teardowns (trace (run env_teardown_sigterm argv0)))"
  by (simp add: run_env_teardown_sigterm eval_simps teardown_order_eq)
text \<open>
  C1. The flag \<^verbatim>\<open>worker_processor.running\<close> is initialised to true. The handler of
  SIGTERM logs, stores false in the flag with release order, and only then calls
  \<^verbatim>\<open>core_destroy\<close>; it ends the process with \<open>EX_OK\<close>. Every call of \<^verbatim>\<open>core_run\<close> is
  given the address of that flag. In a run in which the handler ran the flag reads false
  at the end and the store precedes \<^verbatim>\<open>core_destroy\<close>; in any other run the flag still
  reads true and \<^verbatim>\<open>core_destroy\<close> is never called.
\<close>

theorem sigterm_clears_running_flag:
  "atomic_load_n init Addr_worker_processor_running = Some True \<and>
   (status s = Running \<and> sigterm_shutdown s \<longrightarrow>
      (\<exists>post. trace (deliver_sigterm s) =
         trace s @ [shutdown_log SIGTERM,
                    Atomic_store_n Addr_worker_processor_running False ATOMIC_RELEASE,
                    Core_destroy] @ post) \<and>
      atomic_load_n (deliver_sigterm s) Addr_worker_processor_running = Some False \<and>
      status (deliver_sigterm s) = Exited EX_OK) \<and>
   set (core_runs (trace (run env argv))) \<subseteq>
     {(Addr_worker_processor, Addr_worker_processor_running)} \<and>
   (handler_ran (run env argv) \<longrightarrow>
      atomic_load_n (run env argv) Addr_worker_processor_running = Some False \<and>
      (\<exists>pre post. trace (run env argv) =
         pre @ [shutdown_log SIGTERM,
                Atomic_store_n Addr_worker_processor_running False ATOMIC_RELEASE,
                Core_destroy] @ post \<and>
         Atomic_store_n Addr_worker_processor_running False ATOMIC_RELEASE \<notin> set pre \<and>
         Core_destroy \<notin> set pre)) \<and>
   (\<not> handler_ran (run env argv) \<longrightarrow>
      atomic_load_n (run env argv) Addr_worker_processor_running = Some True \<and>
      Core_destroy \<notin> set (trace (run env argv)))"
proof -
  have 1: "atomic_load_n init Addr_worker_processor_running = Some True"
    by (simp add: init_def)
  have 2: "status s = Running \<and> sigterm_shutdown s \<longrightarrow>
      (\<exists>post. trace (deliver_sigterm s) =
         trace s @ [shutdown_log SIGTERM,
                    Atomic_store_n Addr_worker_processor_running False ATOMIC_RELEASE,
                    Core_destroy] @ post) \<and>
      atomic_load_n (deliver_sigterm s) Addr_worker_processor_running = Some False \<and>
      status (deliver_sigterm s) = Exited EX_OK"
    by (simp add: deliver_eq handler_events_def flag_store_def)
  have 3: "set (core_runs (trace (run env argv))) \<subseteq>
     {(Addr_worker_processor, Addr_worker_processor_running)} \<and>
   (handler_ran (run env argv) \<longrightarrow>
      atomic_load_n (run env argv) Addr_worker_processor_running = Some False \<and>
      (\<exists>pre post. trace (run env argv) =
         pre @ [shutdown_log SIGTERM, flag_store, Core_destroy] @ post \<and>
         flag_store \<notin> set pre \<and> Core_destroy \<notin> set pre)) \<and>
   (\<not> handler_ran (run env argv) \<longrightarrow>
      atomic_load_n (run env argv) Addr_worker_processor_running = Some True \<and>
      Core_destroy \<notin> set (trace (run env argv)))"
  proof (cases rule: run_cases [of env argv])
    case (killed s)
    note f = Inv_facts [OF killed(2)] and c = clean_facts [OF killed(1)]
    from f(9) c killed(4) show ?thesis
      by (auto simp: handler_ran_def)
  next
    case (handler s)
    note f = Inv_facts [OF handler(2)] and c = clean_facts [OF handler(1)]
    have "trace (run env argv) = trace s @ [shutdown_log SIGTERM, flag_store, Core_destroy] @
       ([Core_admin_unregister (slimcache_tev s ! DLOG_TIMEOUT_EV),
         Core_admin_unregister (slimcache_tev s ! KLOG_TIMEOUT_EV)] @
        exit_events EX_OK (atexit_teardown s))"
      using handler(4) by (simp add: handler_events_def)
    with c have "\<exists>pre post. trace (run env argv) =
         pre @ [shutdown_log SIGTERM, flag_store, Core_destroy] @ post \<and>
         flag_store \<notin> set pre \<and> Core_destroy \<notin> set pre"
      by blast
    moreover from f(9) handler(4)
    have "set (core_runs (trace (run env argv))) \<subseteq>
       {(Addr_worker_processor, Addr_worker_processor_running)}"
      by (auto simp: proj_simps)
    moreover from handler(4)
    have "atomic_load_n (run env argv) Addr_worker_processor_running = Some False"
      and "handler_ran (run env argv)"
      by (simp_all add: handler_ran_def handler_events_def)
    ultimately show ?thesis by blast
  next
    case (exited s st)
    note f = Inv_facts [OF exited(2)] and c = clean_facts [OF exited(1)]
    from f(9) exited(4)
    have "set (core_runs (trace (run env argv))) \<subseteq>
       {(Addr_worker_processor, Addr_worker_processor_running)}"
      by (auto simp: proj_simps)
    with c exited(4) show ?thesis
      by (simp add: handler_ran_def not_in_exit_events)
  next
    case (cut_killed s st n)
    note f = Inv_facts [OF cut_killed(2)] and c = clean_facts [OF cut_killed(1)]
    from f(9) cut_killed(7)
    have "set (core_runs (trace (run env argv))) \<subseteq>
       {(Addr_worker_processor, Addr_worker_processor_running)}"
      by (auto simp: proj_simps)
    with c cut_killed(7) show ?thesis
      by (auto simp: handler_ran_def not_in_teardowns shutdown_log_def)
  next
    case (cut_handler s st n)
    note f = Inv_facts [OF cut_handler(2)] and c = clean_facts [OF cut_handler(1)]
    let ?pre = "trace s @ Exit st # map Teardown (take n teardown_order)"
    have "trace (run env argv) = ?pre @ [shutdown_log SIGTERM, flag_store, Core_destroy] @
       [Core_admin_unregister (slimcache_tev s ! DLOG_TIMEOUT_EV),
        Core_admin_unregister (slimcache_tev s ! KLOG_TIMEOUT_EV), Exit EX_OK]"
      using cut_handler(7) by (simp add: handler_events_def)
    moreover from c have "flag_store \<notin> set ?pre \<and> Core_destroy \<notin> set ?pre"
      by (auto simp: not_in_teardowns flag_store_def shutdown_log_def)
    ultimately have "\<exists>pre post. trace (run env argv) =
         pre @ [shutdown_log SIGTERM, flag_store, Core_destroy] @ post \<and>
         flag_store \<notin> set pre \<and> Core_destroy \<notin> set pre"
      by blast
    moreover from f(9) cut_handler(7)
    have "set (core_runs (trace (run env argv))) \<subseteq>
       {(Addr_worker_processor, Addr_worker_processor_running)}"
      by (auto simp: proj_simps)
    moreover from cut_handler(7)
    have "atomic_load_n (run env argv) Addr_worker_processor_running = Some False"
      and "handler_ran (run env argv)"
      by (simp_all add: handler_ran_def handler_events_def)
    ultimately show ?thesis by blast
  next
    case (serving s)
    note f = Inv_facts [OF serving(2)] and c = clean_facts [OF serving(1)]
    from f(9) c serving(4) show ?thesis
      by (auto simp: handler_ran_def)
  qed
  from 1 2 3 show ?thesis by (simp add: flag_store_def)
qed

theorem sigterm_clears_running_flag_witness:
  "status (init\<lparr>sigterm_shutdown := True\<rparr>) = Running \<and>
   sigterm_shutdown (init\<lparr>sigterm_shutdown := True\<rparr>) \<and>
   atomic_load_n (deliver_sigterm (init\<lparr>sigterm_shutdown := True\<rparr>))
     Addr_worker_processor_running = Some False \<and>
   status (deliver_sigterm (init\<lparr>sigterm_shutdown := True\<rparr>)) = Exited EX_OK \<and>
   handler_ran (run env_sigterm argv0) \<and>
   atomic_load_n (run env_sigterm argv0) Addr_worker_processor_running = Some False \<and>
   \<not> handler_ran (run env_ok argv0) \<and>
   atomic_load_n (run env_ok argv0) Addr_worker_processor_running = Some True \<and>
   Core_destroy \<notin> set (trace (run env_ok argv0))"
proof -
  let ?s = "init\<lparr>sigterm_shutdown := True\<rparr>"
  have a: "status ?s = Running" "sigterm_shutdown ?s" by (simp_all add: init_def)
  have h: "handler_ran (run env_sigterm argv0)"
    by (simp add: handler_ran_def run_env_sigterm handler_events_def)
  have n: "\<not> handler_ran (run env_ok argv0)"
    by (simp add: handler_ran_def run_env_ok shutdown_log_def setup_calls_def
        exit_events_def image_iff)
  from a sigterm_clears_running_flag [of ?s env_sigterm argv0]
  have 1: "atomic_load_n (deliver_sigterm ?s) Addr_worker_processor_running = Some False"
    and 2: "status (deliver_sigterm ?s) = Exited EX_OK"
    by blast+
  from h sigterm_clears_running_flag [of ?s env_sigterm argv0]
  have 3: "atomic_load_n (run env_sigterm argv0) Addr_worker_processor_running = Some False"
    by blast
  from n sigterm_clears_running_flag [of ?s env_ok argv0]
  have 4: "atomic_load_n (run env_ok argv0) Addr_worker_processor_running = Some True"
    and 5: "Core_destroy \<notin> set (trace (run env_ok argv0))"
    by blast+
  from a 1 2 h 3 n 4 5 show ?thesis by blast
qed

text \<open>
  C2, as the code has it. Only the handler of SIGTERM unregisters: in a run in which it
  ran, \<^verbatim>\<open>core_admin_unregister\<close> is called on the two entries of \<^verbatim>\<open>slimcache_tev\<close>, the
  debug-log event then the command-log event, between \<^verbatim>\<open>core_destroy\<close> and
  \<^verbatim>\<open>exit(EX_OK)\<close>, and nowhere else; the entries are the handles the registrations made
  so far have returned, \<^verbatim>\<open>NULL\<close> for one not made, and both handles of a successful setup
  once \<^verbatim>\<open>core_run\<close> was reached. The handler's \<^verbatim>\<open>exit\<close> is the first call of \<^verbatim>\<open>exit\<close> in
  the run, unless the signal arrived while the \<^verbatim>\<open>teardown\<close> of an earlier \<^verbatim>\<open>exit\<close> was
  running: then it is the second, and nothing follows it. In a run in which the handler
  did not run, \<^verbatim>\<open>core_admin_unregister\<close> is never called.
\<close>

theorem handler_unregisters_timed_events:
  "(handler_ran (run env argv) \<longrightarrow>
      status (run env argv) = Exited EX_OK \<and>
      (\<exists>pre post. trace (run env argv) =
         pre @ [Core_destroy,
                Core_admin_unregister (slimcache_tev (run env argv) ! DLOG_TIMEOUT_EV),
                Core_admin_unregister (slimcache_tev (run env argv) ! KLOG_TIMEOUT_EV),
                Exit EX_OK] @ post \<and>
         unregistrations pre = [] \<and> unregistrations post = [] \<and>
         (exits pre = [] \<or> (\<exists>st. exits pre = [st]) \<and> post = [])) \<and>
      slimcache_tev (run env argv) =
        map (\<lambda>(i, f, t). t) (registrations (trace (run env argv))) @
        replicate (MAX_TIMEOUT_EV - length (registrations (trace (run env argv)))) None) \<and>
   (handler_ran (run env argv) \<and> core_runs (trace (run env argv)) \<noteq> [] \<longrightarrow>
      unregistrations (trace (run env argv)) = [register_dlog env, register_klog env] \<and>
      register_dlog env \<noteq> None \<and> register_klog env \<noteq> None) \<and>
   (\<not> handler_ran (run env argv) \<longrightarrow> unregistrations (trace (run env argv)) = [])"
proof (cases rule: run_cases [of env argv])
  case (killed s)
  note c = clean_facts [OF killed(1)]
  from c killed(4) show ?thesis by (simp add: handler_ran_def)
next
  case (handler s)
  note f = Inv_facts [OF handler(2)] and c = clean_facts [OF handler(1)]
  let ?post = "if atexit_teardown s then map Teardown teardown_order else []"
  let ?pre = "trace s @ [shutdown_log SIGTERM, flag_store]"
  have "trace (run env argv) =
         ?pre @ [Core_destroy,
                Core_admin_unregister (slimcache_tev (run env argv) ! DLOG_TIMEOUT_EV),
                Core_admin_unregister (slimcache_tev (run env argv) ! KLOG_TIMEOUT_EV),
                Exit EX_OK] @ ?post \<and>
         unregistrations ?pre = [] \<and> unregistrations ?post = [] \<and> exits ?pre = []"
    using handler(4) c
    by (simp add: handler_events_def exit_events_def proj_simps shutdown_log_def
        flag_store_def)
  then have 1: "\<exists>pre post. trace (run env argv) =
         pre @ [Core_destroy,
                Core_admin_unregister (slimcache_tev (run env argv) ! DLOG_TIMEOUT_EV),
                Core_admin_unregister (slimcache_tev (run env argv) ! KLOG_TIMEOUT_EV),
                Exit EX_OK] @ post \<and>
         unregistrations pre = [] \<and> unregistrations post = [] \<and>
         (exits pre = [] \<or> (\<exists>st. exits pre = [st]) \<and> post = [])"
    by blast
  from f(5) handler(4) have 2: "slimcache_tev (run env argv) =
        map (\<lambda>(i, f, t). t) (registrations (trace (run env argv))) @
        replicate (MAX_TIMEOUT_EV - length (registrations (trace (run env argv)))) None"
    by (simp add: proj_simps MAX_TIMEOUT_EV_def)
  have 3: "core_runs (trace (run env argv)) \<noteq> [] \<longrightarrow>
      unregistrations (trace (run env argv)) = [register_dlog env, register_klog env] \<and>
      register_dlog env \<noteq> None \<and> register_klog env \<noteq> None"
  proof
    assume "core_runs (trace (run env argv)) \<noteq> []"
    with handler(4) have n: "core_runs (trace s) \<noteq> []" by (simp add: proj_simps)
    note v = serving_state [OF handler(1,2) n]
    from serving_handles [OF handler(1,2) n] v(4) handler(4) c
    show "unregistrations (trace (run env argv)) = [register_dlog env, register_klog env] \<and>
      register_dlog env \<noteq> None \<and> register_klog env \<noteq> None"
      by (simp add: proj_simps timeout_ev_defs)
  qed
  from handler(4) have "status (run env argv) = Exited EX_OK"
    and "handler_ran (run env argv)"
    by (simp_all add: handler_ran_def handler_events_def)
  with 1 2 3 show ?thesis by simp
next
  case (exited s st)
  note c = clean_facts [OF exited(1)]
  from c exited(4) show ?thesis
    by (simp add: handler_ran_def not_in_exit_events proj_simps)
next
  case (cut_killed s st n)
  note c = clean_facts [OF cut_killed(1)]
  from c cut_killed(7) show ?thesis
    by (auto simp: handler_ran_def not_in_teardowns shutdown_log_def proj_simps)
next
  case (cut_handler s st n)
  note f = Inv_facts [OF cut_handler(2)] and c = clean_facts [OF cut_handler(1)]
  let ?pre = "trace s @ Exit st # map Teardown (take n teardown_order) @
              [shutdown_log SIGTERM, flag_store]"
  have "trace (run env argv) =
         ?pre @ [Core_destroy,
                Core_admin_unregister (slimcache_tev (run env argv) ! DLOG_TIMEOUT_EV),
                Core_admin_unregister (slimcache_tev (run env argv) ! KLOG_TIMEOUT_EV),
                Exit EX_OK] @ [] \<and>
         unregistrations ?pre = [] \<and> unregistrations [] = [] \<and> exits ?pre = [st]"
    using cut_handler(7) c
    by (simp add: handler_events_def proj_simps shutdown_log_def flag_store_def)
  then have 1: "\<exists>pre post. trace (run env argv) =
         pre @ [Core_destroy,
                Core_admin_unregister (slimcache_tev (run env argv) ! DLOG_TIMEOUT_EV),
                Core_admin_unregister (slimcache_tev (run env argv) ! KLOG_TIMEOUT_EV),
                Exit EX_OK] @ post \<and>
         unregistrations pre = [] \<and> unregistrations post = [] \<and>
         (exits pre = [] \<or> (\<exists>st. exits pre = [st]) \<and> post = [])"
    by blast
  from f(5) cut_handler(7) have 2: "slimcache_tev (run env argv) =
        map (\<lambda>(i, f, t). t) (registrations (trace (run env argv))) @
        replicate (MAX_TIMEOUT_EV - length (registrations (trace (run env argv)))) None"
    by (simp add: proj_simps MAX_TIMEOUT_EV_def)
  have 3: "core_runs (trace (run env argv)) \<noteq> [] \<longrightarrow>
      unregistrations (trace (run env argv)) = [register_dlog env, register_klog env] \<and>
      register_dlog env \<noteq> None \<and> register_klog env \<noteq> None"
  proof
    assume "core_runs (trace (run env argv)) \<noteq> []"
    with cut_handler(7) have n: "core_runs (trace s) \<noteq> []" by (simp add: proj_simps)
    note v = serving_state [OF cut_handler(1,2) n]
    from serving_handles [OF cut_handler(1,2) n] v(4) cut_handler(7) c
    show "unregistrations (trace (run env argv)) = [register_dlog env, register_klog env] \<and>
      register_dlog env \<noteq> None \<and> register_klog env \<noteq> None"
      by (simp add: proj_simps timeout_ev_defs)
  qed
  from cut_handler(7) have "status (run env argv) = Exited EX_OK"
    and "handler_ran (run env argv)"
    by (simp_all add: handler_ran_def handler_events_def)
  with 1 2 3 show ?thesis by simp
next
  case (serving s)
  note c = clean_facts [OF serving(1)]
  from c serving(4) show ?thesis by (simp add: handler_ran_def)
qed

theorem handler_unregisters_timed_events_witness:
  "handler_ran (run env_sigterm argv0) \<and>
   core_runs (trace (run env_sigterm argv0)) \<noteq> [] \<and>
   status (run env_sigterm argv0) = Exited EX_OK \<and>
   unregistrations (trace (run env_sigterm argv0)) =
     [register_dlog env_sigterm, register_klog env_sigterm] \<and>
   register_dlog env_sigterm \<noteq> None \<and> register_klog env_sigterm \<noteq> None \<and>
   handler_ran (run env_teardown_sigterm argv0) \<and>
   core_runs (trace (run env_teardown_sigterm argv0)) \<noteq> [] \<and>
   unregistrations (trace (run env_teardown_sigterm argv0)) =
     [register_dlog env_teardown_sigterm, register_klog env_teardown_sigterm] \<and>
   \<not> handler_ran (run env_klog_fail argv_conf) \<and>
   unregistrations (trace (run env_klog_fail argv_conf)) = []"
proof -
  have h': "handler_ran (run env_teardown_sigterm argv0)"
    by (simp add: handler_ran_def run_env_teardown_sigterm handler_events_def)
  have c': "core_runs (trace (run env_teardown_sigterm argv0)) \<noteq> []"
    by (simp add: run_env_teardown_sigterm eval_simps)
  from h' c' handler_unregisters_timed_events [of env_teardown_sigterm argv0]
  have 4: "unregistrations (trace (run env_teardown_sigterm argv0)) =
     [register_dlog env_teardown_sigterm, register_klog env_teardown_sigterm]"
    by blast
  have h: "handler_ran (run env_sigterm argv0)"
    by (simp add: handler_ran_def run_env_sigterm handler_events_def)
  have c: "core_runs (trace (run env_sigterm argv0)) \<noteq> []"
    by (simp add: run_env_sigterm eval_simps)
  have n: "\<not> handler_ran (run env_klog_fail argv_conf)"
    by (simp add: handler_ran_def run_env_klog_fail shutdown_log_def setup_calls_def
        exit_events_def image_iff)
  note t = handler_unregisters_timed_events [of env_sigterm argv0]
  from h t have 1: "status (run env_sigterm argv0) = Exited EX_OK" by blast
  from h c t have 2: "unregistrations (trace (run env_sigterm argv0)) =
     [register_dlog env_sigterm, register_klog env_sigterm] \<and>
     register_dlog env_sigterm \<noteq> None \<and> register_klog env_sigterm \<noteq> None"
    by blast
  from n handler_unregisters_timed_events [of env_klog_fail argv_conf]
  have 3: "unregistrations (trace (run env_klog_fail argv_conf)) = []" by blast
  from h c 1 2 h' c' 4 n 3 show ?thesis by blast
qed

text \<open>
  The claim C2 as stated fails: when every call succeeds and \<^verbatim>\<open>core_run\<close> returns, the
  process exits with both events registered and none unregistered.
\<close>

theorem exit_without_unregister:
  "status (run env_ok argv0) = Exited EX_OK \<and>
   registrations (trace (run env_ok argv0)) =
     [(500, Fn_debug_log_flush, Some 1), (100, Fn_klog_flush, Some 2)] \<and>
   unregistrations (trace (run env_ok argv0)) = []"
  by (simp add: run_env_ok eval_simps)

text \<open>
  C3, as the code has it. \<^verbatim>\<open>setup\<close> registers two timed events and no other: the
  debug-log flush with the interval \<^verbatim>\<open>dlog_intvl\<close>, then the command-log flush with the
  interval \<^verbatim>\<open>klog_intvl\<close>. The registrations of any run are an initial part of these
  two, and both (with handles that are not \<^verbatim>\<open>NULL\<close>) once \<^verbatim>\<open>core_run\<close> is reached.
\<close>

theorem setup_registers_dlog_and_klog:
  "prefix (registrations (trace (run env argv)))
     [(dlog_intvl env, Fn_debug_log_flush, register_dlog env),
      (klog_intvl env, Fn_klog_flush, register_klog env)] \<and>
   (core_runs (trace (run env argv)) \<noteq> [] \<longrightarrow>
      registrations (trace (run env argv)) =
        [(dlog_intvl env, Fn_debug_log_flush, register_dlog env),
         (klog_intvl env, Fn_klog_flush, register_klog env)] \<and>
      register_dlog env \<noteq> None \<and> register_klog env \<noteq> None)"
proof -
  have *: "prefix (registrations (trace s)) (expected_regs env) \<and>
     (core_runs (trace s) \<noteq> [] \<longrightarrow>
        registrations (trace s) = expected_regs env \<and>
        register_dlog env \<noteq> None \<and> register_klog env \<noteq> None)"
    if "clean s" and "Inv env (abstract s)" for s
  proof -
    note f = Inv_facts [OF that(2)]
    have "registrations (trace s) = expected_regs env \<and>
        register_dlog env \<noteq> None \<and> register_klog env \<noteq> None"
      if n: "core_runs (trace s) \<noteq> []"
    proof -
      note v = serving_state [OF \<open>clean s\<close> \<open>Inv env (abstract s)\<close> n]
      from v(6) serving_handles [OF \<open>clean s\<close> \<open>Inv env (abstract s)\<close> n] show ?thesis
        by simp
    qed
    with f(4) show ?thesis by blast
  qed
  show ?thesis
  proof (cases rule: run_cases [of env argv])
    case (killed s)
    from * [OF killed(1,2)] killed(4) show ?thesis by (simp add: expected_regs_def)
  next
    case (handler s)
    from * [OF handler(1,2)] handler(4) show ?thesis
      by (simp add: expected_regs_def proj_simps)
  next
    case (exited s st)
    from * [OF exited(1,2)] exited(4) show ?thesis
      by (simp add: expected_regs_def proj_simps)
  next
    case (cut_killed s st n)
    from * [OF cut_killed(1,2)] cut_killed(7) show ?thesis
      by (simp add: expected_regs_def proj_simps)
  next
    case (cut_handler s st n)
    from * [OF cut_handler(1,2)] cut_handler(7) show ?thesis
      by (simp add: expected_regs_def proj_simps)
  next
    case (serving s)
    from * [OF serving(1,2)] serving(4) show ?thesis by (simp add: expected_regs_def)
  qed
qed

theorem setup_registers_dlog_and_klog_witness:
  "core_runs (trace (run env_sigterm argv0)) \<noteq> [] \<and>
   registrations (trace (run env_sigterm argv0)) =
     [(dlog_intvl env_sigterm, Fn_debug_log_flush, register_dlog env_sigterm),
      (klog_intvl env_sigterm, Fn_klog_flush, register_klog env_sigterm)] \<and>
   register_dlog env_sigterm \<noteq> None \<and> register_klog env_sigterm \<noteq> None"
proof -
  have c: "core_runs (trace (run env_sigterm argv0)) \<noteq> []"
    by (simp add: run_env_sigterm eval_simps)
  with setup_registers_dlog_and_klog [of env_sigterm argv0] show ?thesis by blast
qed

text \<open>
  The claim C3 as stated fails: a setup that succeeds registers two callbacks, the
  debug-log flush and the command-log flush, not three; no expiration sweep is among them.
\<close>

theorem two_callbacks_registered:
  "core_runs (trace (run env_ok argv0)) \<noteq> [] \<and>
   map (\<lambda>(i, f, t). f) (registrations (trace (run env_ok argv0))) =
     [Fn_debug_log_flush, Fn_klog_flush] \<and>
   length (registrations (trace (run env_ok argv0))) \<noteq> 3"
  by (simp add: run_env_ok eval_simps)

text \<open>
  C4, as the code has it. A run in which a call reported a fatal failure (\<^verbatim>\<open>atexit\<close>,
  \<^verbatim>\<open>signal_override\<close>, \<^verbatim>\<open>debug_setup\<close>, \<^verbatim>\<open>core_admin_register\<close>, \<^verbatim>\<open>option_load_default\<close>,
  \<^verbatim>\<open>option_load_file\<close>, \<^verbatim>\<open>fopen\<close>) has one such failure, never calls \<^verbatim>\<open>core_run\<close> and does
  not serve. If no SIGTERM cuts in, it calls \<^verbatim>\<open>exit\<close> once, with the status of the
  failure's class, and that is the status of the process. If a SIGTERM cuts in after the
  failure, the process is killed or, once the handler is installed, ends with the handler's
  \<open>EX_OK\<close>. A process that ends with a status other than \<open>EX_OK\<close> has not called \<^verbatim>\<open>core_run\<close>
  and has one of the statuses \<open>EX_USAGE\<close>, \<open>EX_DATAERR\<close>, \<open>EX_OSERR\<close>, \<open>EX_CONFIG\<close>, unless
  it is \<^verbatim>\<open>core_run\<close> that ended it. The five statuses are distinct.
\<close>

theorem fatal_failure_exits_before_core_run:
  "(failures (trace (run env argv)) \<noteq> [] \<longrightarrow>
      core_runs (trace (run env argv)) = [] \<and> status (run env argv) \<noteq> Serving \<and>
      (\<exists>c. failures (trace (run env argv)) = [c] \<and> c \<in> {EX_DATAERR, EX_OSERR, EX_CONFIG} \<and>
           (\<not> interrupted (run env argv) \<longrightarrow>
              status (run env argv) = Exited c \<and> exits (trace (run env argv)) = [c]) \<and>
           (interrupted (run env argv) \<longrightarrow>
              status (run env argv) = Killed SIGTERM \<or>
              status (run env argv) = Exited EX_OK))) \<and>
   (status (run env argv) = Exited st \<and> st \<noteq> EX_OK \<longrightarrow>
      core_runs (trace (run env argv)) = [] \<and>
      st \<in> {EX_USAGE, EX_DATAERR, EX_OSERR, EX_CONFIG} \<and>
      (st = EX_USAGE \<or> failures (trace (run env argv)) = [st]) \<or>
      core_runs (trace (run env argv)) \<noteq> [] \<and> core_run_outcome env = Fails st) \<and>
   distinct [EX_OK, EX_USAGE, EX_DATAERR, EX_OSERR, EX_CONFIG]"
proof -
  have d: "distinct [EX_OK, EX_USAGE, EX_DATAERR, EX_OSERR, EX_CONFIG]"
    by (simp add: sysexits_defs)
  let ?r = "run env argv"
  let ?A = "failures (trace ?r) \<noteq> [] \<longrightarrow>
      core_runs (trace ?r) = [] \<and> status ?r \<noteq> Serving \<and>
      (\<exists>c. failures (trace ?r) = [c] \<and> c \<in> {EX_DATAERR, EX_OSERR, EX_CONFIG} \<and>
           (\<not> interrupted ?r \<longrightarrow> status ?r = Exited c \<and> exits (trace ?r) = [c]) \<and>
           (interrupted ?r \<longrightarrow> status ?r = Killed SIGTERM \<or> status ?r = Exited EX_OK))"
  let ?B = "status ?r = Exited st \<and> st \<noteq> EX_OK \<longrightarrow>
      core_runs (trace ?r) = [] \<and>
      st \<in> {EX_USAGE, EX_DATAERR, EX_OSERR, EX_CONFIG} \<and>
      (st = EX_USAGE \<or> failures (trace ?r) = [st]) \<or>
      core_runs (trace ?r) \<noteq> [] \<and> core_run_outcome env = Fails st"
  have fs: "failures (trace s) \<noteq> [] \<Longrightarrow>
      core_runs (trace s) = [] \<and>
      (\<exists>c. failures (trace s) = [c] \<and> c \<in> {EX_DATAERR, EX_OSERR, EX_CONFIG})"
    if "clean s" "Inv env (abstract s)" for s
    using Inv_facts(6) [OF that(2)] serving_state(5) [OF that] by auto
  have "?A \<and> ?B"
  proof (cases rule: run_cases [of env argv])
    case (killed s)
    with fs [OF killed(1,2)] show ?thesis by (auto simp: interrupted_def)
  next
    case (handler s)
    have "interrupted ?r" "status ?r = Exited EX_OK"
      using handler(4) by (simp_all add: interrupted_def handler_ran_def in_handler_events)
    moreover have "failures (trace ?r) = failures (trace s)"
      "core_runs (trace ?r) = core_runs (trace s)"
      using handler(4) by (simp_all add: proj_simps)
    ultimately show ?thesis using fs [OF handler(1,2)] by auto
  next
    case (exited s st')
    note f = Inv_facts [OF exited(2)] and c = clean_facts [OF exited(1)]
    note e = exit_ok_facts [OF exited(3)]
    have p: "failures (trace ?r) = failures (trace s)"
      "core_runs (trace ?r) = core_runs (trace s)" "exits (trace ?r) = [st']"
      "status ?r = Exited st'" "\<not> interrupted ?r"
      using exited(4) c
      by (simp_all add: proj_simps interrupted_def handler_ran_def not_in_exit_events)
    show ?thesis
    proof (cases "failures (trace s) = []")
      case True
      with e(1) p show ?thesis by auto
    next
      case False
      with e(2) fs [OF exited(1,2)] p show ?thesis by auto
    qed
  next
    case (cut_killed s st' n)
    have "interrupted ?r" "status ?r = Killed SIGTERM"
      using cut_killed(7) by (simp_all add: interrupted_def)
    moreover have "failures (trace ?r) = failures (trace s)"
      "core_runs (trace ?r) = core_runs (trace s)"
      using cut_killed(7) by (simp_all add: proj_simps)
    ultimately show ?thesis using fs [OF cut_killed(1,2)] by auto
  next
    case (cut_handler s st' n)
    have "interrupted ?r" "status ?r = Exited EX_OK"
      using cut_handler(7) by (simp_all add: interrupted_def handler_ran_def in_handler_events)
    moreover have "failures (trace ?r) = failures (trace s)"
      "core_runs (trace ?r) = core_runs (trace s)"
      using cut_handler(7) by (simp_all add: proj_simps)
    ultimately show ?thesis using fs [OF cut_handler(1,2)] by auto
  next
    case (serving s)
    from serving_state(5) [OF serving(1,2,3)] serving(4) show ?thesis by simp
  qed
  with d show ?thesis by blast
qed

theorem fatal_failure_exits_before_core_run_witness:
  "failures (trace (run env_debug_fail argv_conf)) \<noteq> [] \<and>
   \<not> interrupted (run env_debug_fail argv_conf) \<and>
   core_runs (trace (run env_debug_fail argv_conf)) = [] \<and>
   (\<exists>c. failures (trace (run env_debug_fail argv_conf)) = [c] \<and>
        c \<in> {EX_DATAERR, EX_OSERR, EX_CONFIG} \<and>
        status (run env_debug_fail argv_conf) = Exited c \<and>
        exits (trace (run env_debug_fail argv_conf)) = [c]) \<and>
   failures (trace (run env_debug_fail_sigterm argv_conf)) \<noteq> [] \<and>
   interrupted (run env_debug_fail_sigterm argv_conf) \<and>
   core_runs (trace (run env_debug_fail_sigterm argv_conf)) = [] \<and>
   (status (run env_debug_fail_sigterm argv_conf) = Killed SIGTERM \<or>
    status (run env_debug_fail_sigterm argv_conf) = Exited EX_OK) \<and>
   status (run env_core_fails argv0) = Exited EX_OSERR \<and> EX_OSERR \<noteq> EX_OK \<and>
   core_runs (trace (run env_core_fails argv0)) \<noteq> [] \<and>
   core_run_outcome env_core_fails = Fails EX_OSERR"
proof -
  have f: "failures (trace (run env_debug_fail argv_conf)) \<noteq> []"
    and f': "failures (trace (run env_debug_fail_sigterm argv_conf)) \<noteq> []"
    and s: "status (run env_core_fails argv0) = Exited EX_OSERR" "EX_OSERR \<noteq> EX_OK"
    and c: "core_runs (trace (run env_core_fails argv0)) \<noteq> []"
    by (simp_all add: run_env_debug_fail run_env_debug_fail_sigterm run_env_core_fails
        eval_simps)
  have i: "\<not> interrupted (run env_debug_fail argv_conf)"
    by (simp add: interrupted_def handler_ran_def run_env_debug_fail shutdown_log_def
        exit_events_def image_iff init_def)
  have i': "interrupted (run env_debug_fail_sigterm argv_conf)"
    by (simp add: interrupted_def handler_ran_def run_env_debug_fail_sigterm
        in_handler_events)
  note t = fatal_failure_exits_before_core_run [of env_debug_fail argv_conf EX_OK]
  from f i t have 1: "core_runs (trace (run env_debug_fail argv_conf)) = [] \<and>
   (\<exists>c. failures (trace (run env_debug_fail argv_conf)) = [c] \<and>
        c \<in> {EX_DATAERR, EX_OSERR, EX_CONFIG} \<and>
        status (run env_debug_fail argv_conf) = Exited c \<and>
        exits (trace (run env_debug_fail argv_conf)) = [c])"
    by blast
  note t' = fatal_failure_exits_before_core_run [of env_debug_fail_sigterm argv_conf EX_OK]
  from f' i' t' have 2: "core_runs (trace (run env_debug_fail_sigterm argv_conf)) = [] \<and>
   (status (run env_debug_fail_sigterm argv_conf) = Killed SIGTERM \<or>
    status (run env_debug_fail_sigterm argv_conf) = Exited EX_OK)"
    by blast
  from s c fatal_failure_exits_before_core_run [of env_core_fails argv0 EX_OSERR]
  have 3: "core_run_outcome env_core_fails = Fails EX_OSERR" by blast
  from f i 1 f' i' 2 s c 3 show ?thesis by blast
qed

text \<open>
  The claim C4 as stated fails: when \<^verbatim>\<open>debug_setup\<close> fails and a SIGTERM arrives before the
  next call, the handler ends the process, whose status is \<open>EX_OK\<close> and not \<open>EX_CONFIG\<close>.
\<close>

theorem failure_then_sigterm_exits_ok:
  "failures (trace (run env_debug_fail_sigterm argv_conf)) = [EX_CONFIG] \<and>
   setup_failures (trace (run env_debug_fail_sigterm argv_conf)) = [Debug] \<and>
   status (run env_debug_fail_sigterm argv_conf) = Exited EX_OK \<and>
   exits (trace (run env_debug_fail_sigterm argv_conf)) = [EX_OK] \<and>
   EX_OK = 0"
  by (simp add: run_env_debug_fail_sigterm eval_simps)


lemma pidfile_state:
  assumes "clean s" and "Inv env (abstract s)"
  shows "creates (trace s) = [] \<Longrightarrow> removes (trace s) = []"
    and "setup_failures (trace s) \<noteq> [] \<Longrightarrow> creates (trace s) = [] \<and> removes (trace s) = []"
    and "creates (trace s) \<noteq> [] \<Longrightarrow>
           sigterm_shutdown s \<and> atexit_teardown s \<and>
           (\<exists>g. pid_filename env = Some g \<and> creates (trace s) = [g])"
    and "removes (trace s) \<noteq> [] \<Longrightarrow>
           \<exists>g pre. pid_filename env = Some g \<and> creates (trace s) = [g] \<and>
             removes (trace s) = [g] \<and> failures (trace s) = [EX_CONFIG] \<and>
             trace s = pre @ [Remove_pidfile g] \<and> creates pre = [g] \<and> removes pre = [] \<and>
             failures pre = [EX_CONFIG]"
proof -
  note f = Inv_facts [OF assms(2)]
  from f(7,8) show a: "creates (trace s) = [] \<Longrightarrow> removes (trace s) = []" by auto
  from f(7) a
  show "setup_failures (trace s) \<noteq> [] \<Longrightarrow> creates (trace s) = [] \<and> removes (trace s) = []"
    by auto
  from f(7) f(3)
  show c: "creates (trace s) \<noteq> [] \<Longrightarrow>
           sigterm_shutdown s \<and> atexit_teardown s \<and>
           (\<exists>g. pid_filename env = Some g \<and> creates (trace s) = [g])"
    by (auto simp: pid_list_def split: option.splits)
  show "\<exists>g pre. pid_filename env = Some g \<and> creates (trace s) = [g] \<and>
             removes (trace s) = [g] \<and> failures (trace s) = [EX_CONFIG] \<and>
             trace s = pre @ [Remove_pidfile g] \<and> creates pre = [g] \<and> removes pre = [] \<and>
             failures pre = [EX_CONFIG]"
    if r: "removes (trace s) \<noteq> []"
  proof -
    from r a have "creates (trace s) \<noteq> []" by blast
    with c obtain g where g: "pid_filename env = Some g" "creates (trace s) = [g]" by blast
    from r f(8) g have rm: "removes (trace s) = [g]"
      and l: "last_event (trace s) = Some (Remove_pidfile g)"
      and fl: "failures (trace s) = [EX_CONFIG]"
      by auto
    from last_notable [OF l] have tr: "trace s = butlast (trace s) @ [Remove_pidfile g]" .
    from tr rm have "removes (butlast (trace s) @ [Remove_pidfile g]) = [g]" by simp
    then have 1: "removes (butlast (trace s)) = []" by (simp add: proj_simps)
    from tr g(2) have "creates (butlast (trace s) @ [Remove_pidfile g]) = [g]" by simp
    then have 2: "creates (butlast (trace s)) = [g]" by (simp add: proj_simps)
    from tr fl have "failures (butlast (trace s) @ [Remove_pidfile g]) = [EX_CONFIG]" by simp
    then have 3: "failures (butlast (trace s)) = [EX_CONFIG]" by (simp add: proj_simps)
    from g rm fl tr 1 2 3 show ?thesis by blast
  qed
qed

text \<open>
  C10, as the code has it. \<^verbatim>\<open>remove_pidfile\<close> is called only on the error path of
  \<^verbatim>\<open>setup\<close>, once, on the name \<^verbatim>\<open>create_pidfile\<close> was called with, after a call has
  failed; what follows it is \<^verbatim>\<open>exit(EX_CONFIG)\<close>, or the handler if a SIGTERM arrives
  first. A run in which \<^verbatim>\<open>create_pidfile\<close> was not called never calls \<^verbatim>\<open>remove_pidfile\<close>,
  and a failure of \<^verbatim>\<open>debug_setup\<close> comes before the pid file: in such a run neither is
  called. If a call fails after the pid file was created and no SIGTERM cuts in, the run
  ends with \<^verbatim>\<open>remove_pidfile\<close>, \<^verbatim>\<open>exit(EX_CONFIG)\<close> and the whole of \<^verbatim>\<open>teardown\<close>, and its
  status is \<open>EX_CONFIG\<close>. If a SIGTERM cuts in, the handler ends the process with \<open>EX_OK\<close>;
  the handler removes no pid file, so the file stays when the signal came before
  \<^verbatim>\<open>remove_pidfile\<close>.
\<close>

theorem setup_error_removes_pidfile:
  "(creates (trace (run env argv)) = [] \<longrightarrow> removes (trace (run env argv)) = []) \<and>
   (setup_failures (trace (run env argv)) \<noteq> [] \<longrightarrow>
      creates (trace (run env argv)) = [] \<and> removes (trace (run env argv)) = []) \<and>
   (removes (trace (run env argv)) \<noteq> [] \<longrightarrow>
      (\<exists>f pre post. pid_filename env = Some f \<and> creates (trace (run env argv)) = [f] \<and>
         removes (trace (run env argv)) = [f] \<and>
         trace (run env argv) = pre @ Remove_pidfile f # post \<and>
         creates pre = [f] \<and> failures pre = [EX_CONFIG] \<and>
         ((\<exists>post'. post = Exit EX_CONFIG # post') \<or>
          (\<exists>post'. post = shutdown_log SIGTERM # post')))) \<and>
   (creates (trace (run env argv)) \<noteq> [] \<and> failures (trace (run env argv)) \<noteq> [] \<and>
    \<not> interrupted (run env argv) \<longrightarrow>
      status (run env argv) = Exited EX_CONFIG \<and>
      (\<exists>f pre. pid_filename env = Some f \<and>
         trace (run env argv) =
           pre @ [Remove_pidfile f, Exit EX_CONFIG] @ map Teardown teardown_order \<and>
         creates pre = [f] \<and> removes pre = [])) \<and>
   (creates (trace (run env argv)) \<noteq> [] \<and> failures (trace (run env argv)) \<noteq> [] \<and>
    interrupted (run env argv) \<longrightarrow>
      status (run env argv) = Exited EX_OK \<and> handler_ran (run env argv)) \<and>
   (handler_ran (run env argv) \<longrightarrow>
      (\<exists>pre post. trace (run env argv) = pre @ shutdown_log SIGTERM # post \<and>
         shutdown_log SIGTERM \<notin> set pre \<and> removes post = []))"
proof -
  let ?r = "run env argv"
  let ?C3 = "removes (trace ?r) \<noteq> [] \<longrightarrow>
      (\<exists>f pre post. pid_filename env = Some f \<and> creates (trace ?r) = [f] \<and>
         removes (trace ?r) = [f] \<and> trace ?r = pre @ Remove_pidfile f # post \<and>
         creates pre = [f] \<and> failures pre = [EX_CONFIG] \<and>
         ((\<exists>post'. post = Exit EX_CONFIG # post') \<or>
          (\<exists>post'. post = shutdown_log SIGTERM # post')))"
  let ?C4 = "creates (trace ?r) \<noteq> [] \<and> failures (trace ?r) \<noteq> [] \<and> \<not> interrupted ?r \<longrightarrow>
      status ?r = Exited EX_CONFIG \<and>
      (\<exists>f pre. pid_filename env = Some f \<and>
         trace ?r = pre @ [Remove_pidfile f, Exit EX_CONFIG] @ map Teardown teardown_order \<and>
         creates pre = [f] \<and> removes pre = [])"
  let ?C5 = "creates (trace ?r) \<noteq> [] \<and> failures (trace ?r) \<noteq> [] \<and> interrupted ?r \<longrightarrow>
      status ?r = Exited EX_OK \<and> handler_ran ?r"
  let ?C6 = "handler_ran ?r \<longrightarrow>
      (\<exists>pre post. trace ?r = pre @ shutdown_log SIGTERM # post \<and>
         shutdown_log SIGTERM \<notin> set pre \<and> removes post = [])"
  text \<open>What every way of ending shares: the run extends the trace of \<open>s\<close> by \<open>x\<close>.\<close>
  have shared: "(creates (trace ?r) = [] \<longrightarrow> removes (trace ?r) = []) \<and>
      (setup_failures (trace ?r) \<noteq> [] \<longrightarrow>
         creates (trace ?r) = [] \<and> removes (trace ?r) = []) \<and> ?C3"
    if s: "clean s" "Inv env (abstract s)" and tr: "trace ?r = trace s @ x"
      and x: "creates x = [] \<and> removes x = [] \<and> setup_failures x = []"
      and h: "removes (trace s) \<noteq> [] \<longrightarrow>
                (\<exists>x'. x = Exit EX_CONFIG # x') \<or> (\<exists>x'. x = shutdown_log SIGTERM # x')"
    for s x
  proof -
    note p = pidfile_state [OF s]
    have e: "creates (trace ?r) = creates (trace s)" "removes (trace ?r) = removes (trace s)"
      "setup_failures (trace ?r) = setup_failures (trace s)"
      using tr x by (simp_all add: proj_simps)
    have ?C3
    proof
      assume "removes (trace ?r) \<noteq> []"
      with e have n: "removes (trace s) \<noteq> []" by simp
      from p(4) [OF n] obtain g pre where g: "pid_filename env = Some g"
        "creates (trace s) = [g]" "removes (trace s) = [g]"
        "trace s = pre @ [Remove_pidfile g]" "creates pre = [g]" "failures pre = [EX_CONFIG]"
        by blast
      from g(4) tr have "trace ?r = pre @ Remove_pidfile g # x" by simp
      with g e h n
      show "\<exists>f pre post. pid_filename env = Some f \<and> creates (trace ?r) = [f] \<and>
         removes (trace ?r) = [f] \<and> trace ?r = pre @ Remove_pidfile f # post \<and>
         creates pre = [f] \<and> failures pre = [EX_CONFIG] \<and>
         ((\<exists>post'. post = Exit EX_CONFIG # post') \<or>
          (\<exists>post'. post = shutdown_log SIGTERM # post'))"
        by (intro exI [of _ g] exI [of _ pre] exI [of _ x]) simp
    qed
    with p(1,2) e show ?thesis by simp
  qed
  have removed: "sigterm_shutdown s \<and> failures (trace s) = [EX_CONFIG]"
    if "clean s" "Inv env (abstract s)" "removes (trace s) \<noteq> []" for s
    using pidfile_state(3,4) [OF that(1,2)] pidfile_state(1) [OF that(1,2)] that(3) by auto
  have "(creates (trace ?r) = [] \<longrightarrow> removes (trace ?r) = []) \<and>
      (setup_failures (trace ?r) \<noteq> [] \<longrightarrow>
         creates (trace ?r) = [] \<and> removes (trace ?r) = []) \<and> ?C3 \<and> ?C4 \<and> ?C5 \<and> ?C6"
  proof (cases rule: run_cases [of env argv])
    case (killed s)
    note c = clean_facts [OF killed(1)]
    have tr: "trace ?r = trace s @ []" using killed(4) by simp
    have x: "creates [] = [] \<and> removes [] = [] \<and> setup_failures [] = []"
      by (simp add: proj_simps)
    have h: "removes (trace s) \<noteq> [] \<longrightarrow>
        (\<exists>x'. [] = Exit EX_CONFIG # x') \<or> (\<exists>x'. [] = shutdown_log SIGTERM # x')"
      using removed [OF killed(1,2)] killed(3) by blast
    have 1: "(creates (trace ?r) = [] \<longrightarrow> removes (trace ?r) = []) \<and>
      (setup_failures (trace ?r) \<noteq> [] \<longrightarrow>
         creates (trace ?r) = [] \<and> removes (trace ?r) = []) \<and> ?C3"
      by (rule shared [OF killed(1,2) tr x h])
    from pidfile_state(3) [OF killed(1,2)] killed(3,4) have "creates (trace ?r) = []"
      by auto
    moreover from killed(4) c have "\<not> handler_ran ?r" "interrupted ?r"
      by (simp_all add: handler_ran_def interrupted_def)
    ultimately show ?thesis using 1 by simp
  next
    case (handler s)
    note c = clean_facts [OF handler(1)]
    let ?x = "handler_events SIGTERM (slimcache_tev s) @ exit_events EX_OK (atexit_teardown s)"
    have tr: "trace ?r = trace s @ ?x" using handler(4) by simp
    have x: "creates ?x = [] \<and> removes ?x = [] \<and> setup_failures ?x = []"
      by (simp add: proj_simps)
    have h: "removes (trace s) \<noteq> [] \<longrightarrow>
        (\<exists>x'. ?x = Exit EX_CONFIG # x') \<or> (\<exists>x'. ?x = shutdown_log SIGTERM # x')"
      by (simp add: handler_events_def)
    have 1: "(creates (trace ?r) = [] \<longrightarrow> removes (trace ?r) = []) \<and>
      (setup_failures (trace ?r) \<noteq> [] \<longrightarrow>
         creates (trace ?r) = [] \<and> removes (trace ?r) = []) \<and> ?C3"
      by (rule shared [OF handler(1,2) tr x h])
    have i: "handler_ran ?r" "interrupted ?r" "status ?r = Exited EX_OK"
      using handler(4) by (simp_all add: handler_ran_def interrupted_def in_handler_events)
    have "trace ?r = trace s @ shutdown_log SIGTERM #
        (tl (handler_events SIGTERM (slimcache_tev s)) @
         exit_events EX_OK (atexit_teardown s)) \<and>
      shutdown_log SIGTERM \<notin> set (trace s) \<and>
      removes (tl (handler_events SIGTERM (slimcache_tev s)) @
         exit_events EX_OK (atexit_teardown s)) = []"
      using tr c by (simp add: handler_events_def proj_simps flag_store_def)
    then have ?C6 by blast
    with 1 i show ?thesis by simp
  next
    case (exited s st)
    note c = clean_facts [OF exited(1)] and p = pidfile_state [OF exited(1,2)]
    note e = exit_ok_facts [OF exited(3)] and f = Inv_facts [OF exited(2)]
    let ?x = "exit_events st (atexit_teardown s)"
    have tr: "trace ?r = trace s @ ?x" using exited(4) by simp
    have x: "creates ?x = [] \<and> removes ?x = [] \<and> setup_failures ?x = []"
      by (simp add: proj_simps)
    have h: "removes (trace s) \<noteq> [] \<longrightarrow>
        (\<exists>x'. ?x = Exit EX_CONFIG # x') \<or> (\<exists>x'. ?x = shutdown_log SIGTERM # x')"
      using removed [OF exited(1,2)] e(2) by (auto simp: exit_events_def)
    have 1: "(creates (trace ?r) = [] \<longrightarrow> removes (trace ?r) = []) \<and>
      (setup_failures (trace ?r) \<noteq> [] \<longrightarrow>
         creates (trace ?r) = [] \<and> removes (trace ?r) = []) \<and> ?C3"
      by (rule shared [OF exited(1,2) tr x h])
    have i: "\<not> handler_ran ?r" "\<not> interrupted ?r" "status ?r = Exited st"
      using exited(4) c
      by (simp_all add: handler_ran_def interrupted_def not_in_exit_events)
    have ?C4
    proof (intro impI, elim conjE)
      assume "creates (trace ?r) \<noteq> []" "failures (trace ?r) \<noteq> []"
      with tr have n: "creates (trace s) \<noteq> []" "failures (trace s) \<noteq> []"
        by (simp_all add: proj_simps)
      from p(3) [OF n(1)] obtain g where g: "sigterm_shutdown s" "atexit_teardown s"
        "pid_filename env = Some g" "creates (trace s) = [g]" by blast
      from f(7) n have "failures (trace s) = [EX_CONFIG]" by auto
      with e(2) n(2) have st: "st = EX_CONFIG" and k: "core_runs (trace s) = []" by auto
      from e(3) [OF st k] n(1) have "removes (trace s) \<noteq> []" by simp
      from p(4) [OF this] g(3) obtain pre where pre: "trace s = pre @ [Remove_pidfile g]"
        "creates pre = [g]" "removes pre = []" by auto
      from tr pre(1) st g(2)
      have "trace ?r = pre @ [Remove_pidfile g, Exit EX_CONFIG] @ map Teardown teardown_order"
        by (simp add: exit_events_def)
      with pre g(3) i(3) st
      show "status ?r = Exited EX_CONFIG \<and>
        (\<exists>f pre. pid_filename env = Some f \<and>
           trace ?r = pre @ [Remove_pidfile f, Exit EX_CONFIG] @ map Teardown teardown_order \<and>
           creates pre = [f] \<and> removes pre = [])"
        by blast
    qed
    with 1 i show ?thesis by simp
  next
    case (cut_killed s st n)
    note c = clean_facts [OF cut_killed(1)]
    let ?x = "Exit st # map Teardown (take n teardown_order)"
    have tr: "trace ?r = trace s @ ?x" using cut_killed(7) by simp
    have x: "creates ?x = [] \<and> removes ?x = [] \<and> setup_failures ?x = []"
      by (simp add: proj_simps)
    have h: "removes (trace s) \<noteq> [] \<longrightarrow>
        (\<exists>x'. ?x = Exit EX_CONFIG # x') \<or> (\<exists>x'. ?x = shutdown_log SIGTERM # x')"
      using removed [OF cut_killed(1,2)] cut_killed(5) by blast
    have 1: "(creates (trace ?r) = [] \<longrightarrow> removes (trace ?r) = []) \<and>
      (setup_failures (trace ?r) \<noteq> [] \<longrightarrow>
         creates (trace ?r) = [] \<and> removes (trace ?r) = []) \<and> ?C3"
      by (rule shared [OF cut_killed(1,2) tr x h])
    from pidfile_state(3) [OF cut_killed(1,2)] cut_killed(5) tr
    have "creates (trace ?r) = []" by (auto simp: proj_simps)
    moreover from cut_killed(7) c have "\<not> handler_ran ?r"
      by (auto simp: handler_ran_def shutdown_log_def)
    ultimately show ?thesis using 1 by simp
  next
    case (cut_handler s st n)
    note c = clean_facts [OF cut_handler(1)]
    note e = exit_ok_facts [OF cut_handler(3)]
    let ?x = "Exit st # map Teardown (take n teardown_order) @
              handler_events SIGTERM (slimcache_tev s) @ [Exit EX_OK]"
    have tr: "trace ?r = trace s @ ?x" using cut_handler(7) by simp
    have x: "creates ?x = [] \<and> removes ?x = [] \<and> setup_failures ?x = []"
      by (simp add: proj_simps)
    have h: "removes (trace s) \<noteq> [] \<longrightarrow>
        (\<exists>x'. ?x = Exit EX_CONFIG # x') \<or> (\<exists>x'. ?x = shutdown_log SIGTERM # x')"
      using removed [OF cut_handler(1,2)] e(2) by auto
    have 1: "(creates (trace ?r) = [] \<longrightarrow> removes (trace ?r) = []) \<and>
      (setup_failures (trace ?r) \<noteq> [] \<longrightarrow>
         creates (trace ?r) = [] \<and> removes (trace ?r) = []) \<and> ?C3"
      by (rule shared [OF cut_handler(1,2) tr x h])
    have i: "handler_ran ?r" "interrupted ?r" "status ?r = Exited EX_OK"
      using cut_handler(7)
      by (simp_all add: handler_ran_def interrupted_def in_handler_events)
    let ?pre = "trace s @ Exit st # map Teardown (take n teardown_order)"
    have "trace ?r = ?pre @ shutdown_log SIGTERM #
        (tl (handler_events SIGTERM (slimcache_tev s)) @ [Exit EX_OK]) \<and>
      shutdown_log SIGTERM \<notin> set ?pre \<and>
      removes (tl (handler_events SIGTERM (slimcache_tev s)) @ [Exit EX_OK]) = []"
      using tr c
      by (auto simp: handler_events_def proj_simps flag_store_def shutdown_log_def)
    then have ?C6 by blast
    with 1 i show ?thesis by simp
  next
    case (serving s)
    note c = clean_facts [OF serving(1)]
    have tr: "trace ?r = trace s @ []" using serving(4) by simp
    have x: "creates [] = [] \<and> removes [] = [] \<and> setup_failures [] = []"
      by (simp add: proj_simps)
    have h: "removes (trace s) \<noteq> [] \<longrightarrow>
        (\<exists>x'. [] = Exit EX_CONFIG # x') \<or> (\<exists>x'. [] = shutdown_log SIGTERM # x')"
      using serving_state(5) [OF serving(1,2,3)] removed [OF serving(1,2)] by auto
    have 1: "(creates (trace ?r) = [] \<longrightarrow> removes (trace ?r) = []) \<and>
      (setup_failures (trace ?r) \<noteq> [] \<longrightarrow>
         creates (trace ?r) = [] \<and> removes (trace ?r) = []) \<and> ?C3"
      by (rule shared [OF serving(1,2) tr x h])
    from serving_state(5) [OF serving(1,2,3)] serving(4)
    have "failures (trace ?r) = []" by simp
    moreover from serving(4) c have "\<not> handler_ran ?r" by (simp add: handler_ran_def)
    ultimately show ?thesis using 1 by simp
  qed
  then show ?thesis by blast
qed

theorem setup_error_removes_pidfile_witness:
  "creates (trace (run env_klog_fail argv_conf)) \<noteq> [] \<and>
   failures (trace (run env_klog_fail argv_conf)) \<noteq> [] \<and>
   \<not> interrupted (run env_klog_fail argv_conf) \<and>
   status (run env_klog_fail argv_conf) = Exited EX_CONFIG \<and>
   (\<exists>f pre. pid_filename env_klog_fail = Some f \<and>
      trace (run env_klog_fail argv_conf) =
        pre @ [Remove_pidfile f, Exit EX_CONFIG] @ map Teardown teardown_order \<and>
      creates pre = [f] \<and> removes pre = []) \<and>
   setup_failures (trace (run env_debug_fail argv_conf)) \<noteq> [] \<and>
   creates (trace (run env_debug_fail argv_conf)) = [] \<and>
   removes (trace (run env_debug_fail argv_conf)) = [] \<and>
   creates (trace (run env_klog_fail_sigterm argv_conf)) \<noteq> [] \<and>
   failures (trace (run env_klog_fail_sigterm argv_conf)) \<noteq> [] \<and>
   interrupted (run env_klog_fail_sigterm argv_conf) \<and>
   status (run env_klog_fail_sigterm argv_conf) = Exited EX_OK \<and>
   handler_ran (run env_klog_fail_sigterm argv_conf) \<and>
   (\<exists>pre post. trace (run env_klog_fail_sigterm argv_conf) =
        pre @ shutdown_log SIGTERM # post \<and>
      shutdown_log SIGTERM \<notin> set pre \<and> removes post = [])"
proof -
  have c: "creates (trace (run env_klog_fail argv_conf)) \<noteq> []"
    and f: "failures (trace (run env_klog_fail argv_conf)) \<noteq> []"
    and d: "setup_failures (trace (run env_debug_fail argv_conf)) \<noteq> []"
    and c': "creates (trace (run env_klog_fail_sigterm argv_conf)) \<noteq> []"
    and f': "failures (trace (run env_klog_fail_sigterm argv_conf)) \<noteq> []"
    by (simp_all add: run_env_klog_fail run_env_debug_fail run_env_klog_fail_sigterm
        eval_simps)
  have i: "\<not> interrupted (run env_klog_fail argv_conf)"
    by (simp add: interrupted_def handler_ran_def run_env_klog_fail shutdown_log_def
        exit_events_def image_iff init_def setup_calls_def)
  have i': "interrupted (run env_klog_fail_sigterm argv_conf)"
    by (simp add: interrupted_def handler_ran_def run_env_klog_fail_sigterm
        in_handler_events)
  note t = setup_error_removes_pidfile [of env_klog_fail argv_conf]
  from c f i t have 1: "status (run env_klog_fail argv_conf) = Exited EX_CONFIG \<and>
   (\<exists>f pre. pid_filename env_klog_fail = Some f \<and>
      trace (run env_klog_fail argv_conf) =
        pre @ [Remove_pidfile f, Exit EX_CONFIG] @ map Teardown teardown_order \<and>
      creates pre = [f] \<and> removes pre = [])"
    by blast
  from d setup_error_removes_pidfile [of env_debug_fail argv_conf]
  have 2: "creates (trace (run env_debug_fail argv_conf)) = [] \<and>
   removes (trace (run env_debug_fail argv_conf)) = []"
    by blast
  note t' = setup_error_removes_pidfile [of env_klog_fail_sigterm argv_conf]
  from c' f' i' t' have 3: "status (run env_klog_fail_sigterm argv_conf) = Exited EX_OK \<and>
   handler_ran (run env_klog_fail_sigterm argv_conf)"
    by blast
  with t' have 4: "\<exists>pre post. trace (run env_klog_fail_sigterm argv_conf) =
        pre @ shutdown_log SIGTERM # post \<and>
      shutdown_log SIGTERM \<notin> set pre \<and> removes post = []"
    by blast
  from c f i 1 d 2 c' f' i' 3 4 show ?thesis by blast
qed

text \<open>
  The claim C10 as stated fails: when the registration of the command-log event fails
  after the pid file was created and a SIGTERM arrives before the next call, the handler
  ends the process with \<open>EX_OK\<close> and the pid file is never removed.
\<close>

theorem sigterm_before_remove_pidfile:
  "creates (trace (run env_klog_fail_sigterm argv_conf)) = [''slimcache.pid''] \<and>
   failures (trace (run env_klog_fail_sigterm argv_conf)) = [EX_CONFIG] \<and>
   removes (trace (run env_klog_fail_sigterm argv_conf)) = [] \<and>
   exits (trace (run env_klog_fail_sigterm argv_conf)) = [EX_OK] \<and>
   status (run env_klog_fail_sigterm argv_conf) = Exited EX_OK \<and>
   EX_OK \<noteq> EX_CONFIG"
  by (simp add: run_env_klog_fail_sigterm eval_simps)
subsection \<open>The command line and the options\<close>

lemma strict_seq_nil: "strict (seq [])"
  by (simp add: strict_def)

lemma strict_seq_cons: "strict f \<Longrightarrow> strict (seq fs) \<Longrightarrow> strict (seq (f # fs))"
  by (simp add: strict_def)

lemma strict_id: "strict id"
  by (simp add: strict_def)

lemma strict_if: "strict f \<Longrightarrow> strict g \<Longrightarrow> strict (if c then f else g)"
  by simp

lemma strict_case_option:
  "strict f \<Longrightarrow> (\<And>y. strict (g y)) \<Longrightarrow> strict (case x of None \<Rightarrow> f | Some y \<Rightarrow> g y)"
  by (cases x) simp_all

lemma strict_call_eff: "strict (call_eff env e eff)"
  by (simp add: strict_def call_eff_def)

lemma strict_call: "strict (call env e)"
  by (simp add: call_def strict_call_eff)

lemma strict_log_stderr: "strict (log_stderr env fmt args)"
  by (simp add: log_stderr_def strict_call)

lemma strict_exit: "strict (exit p st)"
  by (simp add: strict_def exit_def)

lemmas strict_intros = strict_seq_nil strict_seq_cons strict_id strict_if strict_case_option
  strict_call_eff strict_call strict_log_stderr strict_exit

lemma strict_setup_error: "strict (setup_error env fname)"
  unfolding setup_error_def by (intro strict_intros)

lemma strict_setup_options: "strict (setup_options env)"
  unfolding setup_options_def by (intro strict_intros)

lemma strict_setup_modules: "strict (setup_modules env)"
  unfolding setup_modules_def by (intro strict_intros)

lemma strict_setup_main: "strict (setup_main env)"
  unfolding setup_main_def
  by (intro strict_intros strict_setup_error strict_setup_options strict_setup_modules)

lemma strict_core_run: "strict (core_run env p f)"
  by (simp add: strict_def core_run_def call_def call_eff_def)

lemma strict_show_usage: "strict (show_usage env)"
  unfolding show_usage_def by (intro strict_intros)

lemma strict_main_load: "strict (main_load env argv fp)"
  unfolding main_load_def by (intro strict_intros)

lemma strict_main_args: "strict (main_args env argv)"
  unfolding main_args_def by (intro strict_intros strict_show_usage)

lemma strictD: "strict f \<Longrightarrow> status s \<noteq> Running \<Longrightarrow> f s = s"
  by (simp add: strict_def)

lemmas strict_simps = strictD [OF strict_call] strictD [OF strict_exit]
  strictD [OF strict_setup_main] strictD [OF strict_core_run] strictD [OF strict_main_load]
  strictD [OF strict_main_args] strictD [OF strict_log_stderr]

lemma extending_seq_nil: "extending (seq [])"
  by (simp add: extending_def)

lemma extending_seq_cons:
  assumes "extending f" and "extending (seq fs)"
  shows "extending (seq (f # fs))"
  unfolding extending_def
proof
  fix s
  from assms(1) have "prefix (trace s) (trace (f s))" by (simp add: extending_def)
  also from assms(2) have "prefix (trace (f s)) (trace (seq fs (f s)))"
    by (simp add: extending_def)
  finally show "prefix (trace s) (trace (seq (f # fs) s))" by simp
qed

lemma extending_id: "extending id"
  by (simp add: extending_def)

lemma extending_if: "extending f \<Longrightarrow> extending g \<Longrightarrow> extending (if c then f else g)"
  by simp

lemma extending_case_option:
  "extending f \<Longrightarrow> (\<And>y. extending (g y)) \<Longrightarrow>
   extending (case x of None \<Rightarrow> f | Some y \<Rightarrow> g y)"
  by (cases x) simp_all

lemma extending_exit: "extending (exit (sigpoint env) st)"
  unfolding extending_def
proof
  fix s
  show "prefix (trace s) (trace (exit (sigpoint env) st s))"
  proof (cases "status s = Running")
    case False
    then show ?thesis by (simp add: strictD [OF strict_exit])
  next
    case True
    then show ?thesis
    proof (cases rule: exit_cases [where env = env and st = st])
      case signal
      with True show ?thesis by (simp add: deliver_eq)
    next
      case whole
      then show ?thesis by simp
    next
      case (cut n)
      with True show ?thesis by (simp add: deliver_eq)
    qed
  qed
qed

lemma extending_call_eff: "extending (call_eff env e eff)"
  unfolding extending_def
proof
  fix s
  show "prefix (trace s) (trace (call_eff env e eff s))"
    by (cases eff) (simp_all add: call_eff_def deliver_eq emit_def)
qed

lemma extending_call: "extending (call env e)"
  by (simp add: call_def extending_call_eff)

lemma extending_log_stderr: "extending (log_stderr env fmt args)"
  by (simp add: log_stderr_def extending_call)

lemmas extending_intros = extending_seq_nil extending_seq_cons extending_id extending_if
  extending_case_option extending_call_eff extending_call extending_log_stderr
  extending_exit

lemma extending_setup_error: "extending (setup_error env fname)"
  unfolding setup_error_def by (intro extending_intros)

lemma extending_setup_options: "extending (setup_options env)"
  unfolding setup_options_def by (intro extending_intros)

lemma extending_setup_modules: "extending (setup_modules env)"
  unfolding setup_modules_def by (intro extending_intros)

lemma extending_setup_main: "extending (setup_main env)"
  unfolding setup_main_def
  by (intro extending_intros extending_setup_error extending_setup_options
      extending_setup_modules)

lemma extending_core_run: "extending (core_run env p f)"
  unfolding extending_def
proof
  fix s
  from extending_call [of env "Core_run p f"]
  have "prefix (trace s) (trace (call env (Core_run p f) s))" by (simp add: extending_def)
  also have "prefix (trace (call env (Core_run p f) s)) (trace (core_run env p f s))"
    using extending_exit [of env]
    by (cases "core_run_outcome env") (simp_all add: core_run_def deliver_eq extending_def)
  finally show "prefix (trace s) (trace (core_run env p f s))" .
qed

lemma extending_main_tail:
  "prefix (trace s)
     (trace (exit (sigpoint env) EX_OK (core_run env p f (call env e (setup_main env s)))))"
proof -
  have "extending (seq [setup_main env, call env e, core_run env p f,
      exit (sigpoint env) EX_OK])"
    by (intro extending_intros extending_setup_main extending_core_run)
  then show ?thesis by (simp add: extending_def)
qed

lemma run_many:
  assumes "length argv > 2"
  shows "run env argv = exit (sigpoint env) EX_USAGE (show_usage env init)"
  using assms by (simp add: run_def main_def Let_def strict_simps status_exit)

text \<open>
  An \<^verbatim>\<open>exit\<close> after some calls, from the initial state, where nothing is registered: the
  process is killed by a signal at some point, or all the calls are made.
\<close>

lemma early_exit:
  "status (exit (sigpoint env) st (seq (map (call env) es) init)) = Killed SIGTERM \<and>
   prefix (trace (exit (sigpoint env) st (seq (map (call env) es) init))) (es @ [Exit st]) \<or>
   exit (sigpoint env) st (seq (map (call env) es) init) =
     init\<lparr>trace := es @ [Exit st], status := Exited st\<rparr>"
proof -
  have i: "status init = Running" "\<not> sigterm_shutdown init" "trace init = []"
    "\<not> atexit_teardown init"
    by (simp_all add: init_def)
  from calls_run [OF i(1), of env es] show ?thesis
  proof
    assume e: "seq (map (call env) es) init = init\<lparr>trace := trace init @ es\<rparr>"
    let ?s = "init\<lparr>trace := es\<rparr>"
    have r: "status ?s = Running" by (simp add: init_def)
    then show ?thesis
    proof (cases rule: exit_cases [where env = env and st = st])
      case signal
      with r e i show ?thesis by (simp add: deliver_eq)
    next
      case whole
      with e i show ?thesis by (simp add: exit_events_def init_def)
    next
      case (cut n)
      with e i r show ?thesis by (simp add: deliver_eq)
    qed
  next
    assume "\<exists>n<length es. sigterm env (trace init @ take n es) \<and>
      seq (map (call env) es) init = deliver_sigterm (init\<lparr>trace := trace init @ take n es\<rparr>)"
    then obtain n where
      "seq (map (call env) es) init = deliver_sigterm (init\<lparr>trace := take n es\<rparr>)"
      using i(3) by auto
    moreover have "status (init\<lparr>trace := take n es\<rparr>) = Running" by (simp add: init_def)
    ultimately show ?thesis using i
      by (simp add: deliver_eq strictD [OF strict_exit] take_is_prefix)
  qed
qed

text \<open>
  C8. With more than one argument the program makes the four \<^verbatim>\<open>log_stdout\<close> calls of
  \<^verbatim>\<open>show_usage\<close> and calls \<^verbatim>\<open>exit(EX_USAGE)\<close>, and nothing else: no option is loaded, no
  module set up, \<^verbatim>\<open>core_run\<close> not called. The only other outcome is that a SIGTERM, whose
  handler is not installed yet, kills the process before it is through.
\<close>

theorem too_many_arguments_usage:
  assumes "length argv > 2"
  shows "prefix (trace (run env argv))
           [Log_stdout usage_1, Log_stdout usage_2, Log_stdout usage_3, Log_stdout usage_4,
            Exit EX_USAGE] \<and>
         (status (run env argv) = Killed SIGTERM \<or>
          status (run env argv) = Exited EX_USAGE \<and>
          trace (run env argv) =
            [Log_stdout usage_1, Log_stdout usage_2, Log_stdout usage_3, Log_stdout usage_4,
             Exit EX_USAGE])"
proof -
  have "show_usage env init =
      seq (map (call env) [Log_stdout usage_1, Log_stdout usage_2, Log_stdout usage_3,
        Log_stdout usage_4]) init"
    by (simp add: show_usage_def)
  with early_exit [of env EX_USAGE "[Log_stdout usage_1, Log_stdout usage_2,
      Log_stdout usage_3, Log_stdout usage_4]"] run_many [OF assms, of env]
  show ?thesis by auto
qed

theorem too_many_arguments_usage_witness:
  "length argv_many > 2 \<and>
   status (run env_ok argv_many) = Exited EX_USAGE \<and>
   trace (run env_ok argv_many) =
     [Log_stdout usage_1, Log_stdout usage_2, Log_stdout usage_3, Log_stdout usage_4,
      Exit EX_USAGE]"
proof -
  have l: "length argv_many > 2" by (simp add: argv_many_def)
  have k: "status (run env_ok argv_many) \<noteq> Killed SIGTERM"
    by (simp add: run_many [OF l] show_usage_def call_def call_eff_def emit_def exit_def
      run_atexit_def ended_def made_def sigpoint_def
        env_ok_def init_def)
  from l k too_many_arguments_usage [OF l, of env_ok] show ?thesis by blast
qed

lemma run_two:
  assumes "length argv = 2"
  shows "run env argv =
     exit (sigpoint env) EX_OK (core_run env Addr_worker_processor Addr_worker_processor_running
       (call env Option_print_all (setup_main env
          (main_load env argv (fopen_ok env (argv ! 1)) (main_args env argv init)))))"
  using assms by (simp add: run_def main_def Let_def)

lemma calls_cases:
  assumes "status s = Running" and "\<not> sigterm_shutdown s"
  shows "status (seq (map (call env) es) s) = Killed SIGTERM \<or>
         seq (map (call env) es) s = s\<lparr>trace := trace s @ es\<rparr>"
  using assms
proof (induction es arbitrary: s)
  case Nil
  then show ?case by simp
next
  case (Cons e es)
  show ?case
  proof (cases "sigterm env (trace s)")
    case True
    with Cons.prems have k: "call env e s = s\<lparr>status := Killed SIGTERM\<rparr>"
      by (simp add: call_def call_eff_def deliver_sigterm_def)
    have "strict (seq (map (call env) es))"
      by (induction es) (simp_all del: seq.simps add: strict_seq_nil strict_seq_cons strict_call)
    from strictD [OF this, of "call env e s"] k
    have "seq (map (call env) es) (call env e s) = s\<lparr>status := Killed SIGTERM\<rparr>"
      by simp
    then show ?thesis by simp
  next
    case False
    with Cons.prems have k: "call env e s = s\<lparr>trace := trace s @ [e]\<rparr>"
      by (simp add: call_def call_eff_def emit_def)
    with Cons.prems Cons.IH [of "s\<lparr>trace := trace s @ [e]\<rparr>"] show ?thesis by simp
  qed
qed

lemma config_cases:
  assumes "\<not> is_opt (argv ! 1) ''-h'' ''--help''"
    and "\<not> is_opt (argv ! 1) ''-v'' ''--version''"
    and "\<not> is_opt (argv ! 1) ''-c'' ''--config''"
    and "\<not> is_opt (argv ! 1) ''-s'' ''--stats''"
  shows "status (main_load env argv (fopen_ok env (argv ! 1)) (main_args env argv init)) =
           Killed SIGTERM \<or>
         main_load env argv (fopen_ok env (argv ! 1)) (main_args env argv init) =
          (if \<not> fopen_ok env (argv ! 1)
           then init\<lparr>trace :=
                  [Fopen (argv ! 1) ''r'' False,
                   Log_stderr ''cannot open config: incorrect path or doesn't exist'' [],
                   Exit EX_DATAERR],
                  status := Exited EX_DATAERR\<rparr>
           else if \<not> load_default_ok env
           then init\<lparr>trace :=
                  [Fopen (argv ! 1) ''r'' True, Option_load_default False,
                   Log_stderr ''failed to load default option values'' [],
                   Exit EX_CONFIG],
                  status := Exited EX_CONFIG\<rparr>
           else if \<not> load_file_ok env
           then init\<lparr>trace :=
                  [Fopen (argv ! 1) ''r'' True, Option_load_default True,
                   Log_stderr ''load config from %s'' [Arg_str (argv ! 1)],
                   Option_load_file False, Fclose,
                   Log_stderr ''failed to load config'' [],
                   Exit EX_DATAERR],
                  status := Exited EX_DATAERR\<rparr>
           else init\<lparr>trace :=
                  [Fopen (argv ! 1) ''r'' True, Option_load_default True,
                   Log_stderr ''load config from %s'' [Arg_str (argv ! 1)],
                   Option_load_file True, Fclose]\<rparr>)"
    (is "status ?c = _ \<or> ?c = ?e")
proof -
  have i: "status init = Running" "\<not> sigterm_shutdown init" "trace init = []"
    "\<not> atexit_teardown init"
    by (simp_all add: init_def)
  have fin: "status (exit (sigpoint env) st (seq (map (call env) es) init)) = Killed SIGTERM \<or>
      exit (sigpoint env) st (seq (map (call env) es) init) =
        init\<lparr>trace := es @ [Exit st], status := Exited st\<rparr>" for st es
    using early_exit [of env st es] by blast
  consider (nofile) "\<not> fopen_ok env (argv ! 1)"
    | (nodefault) "fopen_ok env (argv ! 1)" "\<not> load_default_ok env"
    | (badfile) "fopen_ok env (argv ! 1)" "load_default_ok env" "\<not> load_file_ok env"
    | (loaded) "fopen_ok env (argv ! 1)" "load_default_ok env" "load_file_ok env"
    by blast
  then show ?thesis
  proof cases
    case nofile
    with assms have "?c = exit (sigpoint env) EX_DATAERR (seq (map (call env)
        [Fopen (argv ! 1) ''r'' False,
         Log_stderr ''cannot open config: incorrect path or doesn't exist'' []]) init)"
      by (simp add: main_args_def main_load_def log_stderr_def strict_simps status_exit)
    with fin [of EX_DATAERR "[Fopen (argv ! 1) ''r'' False,
         Log_stderr ''cannot open config: incorrect path or doesn't exist'' []]"] nofile
    show ?thesis by simp
  next
    case nodefault
    with assms have "?c = exit (sigpoint env) EX_CONFIG (seq (map (call env)
        [Fopen (argv ! 1) ''r'' True, Option_load_default False,
         Log_stderr ''failed to load default option values'' []]) init)"
      by (simp add: main_args_def main_load_def log_stderr_def strict_simps status_exit)
    with fin [of EX_CONFIG "[Fopen (argv ! 1) ''r'' True, Option_load_default False,
         Log_stderr ''failed to load default option values'' []]"] nodefault
    show ?thesis by simp
  next
    case badfile
    with assms have "?c = exit (sigpoint env) EX_DATAERR (seq (map (call env)
        [Fopen (argv ! 1) ''r'' True, Option_load_default True,
         Log_stderr ''load config from %s'' [Arg_str (argv ! 1)],
         Option_load_file False, Fclose,
         Log_stderr ''failed to load config'' []]) init)"
      by (simp add: main_args_def main_load_def log_stderr_def strict_simps status_exit)
    with fin [of EX_DATAERR "[Fopen (argv ! 1) ''r'' True, Option_load_default True,
         Log_stderr ''load config from %s'' [Arg_str (argv ! 1)],
         Option_load_file False, Fclose,
         Log_stderr ''failed to load config'' []]"] badfile
    show ?thesis by simp
  next
    case loaded
    with assms have "?c = seq (map (call env)
        [Fopen (argv ! 1) ''r'' True, Option_load_default True,
         Log_stderr ''load config from %s'' [Arg_str (argv ! 1)],
         Option_load_file True, Fclose]) init"
      by (simp add: main_args_def main_load_def log_stderr_def)
    with calls_cases [OF i(1,2), of env "[Fopen (argv ! 1) ''r'' True, Option_load_default True,
         Log_stderr ''load config from %s'' [Arg_str (argv ! 1)],
         Option_load_file True, Fclose]"] i(3) loaded
    show ?thesis by simp
  qed
qed

text \<open>
  C9. With one argument that is none of the eight option spellings, the argument is the
  path of the configuration file. In a run that no SIGTERM cuts short: if \<^verbatim>\<open>fopen\<close>
  fails, the process logs and exits with \<open>EX_DATAERR\<close>, and no option is loaded; if it
  succeeds, \<^verbatim>\<open>option_load_default\<close> is called first (its failure exits with \<open>EX_CONFIG\<close>),
  then \<^verbatim>\<open>option_load_file\<close> and \<^verbatim>\<open>fclose\<close>; a failure of \<^verbatim>\<open>option_load_file\<close> exits with
  \<open>EX_DATAERR\<close>. None of the three exits is preceded by a call of \<^verbatim>\<open>setup\<close>; when all
  succeed, the rest of the run follows these five calls.
\<close>

theorem config_file_argument:
  assumes "length argv = 2"
    and "\<not> is_opt (argv ! 1) ''-h'' ''--help''"
    and "\<not> is_opt (argv ! 1) ''-v'' ''--version''"
    and "\<not> is_opt (argv ! 1) ''-c'' ''--config''"
    and "\<not> is_opt (argv ! 1) ''-s'' ''--stats''"
    and "\<not> interrupted (run env argv)"
  shows
    "(\<not> fopen_ok env (argv ! 1) \<longrightarrow>
        status (run env argv) = Exited EX_DATAERR \<and>
        trace (run env argv) =
          [Fopen (argv ! 1) ''r'' False,
           Log_stderr ''cannot open config: incorrect path or doesn't exist'' [],
           Exit EX_DATAERR]) \<and>
     (fopen_ok env (argv ! 1) \<and> \<not> load_default_ok env \<longrightarrow>
        status (run env argv) = Exited EX_CONFIG \<and>
        trace (run env argv) =
          [Fopen (argv ! 1) ''r'' True, Option_load_default False,
           Log_stderr ''failed to load default option values'' [],
           Exit EX_CONFIG]) \<and>
     (fopen_ok env (argv ! 1) \<and> load_default_ok env \<and> \<not> load_file_ok env \<longrightarrow>
        status (run env argv) = Exited EX_DATAERR \<and>
        trace (run env argv) =
          [Fopen (argv ! 1) ''r'' True, Option_load_default True,
           Log_stderr ''load config from %s'' [Arg_str (argv ! 1)],
           Option_load_file False, Fclose,
           Log_stderr ''failed to load config'' [],
           Exit EX_DATAERR]) \<and>
     (fopen_ok env (argv ! 1) \<and> load_default_ok env \<and> load_file_ok env \<longrightarrow>
        prefix
          [Fopen (argv ! 1) ''r'' True, Option_load_default True,
           Log_stderr ''load config from %s'' [Arg_str (argv ! 1)],
           Option_load_file True, Fclose]
          (trace (run env argv)))"
proof -
  let ?c = "main_load env argv (fopen_ok env (argv ! 1)) (main_args env argv init)"
  note r = run_two [OF assms(1), of env]
  from config_cases [OF assms(2-5), of env] consider
    (killed) "status ?c = Killed SIGTERM"
    | (nofile) "\<not> fopen_ok env (argv ! 1)"
        "?c = init\<lparr>trace :=
                  [Fopen (argv ! 1) ''r'' False,
                   Log_stderr ''cannot open config: incorrect path or doesn't exist'' [],
                   Exit EX_DATAERR],
                  status := Exited EX_DATAERR\<rparr>"
    | (nodefault) "fopen_ok env (argv ! 1)" "\<not> load_default_ok env"
        "?c = init\<lparr>trace :=
                  [Fopen (argv ! 1) ''r'' True, Option_load_default False,
                   Log_stderr ''failed to load default option values'' [],
                   Exit EX_CONFIG],
                  status := Exited EX_CONFIG\<rparr>"
    | (badfile) "fopen_ok env (argv ! 1)" "load_default_ok env" "\<not> load_file_ok env"
        "?c = init\<lparr>trace :=
                  [Fopen (argv ! 1) ''r'' True, Option_load_default True,
                   Log_stderr ''load config from %s'' [Arg_str (argv ! 1)],
                   Option_load_file False, Fclose,
                   Log_stderr ''failed to load config'' [],
                   Exit EX_DATAERR],
                  status := Exited EX_DATAERR\<rparr>"
    | (loaded) "fopen_ok env (argv ! 1)" "load_default_ok env" "load_file_ok env"
        "?c = init\<lparr>trace :=
                  [Fopen (argv ! 1) ''r'' True, Option_load_default True,
                   Log_stderr ''load config from %s'' [Arg_str (argv ! 1)],
                   Option_load_file True, Fclose]\<rparr>"
    by (auto split: if_splits)
  then show ?thesis
  proof cases
    case killed
    then have "run env argv = ?c" by (simp add: r strict_simps)
    with killed assms(6) show ?thesis by (simp add: interrupted_def)
  next
    case nofile
    from nofile(2) have "status ?c \<noteq> Running" by simp
    then have "run env argv = ?c" by (simp add: r strict_simps)
    with nofile show ?thesis by simp
  next
    case nodefault
    from nodefault(3) have "status ?c \<noteq> Running" by simp
    then have "run env argv = ?c" by (simp add: r strict_simps)
    with nodefault show ?thesis by simp
  next
    case badfile
    from badfile(4) have "status ?c \<noteq> Running" by simp
    then have "run env argv = ?c" by (simp add: r strict_simps)
    with badfile show ?thesis by simp
  next
    case loaded
    from extending_main_tail [of ?c env Addr_worker_processor Addr_worker_processor_running
        Option_print_all]
    have "prefix (trace ?c) (trace (run env argv))" by (simp add: r)
    with loaded show ?thesis by simp
  qed
qed

theorem config_file_argument_witness:
  "length argv_conf = 2 \<and>
   \<not> is_opt (argv_conf ! 1) ''-h'' ''--help'' \<and>
   \<not> is_opt (argv_conf ! 1) ''-v'' ''--version'' \<and>
   \<not> is_opt (argv_conf ! 1) ''-c'' ''--config'' \<and>
   \<not> is_opt (argv_conf ! 1) ''-s'' ''--stats'' \<and>
   \<not> interrupted (run env_no_file argv_conf) \<and>
   \<not> fopen_ok env_no_file (argv_conf ! 1) \<and>
   status (run env_no_file argv_conf) = Exited EX_DATAERR \<and>
   \<not> interrupted (run env_no_default argv_conf) \<and>
   status (run env_no_default argv_conf) = Exited EX_CONFIG \<and>
   \<not> interrupted (run env_bad_file argv_conf) \<and>
   status (run env_bad_file argv_conf) = Exited EX_DATAERR \<and>
   \<not> interrupted (run env_ok argv_conf) \<and>
   prefix
     [Fopen (argv_conf ! 1) ''r'' True, Option_load_default True,
      Log_stderr ''load config from %s'' [Arg_str (argv_conf ! 1)],
      Option_load_file True, Fclose]
     (trace (run env_ok argv_conf))"
proof -
  have a: "length argv_conf = 2"
    "\<not> is_opt (argv_conf ! 1) ''-h'' ''--help''"
    "\<not> is_opt (argv_conf ! 1) ''-v'' ''--version''"
    "\<not> is_opt (argv_conf ! 1) ''-c'' ''--config''"
    "\<not> is_opt (argv_conf ! 1) ''-s'' ''--stats''"
    by (simp_all add: argv_conf_def is_opt_def)
  have i: "\<not> interrupted (run env_no_file argv_conf)"
    "\<not> interrupted (run env_no_default argv_conf)"
    "\<not> interrupted (run env_bad_file argv_conf)"
    "\<not> interrupted (run env_ok argv_conf)"
    by (simp_all add: interrupted_def handler_ran_def run_env_no_file run_env_no_default
        run_env_bad_file run_env_ok_conf shutdown_log_def exit_events_def image_iff init_def
        setup_calls_def)
  have e: "\<not> fopen_ok env_no_file (argv_conf ! 1)"
    "fopen_ok env_no_default (argv_conf ! 1)" "\<not> load_default_ok env_no_default"
    "fopen_ok env_bad_file (argv_conf ! 1)" "load_default_ok env_bad_file"
    "\<not> load_file_ok env_bad_file"
    "fopen_ok env_ok (argv_conf ! 1)" "load_default_ok env_ok" "load_file_ok env_ok"
    by (simp_all add: env_defs)
  from e config_file_argument [OF a i(1)]
  have 1: "status (run env_no_file argv_conf) = Exited EX_DATAERR" by blast
  from e config_file_argument [OF a i(2)]
  have 2: "status (run env_no_default argv_conf) = Exited EX_CONFIG" by blast
  from e config_file_argument [OF a i(3)]
  have 3: "status (run env_bad_file argv_conf) = Exited EX_DATAERR" by blast
  from e config_file_argument [OF a i(4)]
  have 4: "prefix
     [Fopen (argv_conf ! 1) ''r'' True, Option_load_default True,
      Log_stderr ''load config from %s'' [Arg_str (argv_conf ! 1)],
      Option_load_file True, Fclose]
     (trace (run env_ok argv_conf))" by blast
  from a i e(1) 1 2 3 4 show ?thesis by blast
qed


subsection \<open>The store\<close>

lemma cand_lt: "0 < capacity cfg \<Longrightarrow> i \<in> set (candidates cfg k) \<Longrightarrow> i < capacity cfg"
  by (auto simp: candidates_def)

lemma find_SomeD: "find P xs = Some x \<Longrightarrow> P x \<and> x \<in> set xs"
  by (induction xs) (auto split: if_splits)

lemma find_NoneD: "find P xs = None \<Longrightarrow> x \<in> set xs \<Longrightarrow> \<not> P x"
  by (induction xs) (auto split: if_splits)

lemma live_at_update:
  "i < length tbl \<Longrightarrow>
   live_at t (tbl[i := s]) j x \<longleftrightarrow> (if j = i then s = Some x \<and> live t x else live_at t tbl j x)"
  by (auto simp: live_at_def)

lemma holds_update:
  assumes "i < length tbl"
  shows "holds t (tbl[i := s]) x \<longleftrightarrow>
         (s = Some x \<and> live t x) \<or> (\<exists>l. l \<noteq> i \<and> live_at t tbl l x)"
proof
  assume "holds t (tbl[i := s]) x"
  then obtain l where "live_at t (tbl[i := s]) l x" by (auto simp: holds_def)
  with assms show "(s = Some x \<and> live t x) \<or> (\<exists>l. l \<noteq> i \<and> live_at t tbl l x)"
    by (cases "l = i") (auto simp: live_at_update)
next
  assume "(s = Some x \<and> live t x) \<or> (\<exists>l. l \<noteq> i \<and> live_at t tbl l x)"
  then show "holds t (tbl[i := s]) x"
  proof
    assume "s = Some x \<and> live t x"
    with assms have "live_at t (tbl[i := s]) i x" by (simp add: live_at_update)
    then show ?thesis unfolding holds_def ..
  next
    assume "\<exists>l. l \<noteq> i \<and> live_at t tbl l x"
    then obtain l where "l \<noteq> i" "live_at t tbl l x" by blast
    with assms have "live_at t (tbl[i := s]) l x" by (simp add: live_at_update)
    then show ?thesis unfolding holds_def ..
  qed
qed

lemma holds_vacant_update:
  assumes "i < length tbl" and "\<And>x. \<not> live_at t tbl i x"
  shows "holds t (tbl[i := s]) x \<longleftrightarrow> (s = Some x \<and> live t x) \<or> holds t tbl x"
proof -
  have "holds t tbl x \<longleftrightarrow> (\<exists>l. l \<noteq> i \<and> live_at t tbl l x)"
    unfolding holds_def using assms(2) by metis
  then show ?thesis by (simp add: holds_update [OF assms(1)])
qed

lemma placed_update:
  assumes "placed cfg tbl" and "\<And>it. s = Some it \<Longrightarrow> i \<in> set (candidates cfg (key it))"
  shows "placed cfg (tbl[i := s])"
  unfolding placed_def
proof (intro allI impI)
  fix j it
  assume "j < length (tbl[i := s])" and "tbl[i := s] ! j = Some it"
  with assms show "j \<in> set (candidates cfg (key it))"
    by (cases "j = i") (simp_all add: placed_def)
qed

lemma unique_update:
  assumes "unique t tbl" and "i < length tbl"
    and "\<And>it j x. s = Some it \<Longrightarrow> live_at t tbl j x \<Longrightarrow> key x = key it \<Longrightarrow> j = i"
  shows "unique t (tbl[i := s])"
  unfolding unique_def
proof (intro allI impI)
  fix j l a b
  assume h: "live_at t (tbl[i := s]) j a \<and> live_at t (tbl[i := s]) l b \<and> key a = key b"
  show "j = l"
  proof (cases "j = i")
    case True
    show ?thesis
    proof (cases "l = i")
      case True
      with \<open>j = i\<close> show ?thesis by simp
    next
      case False
      with h True assms(2) have "s = Some a" "live_at t tbl l b" "key b = key a"
        by (simp_all add: live_at_update)
      from assms(3) [OF this] False show ?thesis by simp
    qed
  next
    case False
    show ?thesis
    proof (cases "l = i")
      case True
      with h False assms(2) have "s = Some b" "live_at t tbl j a" "key a = key b"
        by (simp_all add: live_at_update)
      from assms(3) [OF this] False show ?thesis by simp
    next
      case l: False
      with h False assms(2) have "live_at t tbl j a" "live_at t tbl l b" "key a = key b"
        by (simp_all add: live_at_update)
      with assms(1) show ?thesis unfolding unique_def by blast
    qed
  qed
qed

lemma absent_key:
  assumes "placed cfg tbl" and "find (\<lambda>i. holds_key t k (slot_at tbl i)) (candidates cfg k) = None"
    and "live_at t tbl j x"
  shows "key x \<noteq> k"
proof
  assume "key x = k"
  with assms(1,3) have "j \<in> set (candidates cfg k)" by (auto simp: placed_def live_at_def)
  from find_NoneD [OF assms(2) this] assms(3) \<open>key x = k\<close> show False
    by (simp add: holds_key_def slot_at_def live_at_def)
qed

lemma displace_correct:
  assumes "displace cfg t n tbl it i = Some tbl'"
    and "0 < capacity cfg" and "length tbl = capacity cfg"
    and "placed cfg tbl" and "unique t tbl"
    and "i \<in> set (candidates cfg (key it))"
    and "\<And>j x. live_at t tbl j x \<Longrightarrow> key x \<noteq> key it"
  shows "length tbl' = capacity cfg \<and> placed cfg tbl' \<and> unique t tbl' \<and>
         (\<forall>x. holds t tbl' x \<longleftrightarrow> (x = it \<and> live t it) \<or> holds t tbl x)"
  using assms
proof (induction n arbitrary: tbl it i tbl')
  case 0
  from 0(2,3,6) have i: "i < length tbl" by (simp add: cand_lt)
  from 0(1) have v: "vacant t (slot_at tbl i)" and t: "tbl' = tbl[i := Some it]"
    by (auto split: if_splits)
  from v i have nl: "\<And>x. \<not> live_at t tbl i x"
    by (auto simp: vacant_def slot_at_def live_at_def)
  have "placed cfg tbl'" unfolding t using 0(4,6) by (intro placed_update) auto
  moreover have "unique t tbl'" unfolding t using 0(5) i 0(7) by (intro unique_update) auto
  moreover have "holds t tbl' x \<longleftrightarrow> (x = it \<and> live t it) \<or> holds t tbl x" for x
    unfolding t using holds_vacant_update [OF i nl, of "Some it" x] by auto
  ultimately show ?case using t 0(3) by simp
next
  case (Suc m)
  from Suc.prems(2,3,6) have i: "i < length tbl" by (simp add: cand_lt)
  let ?tbl1 = "tbl[i := Some it]"
  have p1: "placed cfg ?tbl1" using Suc.prems(4,6) by (intro placed_update) auto
  have u1: "unique t ?tbl1" using Suc.prems(5) i Suc.prems(7) by (intro unique_update) auto
  show ?case
  proof (cases "vacant t (slot_at tbl i)")
    case True
    with Suc.prems(1) have t: "tbl' = ?tbl1" by simp
    from True i have nl: "\<And>x. \<not> live_at t tbl i x"
      by (auto simp: vacant_def slot_at_def live_at_def)
    have "holds t tbl' x \<longleftrightarrow> (x = it \<and> live t it) \<or> holds t tbl x" for x
      unfolding t using holds_vacant_update [OF i nl, of "Some it" x] by auto
    with p1 u1 t Suc.prems(3) show ?thesis by simp
  next
    case False
    with i obtain occ where occ: "tbl ! i = Some occ" "live t occ"
      by (auto simp: vacant_def slot_at_def split: option.splits)
    with i have la: "live_at t tbl i occ" by (simp add: live_at_def)
    from False occ i Suc.prems(1) obtain j
      where j: "find (\<lambda>j. j \<noteq> i) (candidates cfg (key occ)) = Some j"
        and d: "displace cfg t m ?tbl1 occ j = Some tbl'"
      by (auto simp: slot_at_def split: option.splits)
    from find_SomeD [OF j] have jc: "j \<in> set (candidates cfg (key occ))" by simp
    have ko: "key occ \<noteq> key it" using Suc.prems(7) [OF la] .
    have ab: "key x \<noteq> key occ" if "live_at t ?tbl1 l x" for l x
    proof (cases "l = i")
      case True
      with that i ko show ?thesis by (auto simp: live_at_update)
    next
      case False
      with that i have "live_at t tbl l x" by (simp add: live_at_update)
      with la Suc.prems(5) False show ?thesis unfolding unique_def by blast
    qed
    from Suc.IH [OF d Suc.prems(2) _ p1 u1 jc ab] Suc.prems(3)
    have r: "length tbl' = capacity cfg" "placed cfg tbl'" "unique t tbl'"
      "\<And>x. holds t tbl' x \<longleftrightarrow> (x = occ \<and> live t occ) \<or> holds t ?tbl1 x"
      by simp_all
    have "holds t tbl' x \<longleftrightarrow> (x = it \<and> live t it) \<or> holds t tbl x" for x
    proof -
      have "holds t ?tbl1 x \<longleftrightarrow> (x = it \<and> live t it) \<or> (\<exists>l. l \<noteq> i \<and> live_at t tbl l x)"
        using holds_update [OF i, of t "Some it" x] by auto
      moreover have "holds t tbl x \<longleftrightarrow> x = occ \<or> (\<exists>l. l \<noteq> i \<and> live_at t tbl l x)"
        unfolding holds_def using la by (metis live_at_def option.inject)
      ultimately show ?thesis using r(4) [of x] occ(2) by blast
    qed
    with r show ?thesis by simp
  qed
qed

lemma get_holds:
  assumes "placed cfg (slots st)" "unique (now st) (slots st)" "holds (now st) (slots st) it"
  shows "store_get cfg st (key it) = Item it"
proof -
  from assms(3) obtain i where i: "i < length (slots st)" "slots st ! i = Some it"
    and l: "live (now st) it" by (auto simp: holds_def live_at_def)
  from assms(1) i have c: "i \<in> set (candidates cfg (key it))" by (auto simp: placed_def)
  show ?thesis
  proof (cases "probe cfg st (key it)")
    case None
    from find_NoneD [OF None [unfolded probe_def] c] i l show ?thesis
      by (simp add: holds_key_def slot_at_def)
  next
    case (Some j)
    from find_SomeD [OF Some [unfolded probe_def]]
    obtain b where b: "j < length (slots st)" "slots st ! j = Some b" "key b = key it"
      "live (now st) b"
      by (auto simp: holds_key_def slot_at_def split: option.splits if_splits)
    with assms(2) i l have "i = j" unfolding unique_def live_at_def by blast
    with Some i b show ?thesis by (simp add: store_get_def slot_at_def)
  qed
qed

lemma probe_SomeD:
  assumes "probe cfg st k = Some i"
  shows "i \<in> set (candidates cfg k) \<and>
         (\<exists>old. live_at (now st) (slots st) i old \<and> key old = k)"
  using find_SomeD [OF assms [unfolded probe_def]]
  by (auto simp: holds_key_def slot_at_def live_at_def split: option.splits if_splits)

lemma store_set_now: "now (snd (store_set cfg st k v f ttl)) = now st"
  by (simp add: store_set_def Let_def split: option.splits list.splits)

lemma store_delete_now: "now (snd (store_delete cfg st k)) = now st"
  by (simp add: store_delete_def split: option.splits)

lemma store_set_step:
  assumes "store_wf cfg st" and "0 < capacity cfg" and "store_set cfg st k v f ttl = (r, st')"
  shows "store_wf cfg st' \<and>
         (\<forall>x. key x \<noteq> k \<longrightarrow> holds (now st) (slots st') x = holds (now st) (slots st) x) \<and>
         (r = Stored \<longrightarrow> holds (now st) (slots st') (new_item (now st) k v f ttl))"
proof -
  let ?t = "now st" and ?tbl = "slots st" and ?it = "new_item (now st) k v f ttl"
  from assms(1) have len: "length ?tbl = capacity cfg" and pl: "placed cfg ?tbl"
    and un: "unique ?t ?tbl" by (simp_all add: store_wf_def)
  have kit: "key ?it = k" and lit: "live ?t ?it"
    by (simp_all add: new_item_def live_def)
  have put: "store_wf cfg (st\<lparr>slots := ?tbl[i := Some ?it]\<rparr>) \<and>
      (\<forall>x. key x \<noteq> k \<longrightarrow> holds ?t (?tbl[i := Some ?it]) x = holds ?t ?tbl x) \<and>
      holds ?t (?tbl[i := Some ?it]) ?it"
    if c: "i \<in> set (candidates cfg k)"
      and o: "\<And>j x. live_at ?t ?tbl j x \<Longrightarrow> key x = k \<Longrightarrow> j = i"
      and p: "\<And>x. live_at ?t ?tbl i x \<Longrightarrow> key x = k" for i
  proof -
    from c assms(2) len have i: "i < length ?tbl" by (simp add: cand_lt)
    have "placed cfg (?tbl[i := Some ?it])" using pl c kit by (intro placed_update) auto
    moreover have "unique ?t (?tbl[i := Some ?it])"
      using un i o kit by (intro unique_update) auto
    moreover have "holds ?t (?tbl[i := Some ?it]) x = holds ?t ?tbl x" if "key x \<noteq> k" for x
    proof -
      have "holds ?t ?tbl x \<longleftrightarrow> (\<exists>l. l \<noteq> i \<and> live_at ?t ?tbl l x)"
        unfolding holds_def using p that by metis
      with that kit show ?thesis by (auto simp: holds_update [OF i])
    qed
    moreover have "holds ?t (?tbl[i := Some ?it]) ?it"
      using lit by (simp add: holds_update [OF i])
    ultimately show ?thesis using len by (simp add: store_wf_def)
  qed
  show ?thesis
  proof (cases "max_key_len cfg < length k \<or> max_val_len cfg < length v")
    case True
    with assms(1,3) show ?thesis by (auto simp: store_set_def)
  next
    case ok: False
    show ?thesis
    proof (cases "probe cfg st k")
      case (Some i)
      with ok assms(3) have r: "r = Stored" "st' = st\<lparr>slots := ?tbl[i := Some ?it]\<rparr>"
        by (simp_all add: store_set_def Let_def)
      from probe_SomeD [OF Some] obtain old where c: "i \<in> set (candidates cfg k)"
        and old: "live_at ?t ?tbl i old" "key old = k" by blast
      have o: "j = i" if "live_at ?t ?tbl j x" "key x = k" for j x
        using un that old unfolding unique_def by blast
      have p: "key x = k" if "live_at ?t ?tbl i x" for x
        using that old by (simp add: live_at_def)
      from put [OF c o p] r show ?thesis by simp
    next
      case None
      have ab: "key x \<noteq> k" if "live_at ?t ?tbl j x" for j x
        using absent_key [OF pl None [unfolded probe_def] that] .
      show ?thesis
      proof (cases "find (\<lambda>i. vacant ?t (slot_at ?tbl i)) (candidates cfg k)")
        case (Some i)
        with ok None assms(3) have r: "r = Stored" "st' = st\<lparr>slots := ?tbl[i := Some ?it]\<rparr>"
          by (simp_all add: store_set_def Let_def)
        from find_SomeD [OF Some] have c: "i \<in> set (candidates cfg k)"
          and v: "vacant ?t (slot_at ?tbl i)" by simp_all
        have o: "j = i" if "live_at ?t ?tbl j x" "key x = k" for j x
          using ab [OF that(1)] that(2) by simp
        have p: "key x = k" if "live_at ?t ?tbl i x" for x
          using that v by (simp add: live_at_def vacant_def slot_at_def)
        from put [OF c o p] r show ?thesis by simp
      next
        case nv: None
        show ?thesis
        proof (cases "candidates cfg k")
          case Nil
          with ok None nv assms(1,3) show ?thesis by (auto simp: store_set_def Let_def)
        next
          case (Cons i cs)
          then have c: "i \<in> set (candidates cfg (key ?it))" by (simp add: kit)
          show ?thesis
          proof (cases "displace cfg ?t (max_displace cfg) ?tbl ?it i")
            case dn: None
            with ok None nv Cons assms(1,3) show ?thesis
              by (auto simp: store_set_def Let_def)
          next
            case (Some tbl')
            with ok None nv Cons assms(3) have r: "r = Stored" "st' = st\<lparr>slots := tbl'\<rparr>"
              by (simp_all add: store_set_def Let_def)
            have "key x \<noteq> key ?it" if "live_at ?t ?tbl j x" for j x
              using ab [OF that] kit by simp
            from displace_correct [OF Some assms(2) len pl un c this] r kit lit
            show ?thesis by (auto simp: store_wf_def)
          qed
        qed
      qed
    qed
  qed
qed

lemma store_delete_step:
  assumes "store_wf cfg st" and "store_delete cfg st k = (r, st')"
  shows "store_wf cfg st' \<and>
         (\<forall>x. key x \<noteq> k \<longrightarrow> holds (now st) (slots st') x = holds (now st) (slots st) x)"
proof (cases "probe cfg st k")
  case None
  with assms show ?thesis by (auto simp: store_delete_def)
next
  case (Some i)
  let ?t = "now st" and ?tbl = "slots st"
  from Some assms(2) have r: "st' = st\<lparr>slots := ?tbl[i := None]\<rparr>"
    by (auto simp: store_delete_def)
  from probe_SomeD [OF Some] obtain old where old: "live_at ?t ?tbl i old" "key old = k"
    by blast
  then have i: "i < length ?tbl" by (simp add: live_at_def)
  from assms(1) have len: "length ?tbl = capacity cfg" and pl: "placed cfg ?tbl"
    and un: "unique ?t ?tbl" by (simp_all add: store_wf_def)
  have "placed cfg (?tbl[i := None])" using pl by (intro placed_update) auto
  moreover have "unique ?t (?tbl[i := None])" using un i by (intro unique_update) auto
  moreover have "holds ?t (?tbl[i := None]) x = holds ?t ?tbl x" if "key x \<noteq> k" for x
  proof -
    have "holds ?t ?tbl x \<longleftrightarrow> (\<exists>l. l \<noteq> i \<and> live_at ?t ?tbl l x)"
      unfolding holds_def using old that by (metis live_at_def option.inject)
    then show ?thesis by (simp add: holds_update [OF i])
  qed
  ultimately show ?thesis using r len by (simp add: store_wf_def)
qed

lemma live_mono: "live t' x \<Longrightarrow> t \<le> t' \<Longrightarrow> live t x"
  by (simp add: live_def split: option.splits)

lemma tick_step:
  assumes "store_wf cfg st"
  shows "store_wf cfg (st\<lparr>now := now st + n\<rparr>)"
proof -
  have m: "live_at (now st) (slots st) i x" if "live_at (now st + n) (slots st) i x" for i x
    using that by (auto simp: live_at_def live_def split: option.splits)
  from assms have "unique (now st) (slots st)" by (simp add: store_wf_def)
  then have "unique (now st + n) (slots st)" unfolding unique_def using m by blast
  with assms show ?thesis by (simp add: store_wf_def)
qed

lemma apply_op_now: "now st \<le> now (apply_op cfg st op)"
  by (cases op) (simp_all add: store_set_now store_delete_now)

lemma exec_now: "now st \<le> now (exec cfg ops st)"
  unfolding exec_def
proof (induction ops arbitrary: st)
  case Nil
  show ?case by simp
next
  case (Cons op ops)
  from Cons [of "apply_op cfg st op"] apply_op_now [of st cfg op] show ?case by simp
qed

lemma apply_op_step:
  assumes "store_wf cfg st" and "0 < capacity cfg"
  shows "store_wf cfg (apply_op cfg st op) \<and>
         (\<forall>x. written_key op \<noteq> Some (key x) \<and> holds (now st) (slots st) x \<and>
              live (now (apply_op cfg st op)) x \<longrightarrow>
              holds (now (apply_op cfg st op)) (slots (apply_op cfg st op)) x)"
proof (cases op)
  case (Op_set k v f ttl)
  from store_set_step [OF assms, of k v f ttl "fst (store_set cfg st k v f ttl)"
      "snd (store_set cfg st k v f ttl)"]
  show ?thesis by (auto simp: Op_set store_set_now)
next
  case (Op_get k)
  with assms show ?thesis by simp
next
  case (Op_delete k)
  from store_delete_step [OF assms(1), of k "fst (store_delete cfg st k)"
      "snd (store_delete cfg st k)"]
  show ?thesis by (auto simp: Op_delete store_delete_now)
next
  case (Op_tick n)
  with tick_step [OF assms(1), of n] show ?thesis
    by (auto simp: holds_def live_at_def)
qed

lemma exec_step:
  assumes "store_wf cfg st" and "0 < capacity cfg"
    and "\<forall>op\<in>set ops. written_key op \<noteq> Some (key x)"
    and "holds (now st) (slots st) x"
    and "live (now (exec cfg ops st)) x"
  shows "store_wf cfg (exec cfg ops st) \<and> holds (now (exec cfg ops st)) (slots (exec cfg ops st)) x"
  using assms
proof (induction ops arbitrary: st)
  case Nil
  then show ?case by (simp add: exec_def)
next
  case (Cons op ops)
  let ?forever = "apply_op cfg st op"
  have e: "exec cfg (op # ops) st = exec cfg ops ?forever" by (simp add: exec_def)
  from Cons.prems(5) exec_now [of ?forever cfg ops] have l: "live (now ?forever) x"
    by (auto simp: e intro: live_mono)
  from apply_op_step [OF Cons.prems(1,2), of op] Cons.prems(3,4) l
  have "store_wf cfg ?forever" "holds (now ?forever) (slots ?forever) x" by auto
  from Cons.IH [OF this(1) Cons.prems(2) _ this(2)] Cons.prems(3,5) show ?case
    by (simp add: e)
qed

lemma store_wf_create: "store_wf cfg (store_create cfg)"
  by (auto simp: store_wf_def store_create_def placed_def unique_def live_at_def)

lemma store_wf_exec:
  assumes "0 < capacity cfg" and "store_wf cfg st"
  shows "store_wf cfg (exec cfg ops st)"
  using assms(2) unfolding exec_def
proof (induction ops arbitrary: st)
  case Nil
  then show ?case by simp
next
  case (Cons op ops)
  from apply_op_step [OF Cons.prems assms(1), of op] have "store_wf cfg (apply_op cfg st op)" by simp
  from Cons.IH [OF this] show ?case by simp
qed


lemmas store_defs = exec_def store_set_def store_delete_def store_get_def probe_def
  candidates_def slot_at_def holds_key_def vacant_def live_def new_item_def
  Let_def cfg_example_def hash_low_def hash_high_def history_example_def later_example_def
  key_foo_def val_bar_def

lemma create_example:
  "store_create cfg_example = \<lparr>slots = [None, None, None, None], now = 0\<rparr>"
  by (simp add: store_create_def cfg_example_def numeral_eq_Suc)

lemma history_example_state:
  "exec cfg_example history_example (store_create cfg_example) =
     \<lparr>slots = [Some \<lparr>key = [4], val = [1], flags = 0, expire = Some 10\<rparr>,
               Some \<lparr>key = [9], val = [2], flags = 0, expire = Some 10\<rparr>, None, None],
      now = 1\<rparr>"
  by (simp add: create_example) (simp add: store_defs)

lemma set_example:
  "store_set cfg_example
     \<lparr>slots = [Some \<lparr>key = [4], val = [1], flags = 0, expire = Some 10\<rparr>,
               Some \<lparr>key = [9], val = [2], flags = 0, expire = Some 10\<rparr>, None, None],
      now = 1\<rparr> [20] [3] 7 10 =
   (Stored, \<lparr>slots = [Some \<lparr>key = [20], val = [3], flags = 7, expire = Some 11\<rparr>,
               Some \<lparr>key = [4], val = [1], flags = 0, expire = Some 10\<rparr>,
               Some \<lparr>key = [9], val = [2], flags = 0, expire = Some 10\<rparr>, None],
      now = 1\<rparr>)"
  by (simp add: store_defs)

lemma set_example_forever:
  "store_set cfg_example
     \<lparr>slots = [Some \<lparr>key = [4], val = [1], flags = 0, expire = Some 10\<rparr>,
               Some \<lparr>key = [9], val = [2], flags = 0, expire = Some 10\<rparr>, None, None],
      now = 1\<rparr> [20] [3] 7 0 =
   (Stored, \<lparr>slots = [Some \<lparr>key = [20], val = [3], flags = 7, expire = None\<rparr>,
               Some \<lparr>key = [4], val = [1], flags = 0, expire = Some 10\<rparr>,
               Some \<lparr>key = [9], val = [2], flags = 0, expire = Some 10\<rparr>, None],
      now = 1\<rparr>)"
  by (simp add: store_defs)

lemma set_example_foo:
  "store_set cfg_example \<lparr>slots = [None, None, None, None], now = 0\<rparr> key_foo val_bar 0 0 =
   (Stored, \<lparr>slots = [None, None,
                       Some \<lparr>key = key_foo, val = val_bar, flags = 0, expire = None\<rparr>, None],
             now = 0\<rparr>)"
  by (simp add: store_defs)

text \<open>
  C7. In a store reached from the empty one by any history of operations, let
  \<open>set(k, v, flags, ttl)\<close> return \<open>Stored\<close>. Then, after any further operations none of which
  sets or deletes \<open>k\<close> (sets and deletes of other keys, with the displacements they cause,
  gets of any key, and the passing of time), and as long as the item has not expired (its
  time to live is 0, or the clock is before its expire time), \<open>get(k)\<close> returns the item
  with the value \<open>v\<close> and the flags that were set. No live item is evicted: when the
  displacement bound is exhausted the set is rejected as \<open>Full\<close>.
\<close>

theorem set_then_get:
  assumes "0 < capacity cfg"
    and "st = exec cfg history (store_create cfg)"
    and "store_set cfg st k v f ttl = (Stored, st1)"
    and "\<forall>op\<in>set later. written_key op \<noteq> Some k"
    and "st2 = exec cfg later st1"
    and "ttl = 0 \<or> now st2 < now st + ttl"
  shows "store_get cfg st2 k =
           Item \<lparr>key = k, val = v, flags = f,
                 expire = (if ttl = 0 then None else Some (now st + ttl))\<rparr>"
proof -
  let ?it = "new_item (now st) k v f ttl"
  have w: "store_wf cfg st"
    unfolding assms(2) using assms(1) store_wf_create by (rule store_wf_exec)
  from assms(6) have l: "live (now st2) ?it"
    by (auto simp: live_def new_item_def)
  from store_set_step [OF w assms(1,3)]
  have w1: "store_wf cfg st1" and hl: "holds (now st) (slots st1) ?it" by auto
  from store_set_now [of cfg st k v f ttl] assms(3) have n1: "now st1 = now st" by simp
  from exec_step [OF w1 assms(1), of later ?it] assms(4) hl l
  have "store_wf cfg st2" "holds (now st2) (slots st2) ?it"
    by (simp_all add: n1 assms(5) new_item_def)
  from get_holds [OF _ _ this(2), of cfg] this(1) show ?thesis
    by (simp add: store_wf_def new_item_def)
qed

theorem set_then_get_witness:
  "fst (store_set cfg_example (store_create cfg_example) key_foo val_bar 0 0) = Stored \<and>
   store_get cfg_example
     (exec cfg_example [Op_tick 1000]
        (snd (store_set cfg_example (store_create cfg_example) key_foo val_bar 0 0)))
     key_foo = Item \<lparr>key = key_foo, val = val_bar, flags = 0, expire = None\<rparr> \<and>
   fst (store_set cfg_example
          (exec cfg_example history_example (store_create cfg_example)) [20] [3] 7 0) =
     Stored \<and>
   store_get cfg_example
     (exec cfg_example later_example
        (snd (store_set cfg_example
                (exec cfg_example history_example (store_create cfg_example)) [20] [3] 7 0)))
     [20] = Item \<lparr>key = [20], val = [3], flags = 7, expire = None\<rparr> \<and>
   fst (store_set cfg_example
          (exec cfg_example history_example (store_create cfg_example)) [20] [3] 7 10) =
     Stored \<and>
   now (exec cfg_example later_example
     (snd (store_set cfg_example
             (exec cfg_example history_example (store_create cfg_example)) [20] [3] 7 10))) =
     10 \<and>
   store_get cfg_example
     (exec cfg_example later_example
        (snd (store_set cfg_example
                (exec cfg_example history_example (store_create cfg_example)) [20] [3] 7 10)))
     [20] = Item \<lparr>key = [20], val = [3], flags = 7, expire = Some 11\<rparr>"
proof -
  let ?empty = "store_create cfg_example"
  let ?st = "exec cfg_example history_example (store_create cfg_example)"
  let ?foo = "\<lparr>slots = [None, None,
                Some \<lparr>key = key_foo, val = val_bar, flags = 0, expire = None\<rparr>, None],
             now = 0\<rparr>"
  let ?forever = "\<lparr>slots = [Some \<lparr>key = [20], val = [3], flags = 7, expire = None\<rparr>,
               Some \<lparr>key = [4], val = [1], flags = 0, expire = Some 10\<rparr>,
               Some \<lparr>key = [9], val = [2], flags = 0, expire = Some 10\<rparr>, None],
      now = 1\<rparr>"
  let ?timed = "\<lparr>slots = [Some \<lparr>key = [20], val = [3], flags = 7, expire = Some 11\<rparr>,
               Some \<lparr>key = [4], val = [1], flags = 0, expire = Some 10\<rparr>,
               Some \<lparr>key = [9], val = [2], flags = 0, expire = Some 10\<rparr>, None],
      now = 1\<rparr>"
  have c: "0 < capacity cfg_example" by (simp add: cfg_example_def)
  have e: "?empty = exec cfg_example [] ?empty" by (simp add: exec_def)
  have sf: "store_set cfg_example ?empty key_foo val_bar 0 0 = (Stored, ?foo)"
    by (simp only: create_example set_example_foo)
  have lf: "\<forall>op\<in>set [Op_tick 1000]. written_key op \<noteq> Some key_foo" by simp
  from set_then_get [OF c e sf lf refl]
  have 1: "store_get cfg_example (exec cfg_example [Op_tick 1000] ?foo) key_foo =
      Item \<lparr>key = key_foo, val = val_bar, flags = 0, expire = None\<rparr>" by simp
  have s: "store_set cfg_example ?st [20] [3] 7 0 = (Stored, ?forever)"
    by (simp only: history_example_state set_example_forever)
  have s': "store_set cfg_example ?st [20] [3] 7 10 = (Stored, ?timed)"
    by (simp only: history_example_state set_example)
  have l: "\<forall>op\<in>set later_example. written_key op \<noteq> Some [20]"
    by (simp add: later_example_def)
  have n: "now (exec cfg_example later_example ?timed) = 10" by (simp add: store_defs)
  have n0: "now ?st = 1" by (simp add: history_example_state)
  from set_then_get [OF c refl s l refl]
  have 2: "store_get cfg_example (exec cfg_example later_example ?forever) [20] =
      Item \<lparr>key = [20], val = [3], flags = 7, expire = None\<rparr>" by simp
  from set_then_get [OF c refl s' l refl] n n0
  have 3: "store_get cfg_example (exec cfg_example later_example ?timed) [20] =
      Item \<lparr>key = [20], val = [3], flags = 7, expire = Some 11\<rparr>" by simp
  have a1: "fst (store_set cfg_example ?empty key_foo val_bar 0 0) = Stored"
    by (simp only: sf fst_conv)
  have a2: "store_get cfg_example
     (exec cfg_example [Op_tick 1000] (snd (store_set cfg_example ?empty key_foo val_bar 0 0)))
     key_foo = Item \<lparr>key = key_foo, val = val_bar, flags = 0, expire = None\<rparr>"
    by (simp only: sf snd_conv 1)
  have b1: "fst (store_set cfg_example ?st [20] [3] 7 0) = Stored"
    by (simp only: s fst_conv)
  have b2: "store_get cfg_example
     (exec cfg_example later_example (snd (store_set cfg_example ?st [20] [3] 7 0)))
     [20] = Item \<lparr>key = [20], val = [3], flags = 7, expire = None\<rparr>"
    by (simp only: s snd_conv 2)
  have c1: "fst (store_set cfg_example ?st [20] [3] 7 10) = Stored"
    by (simp only: s' fst_conv)
  have c2: "now (exec cfg_example later_example
     (snd (store_set cfg_example ?st [20] [3] 7 10))) = 10"
    by (simp only: s' snd_conv n)
  have c3: "store_get cfg_example
     (exec cfg_example later_example (snd (store_set cfg_example ?st [20] [3] 7 10)))
     [20] = Item \<lparr>key = [20], val = [3], flags = 7, expire = Some 11\<rparr>"
    by (simp only: s' snd_conv 3)
  from a1 a2 b1 b2 c1 c2 c3 show ?thesis by blast
qed
end
